theory Spec2Isabelle
  imports Complex_Main
begin

section \<open>The process grid and distributed matrices\<close>

text \<open>
  The scalar type \<open>T\<close> of the kernels (float, double and their complex variants) is
  modelled by \<^typ>\<open>complex\<close> in exact arithmetic; a real instantiation is the
  restriction to numbers with imaginary part zero, where \<^const>\<open>cnj\<close> is the identity.
  Dimensions, block sizes and alignments are natural numbers.
\<close>

text \<open>The accessors \<open>Height\<close>, \<open>Width\<close> and \<open>Blocksize\<close> of the library return \<open>int\<close>, and
  the source multiplies them as such. An \<open>int\<close> has 32 bits and a product that does not
  fit wraps around: \<open>int32 x\<close> is the value of the mathematical integer \<open>x\<close> as an \<open>int\<close>.\<close>

definition int32 :: "int \<Rightarrow> int" where
  "int32 x = (x + 2 ^ 31) mod 2 ^ 32 - 2 ^ 31"

text \<open>Modelled from the spec: the process grid (its class is not among the sources): the
  set of processes it wraps, named by a number, its height and width, and the rank of the
  process that runs the routine. Two grids are equal when they wrap the same processes.\<close>

record Grid =
  gridId :: nat
  gridHeight :: nat
  gridWidth :: nat
  VCRank :: nat

text \<open>The distributions of a dimension that occur as template arguments in the source:
  over a process column, over a process row, replicated.\<close>

datatype Dist = MC | MR | Star

text \<open>Modelled from the spec: the number of grid coordinates a dimension is dealt over
  (the Grid class is not among the sources): the grid height for a dimension distributed
  over a process column, the grid width over a process row, one when replicated.\<close>

fun distStride :: "Grid \<Rightarrow> Dist \<Rightarrow> nat" where
  "distStride g MC = gridHeight g"
| "distStride g MR = gridWidth g"
| "distStride g Star = 1"

text \<open>
  Every matrix object of the routine names the buffer it reads and writes. The caller's
  two operands, the two redistributed panels and the two temporaries of the base-case kernel
  each have a buffer of their own; a view shares the buffer of the matrix it was cut from.
  A buffer is addressed by the global row and column index of the matrix that owns it.
  \<open>BufC\<close> is the storage of the caller's \<open>C\<close>. The caller's \<open>A\<close> has storage of its own,
  \<open>BufA\<close>, or it shares that of \<open>C\<close>: the routine takes both by reference and nothing in it
  keeps a caller from passing one matrix, or two views of one matrix, for both.
\<close>

datatype buffer_name = BufA | BufC | BufA1_MC_Star | BufA1_MR_Star | BufDTL | BufDBR

text \<open>Modelled from the spec: a distributed matrix or a view of one (the class is not
  among the sources): its grid, the distributions of its two dimensions, its global shape,
  its alignments, the buffer it reads and writes, and the position in that buffer of its
  first entry.\<close>

record DistMatrix =
  GetGrid :: Grid
  ColDist :: Dist
  RowDist :: Dist
  Height :: nat
  Width :: nat
  ColAlignment :: nat
  RowAlignment :: nat
  Buf :: buffer_name
  RowOffset :: nat
  ColOffset :: nat

text \<open>The enumerations of the library that the source passes to its calls.\<close>

datatype Orientation = Normal | Transpose | ConjugateTranspose
datatype Side = Left | Right
datatype Shape = Lower | Upper

text \<open>The state the routines act on: the contents of the buffers, and the library calls
  made so far, each with its arguments, in the order in which they were made.\<close>

datatype blas_call =
    Scal_call complex DistMatrix
  | Gemm_call Orientation Orientation complex DistMatrix DistMatrix complex DistMatrix
  | MakeTrapezoidal_call Side Shape DistMatrix
  | Axpy_call complex DistMatrix DistMatrix
  | Redistribute_call DistMatrix DistMatrix

record herk_state =
  mem :: "buffer_name \<Rightarrow> nat \<Rightarrow> nat \<Rightarrow> complex"
  calls :: "blas_call list"

text \<open>The messages of the entry checks, with the numbers they print.\<close>

datatype cerr_msg =
    SameGridMsg
  | NonconformalHerkUN nat nat nat nat
  | NonconformalHerkUNUpdate nat nat nat nat nat nat
  | MisalignedHerkUNUpdate nat nat nat nat

text \<open>The routines throw a bare \<open>exception()\<close>; what distinguishes the failures is the
  text the process of rank zero writes to the error stream first. The model's exception
  carries what this process wrote.\<close>

datatype exn = Exception "cerr_msg list"

text \<open>Entry \<open>(i, j)\<close> of a matrix or view, and the positions of its buffer that belong to
  it.\<close>

definition Get :: "herk_state \<Rightarrow> DistMatrix \<Rightarrow> nat \<Rightarrow> nat \<Rightarrow> complex" where
  "Get s M i j = mem s (Buf M) (RowOffset M + i) (ColOffset M + j)"

definition inWindow :: "DistMatrix \<Rightarrow> nat \<Rightarrow> nat \<Rightarrow> bool" where
  "inWindow M i j \<longleftrightarrow>
     RowOffset M \<le> i \<and> i < RowOffset M + Height M \<and>
     ColOffset M \<le> j \<and> j < ColOffset M + Width M"

subsection \<open>Views and partitions\<close>

text \<open>Modelled from the spec: a view is a non-owning window on another matrix's buffer
  (the view and partition routines of the library are not among the sources). The
  alignment of a view is the grid coordinate that owns its first row and column.\<close>

definition View :: "DistMatrix \<Rightarrow> nat \<Rightarrow> nat \<Rightarrow> nat \<Rightarrow> nat \<Rightarrow> DistMatrix" where
  "View M i j h w =
     M\<lparr> Height := h, Width := w,
        ColAlignment := (ColAlignment M + i) mod distStride (GetGrid M) (ColDist M),
        RowAlignment := (RowAlignment M + j) mod distStride (GetGrid M) (RowDist M),
        RowOffset := RowOffset M + i, ColOffset := ColOffset M + j \<rparr>"

text \<open>Modelled from the spec: the column partition of the contraction dimension into
  panels of the block width (the partition routines are not among the sources).\<close>

definition LockedPartitionRight :: "DistMatrix \<Rightarrow> DistMatrix \<times> DistMatrix" where
  "LockedPartitionRight A = (View A 0 0 (Height A) 0, View A 0 0 (Height A) (Width A))"

text \<open>Modelled from the spec: the next panel \<open>A1\<close> is cut from the left of \<open>AR\<close>, as wide
  as the block size or as what is left of \<open>AR\<close>, whichever is less.\<close>

definition LockedRepartitionRight ::
  "nat \<Rightarrow> DistMatrix \<Rightarrow> DistMatrix \<Rightarrow> DistMatrix \<times> DistMatrix \<times> DistMatrix" where
  "LockedRepartitionRight bsize AL AR =
     (let w = min bsize (Width AR)
      in (AL, View AR 0 0 (Height AR) w, View AR 0 w (Height AR) (Width AR - w)))"

text \<open>Modelled from the spec: after a panel is processed it joins the columns already
  used.\<close>

definition SlideLockedPartitionRight ::
  "DistMatrix \<Rightarrow> DistMatrix \<Rightarrow> DistMatrix \<Rightarrow> DistMatrix \<times> DistMatrix" where
  "SlideLockedPartitionRight A0 A1 A2 =
     (View A0 0 0 (Height A0) (Width A0 + Width A1), A2)"

text \<open>Modelled from the spec: the split of a matrix into a top and a bottom part at a
  given row.\<close>

definition LockedPartitionDown :: "DistMatrix \<Rightarrow> nat \<Rightarrow> DistMatrix \<times> DistMatrix" where
  "LockedPartitionDown A h =
     (let h' = min h (Height A)
      in (View A 0 0 h' (Width A), View A h' 0 (Height A - h') (Width A)))"

text \<open>Modelled from the spec: the split of a matrix into four quadrants (top-left,
  top-right, bottom-left, bottom-right) at a point of its diagonal.\<close>

definition PartitionDownDiagonal ::
  "DistMatrix \<Rightarrow> nat \<Rightarrow> DistMatrix \<times> DistMatrix \<times> DistMatrix \<times> DistMatrix" where
  "PartitionDownDiagonal C d =
     (let d' = min d (min (Height C) (Width C))
      in (View C 0 0 d' d', View C 0 d' d' (Width C - d'),
          View C d' 0 (Height C - d') d', View C d' d' (Height C - d') (Width C - d')))"

text \<open>Modelled from the spec: \<open>AlignWith\<close> sets the alignment of a matrix to that of
  another along the distribution they share.\<close>

definition AlignWith :: "DistMatrix \<Rightarrow> DistMatrix \<Rightarrow> DistMatrix" where
  "AlignWith X C =
     X\<lparr> ColAlignment :=
          (if ColDist X = ColDist C then ColAlignment C
           else if ColDist X = RowDist C then RowAlignment C else ColAlignment X),
        RowAlignment :=
          (if RowDist X = Star then 0
           else if RowDist X = RowDist C then RowAlignment C
           else if RowDist X = ColDist C then ColAlignment C else RowAlignment X) \<rparr>"

text \<open>Modelled from the spec: resizing sets the global shape; the contents of the buffer
  are whatever they were.\<close>

definition ResizeTo :: "DistMatrix \<Rightarrow> nat \<Rightarrow> nat \<Rightarrow> DistMatrix" where
  "ResizeTo X h w = X\<lparr> Height := h, Width := w \<rparr>"

text \<open>Modelled from the spec: a matrix constructed on a grid, with given distributions and
  a buffer of its own, and not yet sized.\<close>

definition newDistMatrix :: "Grid \<Rightarrow> Dist \<Rightarrow> Dist \<Rightarrow> buffer_name \<Rightarrow> DistMatrix" where
  "newDistMatrix g cd rd b =
     \<lparr> GetGrid = g, ColDist = cd, RowDist = rd, Height = 0, Width = 0,
       ColAlignment = 0, RowAlignment = 0, Buf = b, RowOffset = 0, ColOffset = 0 \<rparr>"

subsection \<open>The local operations, by their effect on the global entries\<close>

text \<open>Every operation appends itself to the list of calls.\<close>

definition note_call :: "blas_call \<Rightarrow> herk_state \<Rightarrow> herk_state" where
  "note_call c s = s\<lparr> calls := calls s @ [c] \<rparr>"

text \<open>Modelled from the spec: redistribution populates the destination so that every
  global entry of the destination equals that of the source (the assignment operators of
  the distributed matrix are not among the sources). The destination takes the shape of
  the source and keeps its own distribution and alignment.\<close>

definition Redistribute ::
  "DistMatrix \<Rightarrow> DistMatrix \<Rightarrow> herk_state \<Rightarrow> DistMatrix \<times> herk_state" where
  "Redistribute B A s =
     (let B' = B\<lparr> Height := Height A, Width := Width A \<rparr>
      in (B', note_call (Redistribute_call B' A)
                (s\<lparr> mem := (mem s)(Buf B' := \<lambda>i j.
                      if inWindow B' i j
                      then Get s A (i - RowOffset B') (j - ColOffset B')
                      else mem s (Buf B') i j) \<rparr>)))"

text \<open>Modelled from the spec: \<open>Scal\<close> multiplies every entry of the matrix it is given
  (here a view) by the scalar.\<close>

definition Scal :: "complex \<Rightarrow> DistMatrix \<Rightarrow> herk_state \<Rightarrow> herk_state" where
  "Scal beta X s =
     note_call (Scal_call beta X)
       (s\<lparr> mem := (mem s)(Buf X := \<lambda>i j.
             if inWindow X i j then beta * mem s (Buf X) i j else mem s (Buf X) i j) \<rparr>)"

text \<open>Modelled from the spec: the entry \<open>(i, j)\<close> of \<open>op(M)\<close> for the three orientations of
  the general multiply, and the dimension the multiply contracts.\<close>

fun oriented :: "Orientation \<Rightarrow> herk_state \<Rightarrow> DistMatrix \<Rightarrow> nat \<Rightarrow> nat \<Rightarrow> complex" where
  "oriented Normal s M i j = Get s M i j"
| "oriented Transpose s M i j = Get s M j i"
| "oriented ConjugateTranspose s M i j = cnj (Get s M j i)"

fun innerDim :: "Orientation \<Rightarrow> DistMatrix \<Rightarrow> nat" where
  "innerDim Normal M = Width M"
| "innerDim Transpose M = Height M"
| "innerDim ConjugateTranspose M = Height M"

text \<open>Modelled from the spec: the local general multiply
  \<open>C := alpha op(A) op(B) + beta C\<close> on the local matrices of aligned operands, by its
  effect on the global entries of \<open>C\<close>.\<close>

definition Gemm ::
  "Orientation \<Rightarrow> Orientation \<Rightarrow> complex \<Rightarrow> DistMatrix \<Rightarrow> DistMatrix \<Rightarrow> complex \<Rightarrow>
   DistMatrix \<Rightarrow> herk_state \<Rightarrow> herk_state" where
  "Gemm oA oB alpha A B beta C s =
     note_call (Gemm_call oA oB alpha A B beta C)
       (s\<lparr> mem := (mem s)(Buf C := \<lambda>i j.
             if inWindow C i j
             then beta * mem s (Buf C) i j +
                  alpha * (\<Sum>t<innerDim oA A.
                     oriented oA s A (i - RowOffset C) t * oriented oB s B t (j - ColOffset C))
             else mem s (Buf C) i j) \<rparr>)"

text \<open>Modelled from the spec: masking to a triangle zeroes the complementary triangle.
  The diagonal starts at the top-left corner for \<open>Left\<close> and ends at the bottom-right
  corner for \<open>Right\<close>.\<close>

fun keptByTrapezoid :: "Side \<Rightarrow> Shape \<Rightarrow> nat \<Rightarrow> nat \<Rightarrow> nat \<Rightarrow> nat \<Rightarrow> bool" where
  "keptByTrapezoid Left Upper h w i j = (i \<le> j)"
| "keptByTrapezoid Left Lower h w i j = (j \<le> i)"
| "keptByTrapezoid Right Upper h w i j = (int i - int h \<le> int j - int w)"
| "keptByTrapezoid Right Lower h w i j = (int j - int w \<le> int i - int h)"

definition MakeTrapezoidal :: "Side \<Rightarrow> Shape \<Rightarrow> DistMatrix \<Rightarrow> herk_state \<Rightarrow> herk_state" where
  "MakeTrapezoidal side shape X s =
     note_call (MakeTrapezoidal_call side shape X)
       (s\<lparr> mem := (mem s)(Buf X := \<lambda>i j.
             if inWindow X i j \<and>
                \<not> keptByTrapezoid side shape (Height X) (Width X)
                    (i - RowOffset X) (j - ColOffset X)
             then 0 else mem s (Buf X) i j) \<rparr>)"

text \<open>Modelled from the spec: \<open>Axpy\<close> accumulates \<open>Y := alpha X + Y\<close>.\<close>

definition Axpy :: "complex \<Rightarrow> DistMatrix \<Rightarrow> DistMatrix \<Rightarrow> herk_state \<Rightarrow> herk_state" where
  "Axpy alpha X Y s =
     note_call (Axpy_call alpha X Y)
       (s\<lparr> mem := (mem s)(Buf Y := \<lambda>i j.
             if inWindow Y i j
             then alpha * Get s X (i - RowOffset Y) (j - ColOffset Y) + mem s (Buf Y) i j
             else mem s (Buf Y) i j) \<rparr>)"

section \<open>The Hermitian rank-k update, upper triangle, normal orientation\<close>

text \<open>The entry checks of the update and of its kernel are compiled only when
  \<open>RELEASE\<close> is not defined; the flag \<open>release\<close> of the model is that build option.\<close>

definition HerkUNUpdate_checks ::
  "bool \<Rightarrow> DistMatrix \<Rightarrow> DistMatrix \<Rightarrow> DistMatrix \<Rightarrow> exn option" where
  "HerkUNUpdate_checks release A_MC_Star A_MR_Star C =
     (let grid = GetGrid C in
      if release then None
      else if GetGrid A_MC_Star \<noteq> GetGrid A_MR_Star \<or> GetGrid A_MR_Star \<noteq> GetGrid C
      then Some (Exception (if VCRank grid = 0 then [SameGridMsg] else []))
      else if Height A_MC_Star \<noteq> Height C \<or> Height A_MR_Star \<noteq> Width C \<or>
              Height A_MC_Star \<noteq> Height A_MR_Star \<or> Width A_MC_Star \<noteq> Width A_MR_Star
      then Some (Exception (if VCRank grid = 0
             then [NonconformalHerkUNUpdate (Height A_MC_Star) (Width A_MC_Star)
                     (Height A_MR_Star) (Width A_MR_Star) (Height C) (Width C)]
             else []))
      else if ColAlignment A_MC_Star \<noteq> ColAlignment C \<or>
              ColAlignment A_MR_Star \<noteq> RowAlignment C
      then Some (Exception (if VCRank grid = 0
             then [MisalignedHerkUNUpdate (ColAlignment A_MC_Star) (ColAlignment A_MR_Star)
                     (ColAlignment C) (RowAlignment C)]
             else []))
      else None)"

definition HerkUNUpdateKernel ::
  "bool \<Rightarrow> complex \<Rightarrow> DistMatrix \<Rightarrow> DistMatrix \<Rightarrow> complex \<Rightarrow> DistMatrix \<Rightarrow>
   herk_state \<Rightarrow> exn + herk_state" where
  "HerkUNUpdateKernel release alpha A_MC_Star A_MR_Star beta C s =
     (case HerkUNUpdate_checks release A_MC_Star A_MR_Star C of
        Some e \<Rightarrow> Inl e
      | None \<Rightarrow>
          (let grid = GetGrid C;
               half = Height C div 2;
               s = Scal beta C s;
               (AT_MC_Star, AB_MC_Star) = LockedPartitionDown A_MC_Star half;
               (AT_MR_Star, AB_MR_Star) = LockedPartitionDown A_MR_Star half;
               (CTL, CTR, CBL, CBR) = PartitionDownDiagonal C half;
               DTL = newDistMatrix grid MC MR BufDTL;
               DBR = newDistMatrix grid MC MR BufDBR;
               DTL = AlignWith DTL CTL;
               DBR = AlignWith DBR CBR;
               DTL = ResizeTo DTL (Height CTL) (Width CTL);
               DBR = ResizeTo DBR (Height CBR) (Width CBR);
               s = Gemm Normal ConjugateTranspose alpha AT_MC_Star AB_MR_Star 1 CTR s;
               s = Gemm Normal ConjugateTranspose alpha AT_MC_Star AT_MR_Star 0 DTL s;
               s = MakeTrapezoidal Left Upper DTL s;
               s = Axpy 1 DTL CTL s;
               s = Gemm Normal ConjugateTranspose alpha AB_MC_Star AB_MR_Star 0 DBR s;
               s = MakeTrapezoidal Left Upper DBR s;
               s = Axpy 1 DBR CBR s
           in Inr s))"

text \<open>The recursion of the update is on the height of \<open>C\<close>, halved at every level. The
  threshold of the base case is the product \<open>2*grid.Width()*Blocksize()\<close>, computed from left
  to right in \<open>int\<close>. With a block size or a grid width of zero, or with a product that
  wraps around to a value that is not positive, no height is below the threshold and the
  recursion never reaches the base case, so the update is a partial function: \<open>None\<close> is
  "does not return".\<close>

partial_function (option) HerkUNUpdate ::
  "bool \<Rightarrow> nat \<Rightarrow> complex \<Rightarrow> DistMatrix \<Rightarrow> DistMatrix \<Rightarrow> complex \<Rightarrow> DistMatrix \<Rightarrow>
   herk_state \<Rightarrow> (exn + herk_state) option" where
  "HerkUNUpdate release Blocksize alpha A_MC_Star A_MR_Star beta C s =
     (case HerkUNUpdate_checks release A_MC_Star A_MR_Star C of
        Some e \<Rightarrow> Some (Inl e)
      | None \<Rightarrow>
          if int (Height C) < int32 (int32 (2 * int (gridWidth (GetGrid C))) * int Blocksize)
          then Some (HerkUNUpdateKernel release alpha A_MC_Star A_MR_Star beta C s)
          else
            (let half = Height C div 2;
                 (AT_MC_Star, AB_MC_Star) = LockedPartitionDown A_MC_Star half;
                 (AT_MR_Star, AB_MR_Star) = LockedPartitionDown A_MR_Star half;
                 (CTL, CTR, CBL, CBR) = PartitionDownDiagonal C half;
                 s = Gemm Normal ConjugateTranspose alpha AT_MC_Star AB_MR_Star beta CTR s
             in Option.bind
                  (HerkUNUpdate release Blocksize alpha AT_MC_Star AT_MR_Star beta CTL s)
                  (\<lambda>r. case r of
                     Inl e \<Rightarrow> Some (Inl e)
                   | Inr s \<Rightarrow>
                       HerkUNUpdate release Blocksize alpha AB_MC_Star AB_MR_Star beta CBR s)))"

definition HerkUN_checks :: "bool \<Rightarrow> DistMatrix \<Rightarrow> DistMatrix \<Rightarrow> exn option" where
  "HerkUN_checks release A C =
     (let grid = GetGrid A in
      if release then None
      else if GetGrid A \<noteq> GetGrid C
      then Some (Exception (if VCRank grid = 0 then [SameGridMsg] else []))
      else if Height A \<noteq> Height C \<or> Height A \<noteq> Width C
      then Some (Exception (if VCRank grid = 0
             then [NonconformalHerkUN (Height A) (Width A) (Height C) (Width C)]
             else []))
      else None)"

text \<open>The panel loop of \<open>HerkUN\<close>: \<open>AL\<close> holds the columns already used and \<open>AR\<close> those
  still to come. With a block size of zero the panel \<open>A1\<close> is empty and \<open>AR\<close> never
  shrinks, so the loop too is a partial function. The two panel matrices live across the
  iterations; each iteration aligns them with \<open>C\<close> again, so the release of their alignment
  constraints at the end of an iteration changes nothing that the model keeps. The
  call-stack bookkeeping of the debug build is left out throughout.\<close>

partial_function (option) HerkUN_loop ::
  "bool \<Rightarrow> nat \<Rightarrow> complex \<Rightarrow> DistMatrix \<Rightarrow> DistMatrix \<Rightarrow> DistMatrix \<Rightarrow> DistMatrix \<Rightarrow>
   DistMatrix \<Rightarrow> herk_state \<Rightarrow> (exn + herk_state) option" where
  "HerkUN_loop release Blocksize alpha C A1_MC_Star A1_MR_Star AL AR s =
     (if Width AR > 0
      then
        (let (A0, A1, A2) = LockedRepartitionRight Blocksize AL AR;
             A1_MC_Star = AlignWith A1_MC_Star C;
             A1_MR_Star = AlignWith A1_MR_Star C;
             (A1_MC_Star, s) = Redistribute A1_MC_Star A1 s;
             (A1_MR_Star, s) = Redistribute A1_MR_Star A1_MC_Star s
         in Option.bind
              (HerkUNUpdate release Blocksize alpha A1_MC_Star A1_MR_Star 1 C s)
              (\<lambda>r. case r of
                 Inl e \<Rightarrow> Some (Inl e)
               | Inr s \<Rightarrow>
                   (let (AL, AR) = SlideLockedPartitionRight A0 A1 A2
                    in HerkUN_loop release Blocksize alpha C A1_MC_Star A1_MR_Star AL AR s)))
      else Some (Inr s))"

definition HerkUN ::
  "bool \<Rightarrow> nat \<Rightarrow> complex \<Rightarrow> DistMatrix \<Rightarrow> complex \<Rightarrow> DistMatrix \<Rightarrow> herk_state \<Rightarrow>
   (exn + herk_state) option" where
  "HerkUN release Blocksize alpha A beta C s =
     (case HerkUN_checks release A C of
        Some e \<Rightarrow> Some (Inl e)
      | None \<Rightarrow>
          (let grid = GetGrid A;
               A1_MC_Star = newDistMatrix grid MC Star BufA1_MC_Star;
               A1_MR_Star = newDistMatrix grid MR Star BufA1_MR_Star;
               s = Scal beta C s;
               (AL, AR) = LockedPartitionRight A
           in HerkUN_loop release Blocksize alpha C A1_MC_Star A1_MR_Star AL AR s))"

subsection \<open>Notions used to state the properties of the update\<close>

text \<open>The operands of the recursive update as \<open>HerkUN\<close> supplies them: the panel in its
  two one-dimensional layouts, of the shape and alignment of the square block \<open>C\<close>, each in
  its own buffer. The distributions are the template arguments of the source; the three
  operands have three different distributions, and a view has the distribution of the
  matrix it is cut from, so no two of them are views of one matrix.\<close>

definition herk_operands :: "DistMatrix \<Rightarrow> DistMatrix \<Rightarrow> DistMatrix \<Rightarrow> bool" where
  "herk_operands A B C \<longleftrightarrow>
     GetGrid A = GetGrid C \<and> GetGrid B = GetGrid C \<and>
     ColDist A = MC \<and> ColDist B = MR \<and> ColDist C = MC \<and> RowDist C = MR \<and>
     Height A = Height C \<and> Height B = Height C \<and> Width C = Height C \<and>
     Width A = Width B \<and>
     ColAlignment A = ColAlignment C \<and> ColAlignment B = RowAlignment C \<and>
     Buf A = BufA1_MC_Star \<and> Buf B = BufA1_MR_Star \<and> Buf C = BufC"

text \<open>The temporary of the kernel that is aligned with, and sized as, a quadrant.\<close>

definition tempOn :: "Grid \<Rightarrow> buffer_name \<Rightarrow> DistMatrix \<Rightarrow> DistMatrix" where
  "tempOn g b V = ResizeTo (AlignWith (newDistMatrix g MC MR b) V) (Height V) (Width V)"

text \<open>Entry \<open>(i, j)\<close> of the product of \<open>A\<close> with the conjugate transpose of \<open>B\<close>.\<close>

definition rankK :: "herk_state \<Rightarrow> DistMatrix \<Rightarrow> DistMatrix \<Rightarrow> nat \<Rightarrow> nat \<Rightarrow> complex" where
  "rankK s A B i j = (\<Sum>t<Width A. Get s A i t * cnj (Get s B j t))"

text \<open>What the base-case kernel leaves at position \<open>(i, j)\<close> of the buffer of \<open>C\<close>.\<close>

definition kernel_entry ::
  "complex \<Rightarrow> DistMatrix \<Rightarrow> DistMatrix \<Rightarrow> complex \<Rightarrow> DistMatrix \<Rightarrow> herk_state \<Rightarrow>
   nat \<Rightarrow> nat \<Rightarrow> complex" where
  "kernel_entry alpha A B beta C s i j =
     (if inWindow C i j
      then beta * mem s BufC i j +
           (if i - RowOffset C \<le> j - ColOffset C
            then alpha * rankK s A B (i - RowOffset C) (j - ColOffset C)
            else 0)
      else mem s BufC i j)"

text \<open>The factor a call applies to the entries of the caller's matrix \<open>C\<close> that it
  writes, if it writes any.\<close>

fun scale_applied :: "blas_call \<Rightarrow> complex option" where
  "scale_applied (Scal_call t X) = (if Buf X = BufC then Some t else None)"
| "scale_applied (Gemm_call oA oB alpha A B beta X) = (if Buf X = BufC then Some beta else None)"
| "scale_applied (MakeTrapezoidal_call side shape X) = (if Buf X = BufC then Some 0 else None)"
| "scale_applied (Axpy_call alpha X Y) = (if Buf Y = BufC then Some 1 else None)"
| "scale_applied (Redistribute_call B A) = (if Buf B = BufC then Some 0 else None)"

text \<open>The effect of the recursive update on the memory: the upper triangle of the block
  receives the scaled old value plus the product, a strictly lower entry of the block is
  either scaled or left alone, everything else in the buffer of \<open>C\<close> and the buffers of the
  panel and of the caller's \<open>A\<close> are untouched, and every call made applies to \<open>C\<close> the
  factor \<open>beta\<close> or one.\<close>

definition update_post ::
  "complex \<Rightarrow> DistMatrix \<Rightarrow> DistMatrix \<Rightarrow> complex \<Rightarrow> DistMatrix \<Rightarrow>
   herk_state \<Rightarrow> herk_state \<Rightarrow> bool" where
  "update_post alpha A B beta C s s' \<longleftrightarrow>
     (\<forall>i j. inWindow C i j \<longrightarrow> i - RowOffset C \<le> j - ColOffset C \<longrightarrow>
        mem s' BufC i j =
          beta * mem s BufC i j + alpha * rankK s A B (i - RowOffset C) (j - ColOffset C)) \<and>
     (\<forall>i j. inWindow C i j \<longrightarrow> \<not> i - RowOffset C \<le> j - ColOffset C \<longrightarrow>
        mem s' BufC i j = beta * mem s BufC i j \<or> mem s' BufC i j = mem s BufC i j) \<and>
     (\<forall>i j. \<not> inWindow C i j \<longrightarrow> mem s' BufC i j = mem s BufC i j) \<and>
     mem s' BufA = mem s BufA \<and>
     mem s' BufA1_MC_Star = mem s BufA1_MC_Star \<and>
     mem s' BufA1_MR_Star = mem s BufA1_MR_Star \<and>
     (\<exists>new. calls s' = calls s @ new \<and>
        (\<forall>c\<in>set new. scale_applied c \<in> {None, Some beta, Some 1}))"



text \<open>The panel loop in the words of the specification: the contribution of a panel,
  \<open>alpha\<close> times the panel times its conjugate transpose, is accumulated into the upper
  triangle of \<open>C\<close> with the inner factor \<open>gamma\<close> on what \<open>C\<close> holds; nothing else is
  written. The panels are the columns \<open>k\<close> to \<open>k + w\<close> of \<open>A\<close>, for \<open>k\<close> a multiple of the
  block size and \<open>w\<close> the block size or what is left, each read when its turn comes, and
  each accumulated with the inner factor one.\<close>

definition spec_add_panel ::
  "complex \<Rightarrow> DistMatrix \<Rightarrow> complex \<Rightarrow> DistMatrix \<Rightarrow> herk_state \<Rightarrow> herk_state" where
  "spec_add_panel alpha A1 gamma C s =
     s\<lparr> mem := (mem s)(Buf C := \<lambda>i j.
          if inWindow C i j \<and> i - RowOffset C \<le> j - ColOffset C
          then gamma * mem s (Buf C) i j +
               alpha * rankK s A1 A1 (i - RowOffset C) (j - ColOffset C)
          else mem s (Buf C) i j) \<rparr>"

function spec_panel_loop ::
  "nat \<Rightarrow> complex \<Rightarrow> DistMatrix \<Rightarrow> DistMatrix \<Rightarrow> nat \<Rightarrow> herk_state \<Rightarrow> herk_state" where
  "spec_panel_loop Blocksize alpha A C k s =
     (if Width A \<le> k \<or> Blocksize = 0 then s
      else
        (let w = min Blocksize (Width A - k)
         in spec_panel_loop Blocksize alpha A C (k + w)
              (spec_add_panel alpha (View A 0 k (Height A) w) 1 C s)))"
  by pat_completeness auto

termination
  by (relation "measure (\<lambda>(Blocksize, alpha, A, C, k, s). Width A - k)") auto

declare spec_panel_loop.simps [simp del]


text \<open>The calls of the base-case kernel, in order, with the views and the temporaries
  they are made on.\<close>

definition kernel_calls ::
  "complex \<Rightarrow> DistMatrix \<Rightarrow> DistMatrix \<Rightarrow> complex \<Rightarrow> DistMatrix \<Rightarrow> blas_call list" where
  "kernel_calls alpha A_MC_Star A_MR_Star beta C =
     (let half = Height C div 2;
          AT_MC_Star = View A_MC_Star 0 0 half (Width A_MC_Star);
          AB_MC_Star = View A_MC_Star half 0 (Height A_MC_Star - half) (Width A_MC_Star);
          AT_MR_Star = View A_MR_Star 0 0 half (Width A_MR_Star);
          AB_MR_Star = View A_MR_Star half 0 (Height A_MR_Star - half) (Width A_MR_Star);
          CTL = View C 0 0 half half;
          CTR = View C 0 half half (Width C - half);
          CBR = View C half half (Height C - half) (Width C - half);
          DTL = tempOn (GetGrid C) BufDTL CTL;
          DBR = tempOn (GetGrid C) BufDBR CBR
      in [Scal_call beta C,
          Gemm_call Normal ConjugateTranspose alpha AT_MC_Star AB_MR_Star 1 CTR,
          Gemm_call Normal ConjugateTranspose alpha AT_MC_Star AT_MR_Star 0 DTL,
          MakeTrapezoidal_call Left Upper DTL,
          Axpy_call 1 DTL CTL,
          Gemm_call Normal ConjugateTranspose alpha AB_MC_Star AB_MR_Star 0 DBR,
          MakeTrapezoidal_call Left Upper DBR,
          Axpy_call 1 DBR CBR])"

subsection \<open>The base case in the words of the specification\<close>



subsection \<open>Concrete operands\<close>

text \<open>The scenario of the specification: a two by two grid, a six by four matrix \<open>A\<close>
  with entries \<open>i + j\<close>, a six by six matrix \<open>C\<close>, block size two.\<close>

definition grid2x2 :: Grid where
  "grid2x2 = \<lparr> gridId = 0, gridHeight = 2, gridWidth = 2, VCRank = 0 \<rparr>"

definition scenario_A :: DistMatrix where
  "scenario_A = (newDistMatrix grid2x2 MC MR BufA)\<lparr> Height := 6, Width := 4 \<rparr>"

definition scenario_C :: DistMatrix where
  "scenario_C = (newDistMatrix grid2x2 MC MR BufC)\<lparr> Height := 6, Width := 6 \<rparr>"

definition scenario_mem :: herk_state where
  "scenario_mem =
     \<lparr> mem = (\<lambda>b i j. if b = BufA then of_nat (i + j)
                      else if b = BufC then of_nat (10 * i + j) else 0),
       calls = [] \<rparr>"

text \<open>A matrix with one row and no column, and a second grid.\<close>

definition thin_A :: DistMatrix where
  "thin_A = (newDistMatrix grid2x2 MC MR BufA)\<lparr> Height := 1, Width := 0 \<rparr>"

definition other_grid :: Grid where
  "other_grid = \<lparr> gridId = 1, gridHeight = 2, gridWidth = 2, VCRank = 0 \<rparr>"

definition foreign_A :: DistMatrix where
  "foreign_A = (newDistMatrix other_grid MC MR BufA)\<lparr> Height := 1, Width := 0 \<rparr>"

text \<open>A panel of one column in its two layouts and a two by two block on a grid of one
  process; every buffer other than that of \<open>C\<close> holds \<open>i + 1\<close> in row \<open>i\<close>, the
  temporaries included.\<close>

definition grid1x1 :: Grid where
  "grid1x1 = \<lparr> gridId = 0, gridHeight = 1, gridWidth = 1, VCRank = 0 \<rparr>"

definition small_A_MC_Star :: DistMatrix where
  "small_A_MC_Star = (newDistMatrix grid1x1 MC Star BufA1_MC_Star)\<lparr> Height := 2, Width := 1 \<rparr>"

definition small_A_MR_Star :: DistMatrix where
  "small_A_MR_Star = (newDistMatrix grid1x1 MR Star BufA1_MR_Star)\<lparr> Height := 2, Width := 1 \<rparr>"

definition small_C :: DistMatrix where
  "small_C = (newDistMatrix grid1x1 MC MR BufC)\<lparr> Height := 2, Width := 2 \<rparr>"

definition small_mem :: herk_state where
  "small_mem =
     \<lparr> mem = (\<lambda>b i j. if b = BufC then of_nat (10 * i + j) else of_nat (i + 1)),
       calls = [] \<rparr>"



section \<open>The iteration control of the interior-point routine\<close>

text \<open>
  The four overloads of \<open>IPF\<close> (dense, distributed, sparse and distributed sparse) share one
  loop: a counter \<open>numIts\<close> from zero to \<open>ctrl.maxIts\<close> inclusive, a cone check, the
  relative error, two exits on the tolerances, the solve and the line search. The numerical
  routines the loop calls are not among the sources, so the model takes them as parameters,
  acting on the iterate \<open>(x, y, z, s)\<close> as a whole. Tolerances and errors are real numbers.
\<close>

record IPFCtrl =
  maxIts :: int
  targetTol :: real
  minTol :: real

record ('st, 'dir) IPF_numerics =
  NumNonPositive_s :: "'st \<Rightarrow> int"
  NumNonPositive_z :: "'st \<Rightarrow> int"
  relErrorAt :: "'st \<Rightarrow> real"
  solveDirection :: "'st \<Rightarrow> 'dir option"
  IPFLineSearch :: "'st \<Rightarrow> 'dir \<Rightarrow> real"
  takeStep :: "real \<Rightarrow> 'dir \<Rightarrow> 'st \<Rightarrow> 'st"
  unequilibrate :: "'st \<Rightarrow> 'st"

datatype IPF_error =
    LogicError_cone int int
  | RuntimeError_maxIts int real
  | RuntimeError_minTol real

text \<open>The loop. Beside the outcome it returns the iterations it entered, each with its
  counter and the iterate at its start, in order. \<open>solveDirection\<close> is \<open>None\<close> when the
  solver throws.\<close>

function IPF_loop ::
  "('st, 'dir) IPF_numerics \<Rightarrow> IPFCtrl \<Rightarrow> int \<Rightarrow> 'st \<Rightarrow> (int \<times> 'st) list \<Rightarrow>
   (IPF_error + 'st) \<times> (int \<times> 'st) list" where
  "IPF_loop N ctrl numIts st entered =
     (if numIts \<le> maxIts ctrl
      then
        (let entered = entered @ [(numIts, st)];
             sNumNonPos = NumNonPositive_s N st;
             zNumNonPos = NumNonPositive_z N st
         in if sNumNonPos > 0 \<or> zNumNonPos > 0
            then (Inl (LogicError_cone sNumNonPos zNumNonPos), entered)
            else
              (let relError = relErrorAt N st
               in if relError \<le> targetTol ctrl then (Inr st, entered)
                  else if numIts = maxIts ctrl \<and> relError > minTol ctrl
                  then (Inl (RuntimeError_maxIts (maxIts ctrl) (minTol ctrl)), entered)
                  else
                    (case solveDirection N st of
                       None \<Rightarrow>
                         if relError \<le> minTol ctrl then (Inr st, entered)
                         else (Inl (RuntimeError_minTol (minTol ctrl)), entered)
                     | Some d \<Rightarrow>
                         (let alpha = IPFLineSearch N st d;
                              st = takeStep N alpha d st
                          in if alpha = 0
                             then if relError \<le> minTol ctrl then (Inr st, entered)
                                  else (Inl (RuntimeError_minTol (minTol ctrl)), entered)
                             else IPF_loop N ctrl (numIts + 1) st entered))))
      else (Inr st, entered))"
  by pat_completeness auto
termination
  by (relation "measure (\<lambda>(N, ctrl, numIts, st, entered). nat (maxIts ctrl + 1 - numIts))") auto

declare IPF_loop.simps [simp del]

text \<open>The routine from the initial iterate on: the loop, then the return to the original
  scaling when the loop ends without an error.\<close>

definition IPF ::
  "('st, 'dir) IPF_numerics \<Rightarrow> IPFCtrl \<Rightarrow> 'st \<Rightarrow> (IPF_error + 'st) \<times> (int \<times> 'st) list" where
  "IPF N ctrl st =
     (case IPF_loop N ctrl 0 st [] of
        (Inl e, entered) \<Rightarrow> (Inl e, entered)
      | (Inr st', entered) \<Rightarrow> (Inr (unequilibrate N st'), entered))"

text \<open>The iterate passes the cone check.\<close>

definition inCone :: "('st, 'dir) IPF_numerics \<Rightarrow> 'st \<Rightarrow> bool" where
  "inCone N st \<longleftrightarrow> \<not> (NumNonPositive_s N st > 0 \<or> NumNonPositive_z N st > 0)"

text \<open>Numerical routines for an example: the iterate is a number that is its own relative
  error and is halved by every step; the cone check always passes and the solver never
  fails.\<close>

definition halving :: "(real, unit) IPF_numerics" where
  "halving =
     \<lparr> NumNonPositive_s = (\<lambda>st. 0), NumNonPositive_z = (\<lambda>st. 0),
       relErrorAt = (\<lambda>st. st), solveDirection = (\<lambda>st. Some ()),
       IPFLineSearch = (\<lambda>st d. 1), takeStep = (\<lambda>alpha d st. st / 2),
       unequilibrate = (\<lambda>st. st) \<rparr>"

text \<open>One pass through the body of the loop: either the loop is left with an outcome, or
  the next iterate is produced.\<close>

definition IPF_iteration ::
  "('st, 'dir) IPF_numerics \<Rightarrow> IPFCtrl \<Rightarrow> int \<Rightarrow> 'st \<Rightarrow> (IPF_error + 'st) + 'st" where
  "IPF_iteration N ctrl numIts st =
     (let sNumNonPos = NumNonPositive_s N st;
          zNumNonPos = NumNonPositive_z N st
      in if sNumNonPos > 0 \<or> zNumNonPos > 0
         then Inl (Inl (LogicError_cone sNumNonPos zNumNonPos))
         else
           (let relError = relErrorAt N st
            in if relError \<le> targetTol ctrl then Inl (Inr st)
               else if numIts = maxIts ctrl \<and> relError > minTol ctrl
               then Inl (Inl (RuntimeError_maxIts (maxIts ctrl) (minTol ctrl)))
               else
                 (case solveDirection N st of
                    None \<Rightarrow>
                      if relError \<le> minTol ctrl then Inl (Inr st)
                      else Inl (Inl (RuntimeError_minTol (minTol ctrl)))
                  | Some d \<Rightarrow>
                      (let alpha = IPFLineSearch N st d;
                           st = takeStep N alpha d st
                       in if alpha = 0
                          then if relError \<le> minTol ctrl then Inl (Inr st)
                               else Inl (Inl (RuntimeError_minTol (minTol ctrl)))
                          else Inr st))))"

text \<open>Controls for the examples.\<close>

definition inverted_ctrl :: IPFCtrl where
  "inverted_ctrl = \<lparr> maxIts = 0, targetTol = 1, minTol = 0 \<rparr>"

definition strict_ctrl :: IPFCtrl where
  "strict_ctrl = \<lparr> maxIts = 2, targetTol = 1 / 16, minTol = 1 / 8 \<rparr>"

definition easy_ctrl :: IPFCtrl where
  "easy_ctrl = \<lparr> maxIts = 2, targetTol = 1 / 2, minTol = 1 \<rparr>"

text \<open>Numerical routines whose cone check always fails.\<close>

definition outOfCone :: "(real, unit) IPF_numerics" where
  "outOfCone = halving\<lparr> NumNonPositive_s := (\<lambda>st. 1) \<rparr>"

definition single_ctrl :: IPFCtrl where
  "single_ctrl = \<lparr> maxIts = 0, targetTol = 1 / 16, minTol = 1 / 8 \<rparr>"

section \<open>The C wrappers of the Cauchy-like matrix\<close>

text \<open>
  The wrappers copy each input buffer into a vector of the given size and call the library,
  all inside \<open>try\<close>; an exception thrown there is caught by the handlers of \<open>EL_CATCH\<close>,
  which return an error code, and otherwise the wrapper returns \<open>EL_SUCCESS\<close>. The matrix
  is passed by handle; the model returns the code together with the matrix as the call
  leaves it. A buffer is a function from positions to values. A size is an \<open>ElInt\<close>, a
  signed integer.
\<close>

text \<open>Modelled from the spec: the error codes of the C interface (its header is not among
  the sources).\<close>

datatype ElError =
    EL_SUCCESS | EL_ALLOC_ERROR | EL_OUT_OF_BOUNDS_ERROR | EL_ARG_ERROR
  | EL_LOGIC_ERROR | EL_RUNTIME_ERROR | EL_ERROR

text \<open>The classes of exception the handlers tell apart.\<close>

datatype cpp_exception =
    std_bad_alloc | El_ArgException | std_length_error | std_logic_error
  | std_runtime_error | std_exception

text \<open>Modelled from the spec: the construction \<open>std::vector<T> v(buf, buf+n)\<close> of a vector
  from the first \<open>n\<close> values of a buffer (the standard library is not among the sources). A
  negative \<open>n\<close> is, as a length, above the largest a vector can have, and the constructor
  throws \<open>length_error\<close>; a length above \<open>capacity\<close>, the most the allocator serves, makes
  it throw \<open>bad_alloc\<close>; otherwise the vector holds the \<open>n\<close> values.\<close>

definition vectorFrom :: "nat \<Rightarrow> (nat \<Rightarrow> 't) \<Rightarrow> int \<Rightarrow> cpp_exception + 't list" where
  "vectorFrom capacity buf n =
     (if n < 0 then Inl std_length_error
      else if capacity < nat n then Inl std_bad_alloc
      else Inr (map buf [0..<nat n]))"

text \<open>The handlers of \<open>EL_CATCH\<close> are a macro of the header of the C interface, which is
  not among the sources, and the library routine \<open>CauchyLike\<close> is not among them either:
  both are parameters. \<open>EL_CATCH\<close> gives the code returned for an exception; \<open>CauchyLike\<close>
  returns the exception it throws, if any, and the matrix as it leaves it.\<close>

definition ElCauchyLike ::
  "(cpp_exception \<Rightarrow> ElError) \<Rightarrow> nat \<Rightarrow>
   'm \<Rightarrow> int \<Rightarrow> (nat \<Rightarrow> 't) \<Rightarrow> int \<Rightarrow> (nat \<Rightarrow> 't) \<Rightarrow> int \<Rightarrow> (nat \<Rightarrow> 't) \<Rightarrow>
   int \<Rightarrow> (nat \<Rightarrow> 't) \<Rightarrow> ElError \<times> 'm" where
  "ElCauchyLike EL_CATCH capacity A rSize rBuf sSize sBuf xSize xBuf ySize yBuf =
     (case vectorFrom capacity rBuf rSize of
        Inl e \<Rightarrow> (EL_CATCH e, A)
      | Inr r \<Rightarrow>
     (case vectorFrom capacity sBuf sSize of
        Inl e \<Rightarrow> (EL_CATCH e, A)
      | Inr s \<Rightarrow>
     (case vectorFrom capacity xBuf xSize of
        Inl e \<Rightarrow> (EL_CATCH e, A)
      | Inr x \<Rightarrow>
     (case vectorFrom capacity yBuf ySize of
        Inl e \<Rightarrow> (EL_CATCH e, A)
      | Inr y \<Rightarrow> (EL_SUCCESS, A)))))"

definition ElCauchyLikeDist ::
  "('m \<Rightarrow> 't list \<Rightarrow> 't list \<Rightarrow> 't list \<Rightarrow> 't list \<Rightarrow> cpp_exception option \<times> 'm) \<Rightarrow>
   (cpp_exception \<Rightarrow> ElError) \<Rightarrow> nat \<Rightarrow>
   'm \<Rightarrow> int \<Rightarrow> (nat \<Rightarrow> 't) \<Rightarrow> int \<Rightarrow> (nat \<Rightarrow> 't) \<Rightarrow> int \<Rightarrow> (nat \<Rightarrow> 't) \<Rightarrow>
   int \<Rightarrow> (nat \<Rightarrow> 't) \<Rightarrow> ElError \<times> 'm" where
  "ElCauchyLikeDist CauchyLike EL_CATCH capacity A rSize rBuf sSize sBuf xSize xBuf ySize yBuf =
     (case vectorFrom capacity rBuf rSize of
        Inl e \<Rightarrow> (EL_CATCH e, A)
      | Inr r \<Rightarrow>
     (case vectorFrom capacity sBuf sSize of
        Inl e \<Rightarrow> (EL_CATCH e, A)
      | Inr s \<Rightarrow>
     (case vectorFrom capacity xBuf xSize of
        Inl e \<Rightarrow> (EL_CATCH e, A)
      | Inr x \<Rightarrow>
     (case vectorFrom capacity yBuf ySize of
        Inl e \<Rightarrow> (EL_CATCH e, A)
      | Inr y \<Rightarrow>
     (case CauchyLike A r s x y of
        (Some e, A') \<Rightarrow> (EL_CATCH e, A')
      | (None, A') \<Rightarrow> (EL_SUCCESS, A'))))))"

text \<open>The sizes for which the construction of a vector succeeds.\<close>

definition constructible :: "nat \<Rightarrow> int \<Rightarrow> bool" where
  "constructible capacity n \<longleftrightarrow> 0 \<le> n \<and> nat n \<le> capacity"

text \<open>For an example, a routine that fills a matrix, held as a list of rows, with the
  entries \<open>r\<^sub>i s\<^sub>j / (x\<^sub>i - y\<^sub>j)\<close> and never throws, and handlers that return for each
  class of exception the error code named after it, a \<open>length_error\<close> being a
  \<open>logic_error\<close>.\<close>

definition fillCauchyLike ::
  "real list list \<Rightarrow> real list \<Rightarrow> real list \<Rightarrow> real list \<Rightarrow> real list \<Rightarrow>
   cpp_exception option \<times> real list list" where
  "fillCauchyLike A r s x y =
     (None, map (\<lambda>i. map (\<lambda>j. r ! i * s ! j / (x ! i - y ! j)) [0..<length s]) [0..<length r])"

fun code_of_class :: "cpp_exception \<Rightarrow> ElError" where
  "code_of_class std_bad_alloc = EL_ALLOC_ERROR"
| "code_of_class El_ArgException = EL_ARG_ERROR"
| "code_of_class std_length_error = EL_LOGIC_ERROR"
| "code_of_class std_logic_error = EL_LOGIC_ERROR"
| "code_of_class std_runtime_error = EL_RUNTIME_ERROR"
| "code_of_class std_exception = EL_ERROR"

section \<open>The partial column filter of the adjoint\<close>

text \<open>
  Both overloads of \<open>adjoint::PartialColFilter\<close> (element-wise and block distributions) have
  the same body: a call of \<open>transpose::PartialColFilter\<close>, which is not among the sources
  and is a parameter, with the conjugation flag set. The output matrix \<open>B\<close> is passed by
  reference; the model returns its new contents.
\<close>

definition adjoint_PartialColFilter ::
  "('a \<Rightarrow> 'b \<Rightarrow> bool \<Rightarrow> 'b) \<Rightarrow> 'a \<Rightarrow> 'b \<Rightarrow> bool \<Rightarrow> 'b" where
  "adjoint_PartialColFilter transpose_PartialColFilter A B conjugate =
     transpose_PartialColFilter A B True"

section \<open>Distribution descriptors, local storage and redistribution\<close>

text \<open>
  The grid, the distributed matrix and its assignment operators are not among the sources;
  \<open>HerkUN\<close> only calls them, to bring a panel from the two-dimensional layout into the two
  one-dimensional layouts. This section models them from the specification, one level below
  the model of the update above: here every process has its own local storage, and an entry
  of the global matrix is read from the storage of a process that owns it.
\<close>

text \<open>Modelled from the spec: the process grid of height \<open>r\<close> and width \<open>c\<close> (its class is
  not among the sources). A process is named by its grid row and grid column; the ranking is
  column-major, so the process of rank \<open>k\<close> has row \<open>k mod r\<close> and column \<open>k div r\<close>.\<close>

record ProcessGrid =
  pgHeight :: nat
  pgWidth :: nat

type_synonym process = "nat \<times> nat"

definition gridProcesses :: "ProcessGrid \<Rightarrow> process list" where
  "gridProcesses g = concat (map (\<lambda>q. map (\<lambda>p. (p, q)) [0..<pgHeight g]) [0..<pgWidth g])"

text \<open>Modelled from the spec: the six ways a global dimension maps to the grid, and the
  descriptor of a matrix, which names one of them, with an alignment, for the rows and
  for the columns.\<close>

datatype Distribution =
    GridRow | GridCol | GridRowMajorLinear | GridColMajorLinear | Replicated | SingleProcess

record Descriptor =
  distOfRows :: Distribution
  distOfCols :: Distribution
  alignOfRows :: nat
  alignOfCols :: nat

text \<open>Modelled from the spec: a process owns global index \<open>i\<close> under the distribution
  \<open>grid-row\<close> with alignment \<open>a\<close> iff \<open>i mod r = (gridRow + a) mod r\<close>, and similarly for
  the other distributions: over the grid column with the grid width, over the column-major
  or row-major rank with the number of processes. Every process owns every index of a
  replicated dimension; one process, whose rank is the alignment, owns every index of a
  single-process dimension.\<close>

fun ownsIndex :: "ProcessGrid \<Rightarrow> Distribution \<Rightarrow> nat \<Rightarrow> process \<Rightarrow> nat \<Rightarrow> bool" where
  "ownsIndex g GridRow a (p, q) i \<longleftrightarrow> i mod pgHeight g = (p + a) mod pgHeight g"
| "ownsIndex g GridCol a (p, q) i \<longleftrightarrow> i mod pgWidth g = (q + a) mod pgWidth g"
| "ownsIndex g GridColMajorLinear a (p, q) i \<longleftrightarrow>
     i mod (pgHeight g * pgWidth g) = (p + q * pgHeight g + a) mod (pgHeight g * pgWidth g)"
| "ownsIndex g GridRowMajorLinear a (p, q) i \<longleftrightarrow>
     i mod (pgHeight g * pgWidth g) = (q + p * pgWidth g + a) mod (pgHeight g * pgWidth g)"
| "ownsIndex g Replicated a (p, q) i \<longleftrightarrow> True"
| "ownsIndex g SingleProcess a (p, q) i \<longleftrightarrow> p + q * pgHeight g = a"

definition ownsEntry :: "ProcessGrid \<Rightarrow> Descriptor \<Rightarrow> process \<Rightarrow> nat \<Rightarrow> nat \<Rightarrow> bool" where
  "ownsEntry g D pr i j \<longleftrightarrow>
     ownsIndex g (distOfRows D) (alignOfRows D) pr i \<and>
     ownsIndex g (distOfCols D) (alignOfCols D) pr j"

text \<open>Modelled from the spec: the supported catalogue of descriptors. The pairs of
  distributions are those under which every entry has an owner; an alignment lies below
  the extent of the grid it refers to.\<close>

definition catalogue :: "(Distribution \<times> Distribution) list" where
  "catalogue =
     [(GridRow, GridCol), (GridCol, GridRow),
      (GridRow, Replicated), (Replicated, GridRow),
      (GridCol, Replicated), (Replicated, GridCol),
      (GridColMajorLinear, Replicated), (Replicated, GridColMajorLinear),
      (GridRowMajorLinear, Replicated), (Replicated, GridRowMajorLinear),
      (Replicated, Replicated), (SingleProcess, SingleProcess)]"

fun gridExtent :: "ProcessGrid \<Rightarrow> Distribution \<Rightarrow> nat" where
  "gridExtent g GridRow = pgHeight g"
| "gridExtent g GridCol = pgWidth g"
| "gridExtent g GridColMajorLinear = pgHeight g * pgWidth g"
| "gridExtent g GridRowMajorLinear = pgHeight g * pgWidth g"
| "gridExtent g Replicated = 1"
| "gridExtent g SingleProcess = pgHeight g * pgWidth g"

definition supported :: "ProcessGrid \<Rightarrow> Descriptor \<Rightarrow> bool" where
  "supported g D \<longleftrightarrow>
     (distOfRows D, distOfCols D) \<in> set catalogue \<and>
     alignOfRows D < gridExtent g (distOfRows D) \<and>
     alignOfCols D < gridExtent g (distOfCols D) \<and>
     (distOfRows D = SingleProcess \<and> distOfCols D = SingleProcess \<and>
        alignOfRows D \<noteq> alignOfCols D) = False"

text \<open>Modelled from the spec: the local storage of a process holds exactly the entries
  whose row and column index it owns, in increasing order of the global indices: the local
  height and width are the numbers of owned indices, and local index \<open>k\<close> stands for the
  \<open>k\<close>-th owned global index.\<close>

definition ownedIndices :: "ProcessGrid \<Rightarrow> Distribution \<Rightarrow> nat \<Rightarrow> process \<Rightarrow> nat \<Rightarrow> nat list" where
  "ownedIndices g d a pr n = filter (ownsIndex g d a pr) [0..<n]"

definition localLength :: "ProcessGrid \<Rightarrow> Distribution \<Rightarrow> nat \<Rightarrow> process \<Rightarrow> nat \<Rightarrow> nat" where
  "localLength g d a pr n = length (ownedIndices g d a pr n)"

definition localIndex :: "ProcessGrid \<Rightarrow> Distribution \<Rightarrow> nat \<Rightarrow> process \<Rightarrow> nat \<Rightarrow> nat" where
  "localIndex g d a pr i = length (ownedIndices g d a pr i)"

definition globalIndex :: "ProcessGrid \<Rightarrow> Distribution \<Rightarrow> nat \<Rightarrow> process \<Rightarrow> nat \<Rightarrow> nat \<Rightarrow> nat" where
  "globalIndex g d a pr n k = ownedIndices g d a pr n ! k"

record 'a DistributedMatrix =
  dmGrid :: ProcessGrid
  dmHeight :: nat
  dmWidth :: nat
  dmDescriptor :: Descriptor
  dmLocal :: "process \<Rightarrow> nat \<times> nat \<Rightarrow> 'a option"

text \<open>The entry \<open>(i, j)\<close> of the global matrix, read from the local storage of the first
  process, in rank order, that owns it.\<close>

definition ownerOf :: "ProcessGrid \<Rightarrow> Descriptor \<Rightarrow> nat \<Rightarrow> nat \<Rightarrow> process option" where
  "ownerOf g D i j = find (\<lambda>pr. ownsEntry g D pr i j) (gridProcesses g)"

definition entry :: "'a DistributedMatrix \<Rightarrow> nat \<Rightarrow> nat \<Rightarrow> 'a option" where
  "entry M i j =
     (let g = dmGrid M; D = dmDescriptor M
      in if i < dmHeight M \<and> j < dmWidth M
         then (case ownerOf g D i j of
                 None \<Rightarrow> None
               | Some pr \<Rightarrow>
                   dmLocal M pr (localIndex g (distOfRows D) (alignOfRows D) pr i,
                                 localIndex g (distOfCols D) (alignOfCols D) pr j))
         else None)"

text \<open>A matrix with a given descriptor whose local storages are populated from the
  global entries \<open>e\<close>: each process of the grid holds, at every position of its local
  footprint, the entry at the global position that the local position stands for.\<close>

definition populate ::
  "ProcessGrid \<Rightarrow> nat \<Rightarrow> nat \<Rightarrow> Descriptor \<Rightarrow> (nat \<Rightarrow> nat \<Rightarrow> 'a option) \<Rightarrow> 'a DistributedMatrix" where
  "populate g h w D e =
     \<lparr> dmGrid = g, dmHeight = h, dmWidth = w, dmDescriptor = D,
       dmLocal = (\<lambda>pr (iLoc, jLoc).
         if pr \<in> set (gridProcesses g) \<and>
            iLoc < localLength g (distOfRows D) (alignOfRows D) pr h \<and>
            jLoc < localLength g (distOfCols D) (alignOfCols D) pr w
         then e (globalIndex g (distOfRows D) (alignOfRows D) pr h iLoc)
                (globalIndex g (distOfCols D) (alignOfCols D) pr w jLoc)
         else None) \<rparr>"

text \<open>Modelled from the spec: redistribution into a target descriptor over the same grid
  and of the same global shape populates the local storages of the destination so that,
  for every global index, the value of the destination is that of the source. No
  arithmetic is done on the values.\<close>

definition Redistribute_to :: "'a DistributedMatrix \<Rightarrow> Descriptor \<Rightarrow> 'a DistributedMatrix" where
  "Redistribute_to M D = populate (dmGrid M) (dmHeight M) (dmWidth M) D (entry M)"

text \<open>Concrete descriptors and a concrete matrix: the layouts \<open>HerkUN\<close> moves a panel
  through, and a three by three matrix with entries \<open>10 i + j\<close> on a two by two grid.\<close>

definition MC_MR :: Descriptor where
  "MC_MR = \<lparr> distOfRows = GridRow, distOfCols = GridCol, alignOfRows = 1, alignOfCols = 0 \<rparr>"

definition MC_Star :: Descriptor where
  "MC_Star = \<lparr> distOfRows = GridRow, distOfCols = Replicated, alignOfRows = 0, alignOfCols = 0 \<rparr>"

definition VC_Star :: Descriptor where
  "VC_Star = \<lparr> distOfRows = GridColMajorLinear, distOfCols = Replicated,
               alignOfRows = 3, alignOfCols = 0 \<rparr>"

definition two_by_two :: ProcessGrid where
  "two_by_two = \<lparr> pgHeight = 2, pgWidth = 2 \<rparr>"

definition example_matrix :: "nat DistributedMatrix" where
  "example_matrix = populate two_by_two 3 3 MC_MR (\<lambda>i j. Some (10 * i + j))"

text \<open>Modelled from the spec: the local multiply of the update on whole matrices. Every
  process multiplies its local matrix of the panel laid out along the rows of \<open>C\<close> with the
  conjugate transpose of its local matrix of the panel laid out along the columns of \<open>C\<close>,
  into its local matrix of \<open>C\<close>. The columns of both panels are replicated, so the local
  column \<open>t\<close> of a panel is its global column \<open>t\<close>. A position missing from a local
  storage contributes nothing.\<close>

definition localGemm_NC ::
  "complex \<Rightarrow> complex DistributedMatrix \<Rightarrow> complex DistributedMatrix \<Rightarrow> complex \<Rightarrow>
   complex DistributedMatrix \<Rightarrow> complex DistributedMatrix" where
  "localGemm_NC alpha A B beta C =
     C\<lparr> dmLocal := (\<lambda>pr (iLoc, jLoc).
          case dmLocal C pr (iLoc, jLoc) of
            None \<Rightarrow> None
          | Some c \<Rightarrow>
              Some (beta * c +
                    alpha * (\<Sum>t<dmWidth A.
                      (case (dmLocal A pr (iLoc, t), dmLocal B pr (jLoc, t)) of
                         (Some x, Some y) \<Rightarrow> x * cnj y
                       | _ \<Rightarrow> 0)))) \<rparr>"

section \<open>Properties of the views and of the local operations\<close>

lemma View_fields [simp]:
  "Height (View M i j h w) = h"
  "Width (View M i j h w) = w"
  "Buf (View M i j h w) = Buf M"
  "RowOffset (View M i j h w) = RowOffset M + i"
  "ColOffset (View M i j h w) = ColOffset M + j"
  "GetGrid (View M i j h w) = GetGrid M"
  "ColDist (View M i j h w) = ColDist M"
  "RowDist (View M i j h w) = RowDist M"
  "ColAlignment (View M i j h w) = (ColAlignment M + i) mod distStride (GetGrid M) (ColDist M)"
  "RowAlignment (View M i j h w) = (RowAlignment M + j) mod distStride (GetGrid M) (RowDist M)"
  by (simp_all add: View_def)

lemma Get_View [simp]: "Get s (View M i0 j0 h w) i j = Get s M (i0 + i) (j0 + j)"
  by (simp add: Get_def add.assoc)

lemma inWindow_View:
  "inWindow (View M i0 j0 h w) i j \<longleftrightarrow>
     RowOffset M + i0 \<le> i \<and> i < RowOffset M + i0 + h \<and>
     ColOffset M + j0 \<le> j \<and> j < ColOffset M + j0 + w"
  by (simp add: inWindow_def)

lemma LockedPartitionDown_le:
  "h \<le> Height A \<Longrightarrow>
   LockedPartitionDown A h = (View A 0 0 h (Width A), View A h 0 (Height A - h) (Width A))"
  by (simp add: LockedPartitionDown_def)

lemma PartitionDownDiagonal_le:
  "d \<le> Height C \<Longrightarrow> Width C = Height C \<Longrightarrow>
   PartitionDownDiagonal C d =
     (View C 0 0 d d, View C 0 d d (Width C - d),
      View C d 0 (Height C - d) d, View C d d (Height C - d) (Width C - d))"
  by (simp add: PartitionDownDiagonal_def)

lemma tempOn_fields [simp]:
  "Height (tempOn g b V) = Height V"
  "Width (tempOn g b V) = Width V"
  "Buf (tempOn g b V) = b"
  "RowOffset (tempOn g b V) = 0"
  "ColOffset (tempOn g b V) = 0"
  by (simp_all add: tempOn_def ResizeTo_def AlignWith_def newDistMatrix_def)

lemma inWindow_tempOn: "inWindow (tempOn g b V) i j \<longleftrightarrow> i < Height V \<and> j < Width V"
  by (simp add: inWindow_def)

lemma mem_Scal:
  "mem (Scal beta X s) b i j =
     (if b = Buf X \<and> inWindow X i j then beta * mem s b i j else mem s b i j)"
  by (simp add: Scal_def note_call_def)

lemma mem_Gemm_NC:
  "mem (Gemm Normal ConjugateTranspose alpha A B beta C s) b i j =
     (if b = Buf C \<and> inWindow C i j
      then beta * mem s b i j +
           alpha * (\<Sum>t<Width A. Get s A (i - RowOffset C) t * cnj (Get s B (j - ColOffset C) t))
      else mem s b i j)"
  by (simp add: Gemm_def note_call_def)

lemma mem_MakeTrapezoidal_LU:
  "mem (MakeTrapezoidal Left Upper X s) b i j =
     (if b = Buf X \<and> inWindow X i j \<and> j - ColOffset X < i - RowOffset X then 0
      else mem s b i j)"
  by (simp add: MakeTrapezoidal_def note_call_def not_le)

lemma mem_Axpy:
  "mem (Axpy alpha X Y s) b i j =
     (if b = Buf Y \<and> inWindow Y i j
      then alpha * Get s X (i - RowOffset Y) (j - ColOffset Y) + mem s b i j
      else mem s b i j)"
  by (simp add: Axpy_def note_call_def)

lemmas mem_ops = mem_Scal mem_Gemm_NC mem_MakeTrapezoidal_LU mem_Axpy

lemma calls_ops:
  "calls (Scal beta X s) = calls s @ [Scal_call beta X]"
  "calls (Gemm oA oB alpha A B beta' C s) = calls s @ [Gemm_call oA oB alpha A B beta' C]"
  "calls (MakeTrapezoidal side shape X s) = calls s @ [MakeTrapezoidal_call side shape X]"
  "calls (Axpy alpha X Y s) = calls s @ [Axpy_call alpha X Y]"
  by (simp_all add: Scal_def Gemm_def MakeTrapezoidal_def Axpy_def note_call_def)

lemma mem_ops_frame:
  "b \<noteq> Buf X \<Longrightarrow> mem (Scal beta X s) b = mem s b"
  "b \<noteq> Buf C \<Longrightarrow> mem (Gemm oA oB alpha A B beta' C s) b = mem s b"
  "b \<noteq> Buf X \<Longrightarrow> mem (MakeTrapezoidal side shape X s) b = mem s b"
  "b \<noteq> Buf Y \<Longrightarrow> mem (Axpy alpha X' Y s) b = mem s b"
  by (simp_all add: Scal_def Gemm_def MakeTrapezoidal_def Axpy_def note_call_def)

section \<open>The base-case kernel\<close>

lemma checks_ok: "herk_operands A B C \<Longrightarrow> HerkUNUpdate_checks release A B C = None"
  by (simp add: herk_operands_def HerkUNUpdate_checks_def Let_def)

lemma kernel_unfold:
  assumes "herk_operands A B C"
  shows "HerkUNUpdateKernel release alpha A B beta C s =
    (let half = Height C div 2;
         AT = View A 0 0 half (Width A); AB = View A half 0 (Height A - half) (Width A);
         BT = View B 0 0 half (Width B); BB = View B half 0 (Height B - half) (Width B);
         CTL = View C 0 0 half half; CTR = View C 0 half half (Width C - half);
         CBR = View C half half (Height C - half) (Width C - half);
         DTL = tempOn (GetGrid C) BufDTL CTL; DBR = tempOn (GetGrid C) BufDBR CBR
     in Inr (Axpy 1 DBR CBR (MakeTrapezoidal Left Upper DBR
              (Gemm Normal ConjugateTranspose alpha AB BB 0 DBR
                (Axpy 1 DTL CTL (MakeTrapezoidal Left Upper DTL
                  (Gemm Normal ConjugateTranspose alpha AT BT 0 DTL
                    (Gemm Normal ConjugateTranspose alpha AT BB 1 CTR (Scal beta C s)))))))))"
proof -
  have h: "Height C div 2 \<le> Height A" "Height C div 2 \<le> Height B" "Height C div 2 \<le> Height C"
       "Width C = Height C"
    using assms by (simp_all add: herk_operands_def)
  show ?thesis
    unfolding HerkUNUpdateKernel_def checks_ok[OF assms] Let_def
      LockedPartitionDown_le[OF h(1)] LockedPartitionDown_le[OF h(2)]
      PartitionDownDiagonal_le[OF h(3) h(4)] tempOn_def
    by simp
qed

lemma kernel_mem_C:
  assumes ops: "herk_operands A B C"
  shows "\<exists>s'. HerkUNUpdateKernel release alpha A B beta C s = Inr s' \<and>
     mem s' BufC i j = kernel_entry alpha A B beta C s i j"
proof -
  define half where "half = Height C div 2"
  define ro where "ro = RowOffset C"
  define co where "co = ColOffset C"
  have bufs: "Buf A = BufA1_MC_Star" "Buf B = BufA1_MR_Star" "Buf C = BufC"
    and dims: "Height A = Height C" "Height B = Height C" "Width C = Height C" "Width A = Width B"
    using ops by (simp_all add: herk_operands_def)
  have half_le: "half \<le> Height C" by (simp add: half_def)
  consider (out) "\<not> inWindow C i j"
    | (TL) "inWindow C i j" "i < ro + half" "j < co + half"
    | (TR) "inWindow C i j" "i < ro + half" "co + half \<le> j"
    | (BL) "inWindow C i j" "ro + half \<le> i" "j < co + half"
    | (BR) "inWindow C i j" "ro + half \<le> i" "co + half \<le> j"
    by linarith
  then show ?thesis
  proof cases
    case out
    then have w: "\<not> inWindow (View C 0 0 half half) i j"
      "\<not> inWindow (View C 0 half half (Width C - half)) i j"
      "\<not> inWindow (View C half half (Height C - half) (Width C - half)) i j"
      using half_le dims by (auto simp: inWindow_View inWindow_def)
    show ?thesis
      unfolding kernel_unfold[OF ops] Let_def half_def[symmetric]
      using out w by (simp add: mem_ops kernel_entry_def bufs)
  next
    case TL
    then have w: "inWindow (View C 0 0 half half) i j"
      "\<not> inWindow (View C 0 half half (Width C - half)) i j"
      "\<not> inWindow (View C half half (Height C - half) (Width C - half)) i j"
      "i - ro < half" "j - co < half" "ro \<le> i" "co \<le> j"
      using half_le dims by (auto simp: inWindow_View inWindow_def ro_def co_def)
    show ?thesis
      unfolding kernel_unfold[OF ops] Let_def half_def[symmetric]
      using TL(1) w
      apply (simp add: mem_ops kernel_entry_def bufs inWindow_tempOn
          ro_def[symmetric] co_def[symmetric])
      apply (simp add: Get_def mem_ops bufs dims inWindow_tempOn rankK_def)
      done
  next
    case TR
    then have w: "\<not> inWindow (View C 0 0 half half) i j"
      "inWindow (View C 0 half half (Width C - half)) i j"
      "\<not> inWindow (View C half half (Height C - half) (Width C - half)) i j"
      "i - ro \<le> j - co" "half + (j - (co + half)) = j - co"
      using half_le dims by (auto simp: inWindow_View inWindow_def ro_def co_def)
    show ?thesis
      unfolding kernel_unfold[OF ops] Let_def half_def[symmetric]
      using TR(1) w
      apply (simp add: mem_ops kernel_entry_def bufs inWindow_tempOn
          ro_def[symmetric] co_def[symmetric])
      apply (simp add: Get_def mem_ops bufs dims rankK_def add.assoc)
      done
  next
    case BL
    then have w: "\<not> inWindow (View C 0 0 half half) i j"
      "\<not> inWindow (View C 0 half half (Width C - half)) i j"
      "\<not> inWindow (View C half half (Height C - half) (Width C - half)) i j"
      "\<not> i - ro \<le> j - co"
      using half_le dims by (auto simp: inWindow_View inWindow_def ro_def co_def)
    show ?thesis
      unfolding kernel_unfold[OF ops] Let_def half_def[symmetric]
      using BL(1) w
      by (simp add: mem_ops kernel_entry_def bufs ro_def[symmetric] co_def[symmetric])
  next
    case BR
    then have w: "\<not> inWindow (View C 0 0 half half) i j"
      "\<not> inWindow (View C 0 half half (Width C - half)) i j"
      "inWindow (View C half half (Height C - half) (Width C - half)) i j"
      "i - (ro + half) < Height C - half" "j - (co + half) < Height C - half"
      "half + (i - (ro + half)) = i - ro" "half + (j - (co + half)) = j - co"
      "j - (co + half) < i - (ro + half) \<longleftrightarrow> \<not> i - ro \<le> j - co"
      using half_le dims by (auto simp: inWindow_View inWindow_def ro_def co_def)
    show ?thesis
      unfolding kernel_unfold[OF ops] Let_def half_def[symmetric]
      using BR(1) w
      apply (simp add: mem_ops kernel_entry_def bufs inWindow_tempOn
          ro_def[symmetric] co_def[symmetric])
      apply (simp add: Get_def mem_ops bufs dims inWindow_tempOn rankK_def add.assoc)
      done
  qed
qed

lemma kernel_frame:
  assumes ops: "herk_operands A B C" and b: "b \<in> {BufA, BufA1_MC_Star, BufA1_MR_Star}"
  shows "\<exists>s'. HerkUNUpdateKernel release alpha A B beta C s = Inr s' \<and> mem s' b = mem s b"
proof -
  have "Buf C = BufC" using ops by (simp add: herk_operands_def)
  then show ?thesis
    unfolding kernel_unfold[OF ops] Let_def
    using b by (auto simp: mem_ops_frame)
qed

lemma kernel_calls:
  assumes ops: "herk_operands A B C"
  shows "\<exists>s' new. HerkUNUpdateKernel release alpha A B beta C s = Inr s' \<and>
     calls s' = calls s @ new \<and> (\<forall>c\<in>set new. scale_applied c \<in> {None, Some beta, Some 1})"
proof -
  have "Buf C = BufC" using ops by (simp add: herk_operands_def)
  then show ?thesis
    unfolding kernel_unfold[OF ops] Let_def
    by (simp add: calls_ops)
qed

lemma kernel_post:
  assumes ops: "herk_operands A B C"
  shows "\<exists>s'. HerkUNUpdateKernel release alpha A B beta C s = Inr s' \<and>
     update_post alpha A B beta C s s'"
proof -
  obtain s' where s': "HerkUNUpdateKernel release alpha A B beta C s = Inr s'"
    using kernel_frame[OF ops, of BufA release alpha beta s] by auto
  have m: "mem s' BufC i j = kernel_entry alpha A B beta C s i j" for i j
    using kernel_mem_C[OF ops, of release alpha beta s i j] s' by simp
  have f: "mem s' b = mem s b" if "b \<in> {BufA, BufA1_MC_Star, BufA1_MR_Star}" for b
    using kernel_frame[OF ops that, of release alpha beta s] s' by simp
  have c: "\<exists>new. calls s' = calls s @ new \<and>
      (\<forall>c\<in>set new. scale_applied c \<in> {None, Some beta, Some 1})"
    using kernel_calls[OF ops, of release alpha beta s] s' by simp
  show ?thesis
    unfolding update_post_def using s' c by (simp add: m f kernel_entry_def)
qed

section \<open>The recursive update\<close>

lemma rankK_View:
  "rankK s (View A a 0 h (Width A)) (View B b 0 h' w') i j = rankK s A B (a + i) (b + j)"
  by (simp add: rankK_def)

lemma rankK_frame:
  "mem s' (Buf A) = mem s (Buf A) \<Longrightarrow> mem s' (Buf B) = mem s (Buf B) \<Longrightarrow>
   rankK s' A B i j = rankK s A B i j"
  by (simp add: rankK_def Get_def)

lemma operands_TL:
  assumes "herk_operands A B C" "half \<le> Height C"
  shows "herk_operands (View A 0 0 half (Width A)) (View B 0 0 half (Width B))
           (View C 0 0 half half)"
  using assms by (simp add: herk_operands_def)

lemma operands_BR:
  assumes "herk_operands A B C" "half \<le> Height C"
  shows "herk_operands (View A half 0 (Height A - half) (Width A))
           (View B half 0 (Height B - half) (Width B))
           (View C half half (Height C - half) (Width C - half))"
  using assms by (simp add: herk_operands_def)

lemma update_post_combine:
  assumes ops: "herk_operands A B C"
    and half: "half = Height C div 2"
    and s1: "s1 = Gemm Normal ConjugateTranspose alpha (View A 0 0 half (Width A))
                    (View B half 0 (Height B - half) (Width B)) beta
                    (View C 0 half half (Width C - half)) s"
    and p1: "update_post alpha (View A 0 0 half (Width A)) (View B 0 0 half (Width B)) beta
               (View C 0 0 half half) s1 s2"
    and p2: "update_post alpha (View A half 0 (Height A - half) (Width A))
               (View B half 0 (Height B - half) (Width B)) beta
               (View C half half (Height C - half) (Width C - half)) s2 s3"
  shows "update_post alpha A B beta C s s3"
proof -
  define ro where "ro = RowOffset C"
  define co where "co = ColOffset C"
  have bufs: "Buf A = BufA1_MC_Star" "Buf B = BufA1_MR_Star" "Buf C = BufC"
    and dims: "Height A = Height C" "Height B = Height C" "Width C = Height C" "Width A = Width B"
    using ops by (simp_all add: herk_operands_def)
  have half_le: "half \<le> Height C" by (simp add: half)
  have s1C: "mem s1 BufC i j =
      (if inWindow (View C 0 half half (Width C - half)) i j
       then beta * mem s BufC i j + alpha * rankK s A B (i - ro) (half + (j - (co + half)))
       else mem s BufC i j)" for i j
    by (simp add: s1 mem_ops bufs rankK_def ro_def co_def)
  have s1F: "mem s1 BufA = mem s BufA" "mem s1 BufA1_MC_Star = mem s BufA1_MC_Star"
    "mem s1 BufA1_MR_Star = mem s BufA1_MR_Star"
    by (simp_all add: s1 mem_ops_frame bufs)
  have s1L: "calls s1 = calls s @ [Gemm_call Normal ConjugateTranspose alpha
      (View A 0 0 half (Width A)) (View B half 0 (Height B - half) (Width B)) beta
      (View C 0 half half (Width C - half))]"
    by (simp add: s1 calls_ops)
  note P1 = p1[unfolded update_post_def, simplified]
  note P2 = p2[unfolded update_post_def, simplified]
  have F2: "mem s2 BufA = mem s BufA" "mem s2 BufA1_MC_Star = mem s BufA1_MC_Star"
    "mem s2 BufA1_MR_Star = mem s BufA1_MR_Star"
    using P1 s1F by simp_all
  have F3: "mem s3 BufA = mem s BufA" "mem s3 BufA1_MC_Star = mem s BufA1_MC_Star"
    "mem s3 BufA1_MR_Star = mem s BufA1_MR_Star"
    using P2 F2 by simp_all
  have rk1: "rankK s1 (View A 0 0 half (Width A)) (View B 0 0 half (Width B)) i' j' = rankK s A B i' j'" for i' j'
    using rankK_frame[of s1 A s B] s1F by (simp add: rankK_View bufs)
  have rk2: "rankK s2 (View A half 0 (Height A - half) (Width A))
               (View B half 0 (Height B - half) (Width B)) i' j' = rankK s A B (half + i') (half + j')" for i' j'
    using rankK_frame[of s2 A s B] F2 by (simp add: rankK_View bufs)
  have up: "mem s3 BufC i j = beta * mem s BufC i j + alpha * rankK s A B (i - ro) (j - co)"
    if w: "inWindow C i j" and u: "i - ro \<le> j - co" for i j
  proof -
    consider (TL) "i < ro + half" "j < co + half"
      | (TR) "i < ro + half" "co + half \<le> j"
      | (BR) "ro + half \<le> i" "co + half \<le> j"
      using w u by (fastforce simp: inWindow_def ro_def co_def)
    then show ?thesis
    proof cases
      case TL
      then have q: "inWindow (View C 0 0 half half) i j"
        "\<not> inWindow (View C 0 half half (Width C - half)) i j"
        "\<not> inWindow (View C half half (Height C - half) (Width C - half)) i j"
        using w half_le dims by (auto simp: inWindow_View inWindow_def ro_def co_def)
      have "mem s3 BufC i j = mem s2 BufC i j" using P2 q by simp
      also have "\<dots> = beta * mem s1 BufC i j + alpha * rankK s A B (i - ro) (j - co)"
        using P1 q(1) u by (simp add: rk1 ro_def co_def)
      finally show ?thesis using q by (simp add: s1C)
    next
      case TR
      then have q: "\<not> inWindow (View C 0 0 half half) i j"
        "inWindow (View C 0 half half (Width C - half)) i j"
        "\<not> inWindow (View C half half (Height C - half) (Width C - half)) i j"
        "half + (j - (co + half)) = j - co"
        using w half_le dims by (auto simp: inWindow_View inWindow_def ro_def co_def)
      have "mem s3 BufC i j = mem s2 BufC i j" using P2 q by simp
      also have "\<dots> = mem s1 BufC i j" using P1 q by simp
      finally show ?thesis using q by (simp add: s1C)
    next
      case BR
      then have q: "\<not> inWindow (View C 0 0 half half) i j"
        "\<not> inWindow (View C 0 half half (Width C - half)) i j"
        "inWindow (View C half half (Height C - half) (Width C - half)) i j"
        "half + (i - (ro + half)) = i - ro" "half + (j - (co + half)) = j - co"
        "i - (ro + half) \<le> j - (co + half)"
        using w u half_le dims by (auto simp: inWindow_View inWindow_def ro_def co_def)
      have "mem s3 BufC i j = beta * mem s2 BufC i j + alpha * rankK s A B (i - ro) (j - co)"
        using P2 q by (simp add: rk2 ro_def co_def)
      also have "mem s2 BufC i j = mem s1 BufC i j" using P1 q by simp
      finally show ?thesis using q by (simp add: s1C)
    qed
  qed
  have lo: "mem s3 BufC i j = beta * mem s BufC i j \<or> mem s3 BufC i j = mem s BufC i j"
    if w: "inWindow C i j" and u: "\<not> i - ro \<le> j - co" for i j
  proof -
    consider (TL) "i < ro + half" "j < co + half"
      | (BL) "ro + half \<le> i" "j < co + half"
      | (BR) "ro + half \<le> i" "co + half \<le> j"
      using w u by (fastforce simp: inWindow_def ro_def co_def)
    then show ?thesis
    proof cases
      case TL
      then have q: "inWindow (View C 0 0 half half) i j"
        "\<not> inWindow (View C 0 half half (Width C - half)) i j"
        "\<not> inWindow (View C half half (Height C - half) (Width C - half)) i j"
        using w half_le dims by (auto simp: inWindow_View inWindow_def ro_def co_def)
      have "mem s3 BufC i j = mem s2 BufC i j" using P2 q by simp
      moreover have "mem s2 BufC i j = beta * mem s1 BufC i j \<or> mem s2 BufC i j = mem s1 BufC i j"
        using P1 q(1) u by (simp add: ro_def co_def)
      ultimately show ?thesis using q by (simp add: s1C)
    next
      case BL
      then have q: "\<not> inWindow (View C 0 0 half half) i j"
        "\<not> inWindow (View C 0 half half (Width C - half)) i j"
        "\<not> inWindow (View C half half (Height C - half) (Width C - half)) i j"
        using w half_le dims by (auto simp: inWindow_View inWindow_def ro_def co_def)
      have "mem s3 BufC i j = mem s2 BufC i j" using P2 q by simp
      also have "\<dots> = mem s1 BufC i j" using P1 q by simp
      finally show ?thesis using q by (simp add: s1C)
    next
      case BR
      then have q: "\<not> inWindow (View C 0 0 half half) i j"
        "\<not> inWindow (View C 0 half half (Width C - half)) i j"
        "inWindow (View C half half (Height C - half) (Width C - half)) i j"
        "\<not> i - (ro + half) \<le> j - (co + half)"
        using w u half_le dims by (auto simp: inWindow_View inWindow_def ro_def co_def)
      have "mem s3 BufC i j = beta * mem s2 BufC i j \<or> mem s3 BufC i j = mem s2 BufC i j"
        using P2 q by (simp add: ro_def co_def)
      moreover have "mem s2 BufC i j = mem s1 BufC i j" using P1 q by simp
      ultimately show ?thesis using q by (simp add: s1C)
    qed
  qed
  have out: "mem s3 BufC i j = mem s BufC i j" if w: "\<not> inWindow C i j" for i j
  proof -
    have q: "\<not> inWindow (View C 0 0 half half) i j"
      "\<not> inWindow (View C 0 half half (Width C - half)) i j"
      "\<not> inWindow (View C half half (Height C - half) (Width C - half)) i j"
      using w half_le dims by (auto simp: inWindow_View inWindow_def)
    have "mem s3 BufC i j = mem s2 BufC i j" using P2 q by simp
    also have "\<dots> = mem s1 BufC i j" using P1 q by simp
    finally show ?thesis using q by (simp add: s1C)
  qed
  obtain n1 where n1: "calls s2 = calls s1 @ n1"
    "\<forall>c\<in>set n1. scale_applied c \<in> {None, Some beta, Some 1}"
    using p1 unfolding update_post_def by blast
  obtain n2 where n2: "calls s3 = calls s2 @ n2"
    "\<forall>c\<in>set n2. scale_applied c \<in> {None, Some beta, Some 1}"
    using p2 unfolding update_post_def by blast
  have lg: "\<exists>new. calls s3 = calls s @ new \<and>
      (\<forall>c\<in>set new. scale_applied c \<in> {None, Some beta, Some 1})"
  proof (intro exI conjI)
    show "calls s3 = calls s @ (Gemm_call Normal ConjugateTranspose alpha
      (View A 0 0 half (Width A)) (View B half 0 (Height B - half) (Width B)) beta
      (View C 0 half half (Width C - half)) # n1 @ n2)"
      by (simp add: n1 n2 s1L)
    show "\<forall>c\<in>set (Gemm_call Normal ConjugateTranspose alpha
      (View A 0 0 half (Width A)) (View B half 0 (Height B - half) (Width B)) beta
      (View C 0 half half (Width C - half)) # n1 @ n2). scale_applied c \<in> {None, Some beta, Some 1}"
      using n1(2) n2(2) by (auto simp: bufs)
  qed
  show ?thesis
    unfolding update_post_def
    using up lo out F3 lg by (simp add: ro_def co_def)
qed

lemma int32_id: "- (2 ^ 31) \<le> x \<Longrightarrow> x < 2 ^ 31 \<Longrightarrow> int32 x = x"
  by (simp add: int32_def)

lemma threshold_exact:
  assumes "2 * gw * bs < (2::nat) ^ 31"
  shows "int32 (int32 (2 * int gw) * int bs) = int (2 * gw * bs)"
proof (cases "bs = 0")
  case True
  then show ?thesis by (simp add: int32_def)
next
  case False
  then have "2 * gw \<le> 2 * gw * bs" by simp
  with assms have "2 * gw < 2 ^ 31" by linarith
  then have "int (2 * gw) < 2 ^ 31"
    by (metis of_nat_less_iff of_nat_numeral of_nat_power)
  moreover have "(0::int) \<le> int (2 * gw)" by simp
  ultimately have a: "int32 (int (2 * gw)) = int (2 * gw)"
    by (intro int32_id) linarith+
  have "int (2 * gw * bs) < 2 ^ 31"
    using assms by (metis of_nat_less_iff of_nat_numeral of_nat_power)
  moreover have "(0::int) \<le> int (2 * gw * bs)" by simp
  ultimately have b: "int32 (int (2 * gw * bs)) = int (2 * gw * bs)"
    by (intro int32_id) linarith+
  have a': "int32 (2 * int gw) = 2 * int gw" using a by simp
  have b': "int32 (2 * int gw * int bs) = int (2 * gw * bs)" using b by simp
  show ?thesis by (simp only: a' b')
qed

lemma base_case_test:
  "2 * gridWidth g * Blocksize < 2 ^ 31 \<Longrightarrow>
   int h < int32 (int32 (2 * int (gridWidth g)) * int Blocksize) \<longleftrightarrow>
     h < 2 * gridWidth g * Blocksize"
  using threshold_exact[of "gridWidth g" Blocksize] by (simp only: of_nat_less_iff)

lemma HerkUNUpdate_base_int:
  "int (Height C) < int32 (int32 (2 * int (gridWidth (GetGrid C))) * int Blocksize) \<Longrightarrow>
   HerkUNUpdate release Blocksize alpha A B beta C s =
     Some (HerkUNUpdateKernel release alpha A B beta C s)"
  by (subst HerkUNUpdate.simps)
     (simp add: HerkUNUpdateKernel_def split: option.splits)

lemma HerkUNUpdate_base:
  "2 * gridWidth (GetGrid C) * Blocksize < 2 ^ 31 \<Longrightarrow>
   Height C < 2 * gridWidth (GetGrid C) * Blocksize \<Longrightarrow>
   HerkUNUpdate release Blocksize alpha A B beta C s =
     Some (HerkUNUpdateKernel release alpha A B beta C s)"
  using base_case_test[of "GetGrid C" Blocksize "Height C"]
  by (intro HerkUNUpdate_base_int) blast

lemma HerkUNUpdate_rec:
  assumes ops: "herk_operands A B C"
    and small: "2 * gridWidth (GetGrid C) * Blocksize < 2 ^ 31"
    and big: "\<not> Height C < 2 * gridWidth (GetGrid C) * Blocksize"
    and half: "half = Height C div 2"
  shows "HerkUNUpdate release Blocksize alpha A B beta C s =
     Option.bind
       (HerkUNUpdate release Blocksize alpha (View A 0 0 half (Width A))
          (View B 0 0 half (Width B)) beta (View C 0 0 half half)
          (Gemm Normal ConjugateTranspose alpha (View A 0 0 half (Width A))
             (View B half 0 (Height B - half) (Width B)) beta
             (View C 0 half half (Width C - half)) s))
       (\<lambda>r. case r of
          Inl e \<Rightarrow> Some (Inl e)
        | Inr s' \<Rightarrow>
            HerkUNUpdate release Blocksize alpha (View A half 0 (Height A - half) (Width A))
              (View B half 0 (Height B - half) (Width B)) beta
              (View C half half (Height C - half) (Width C - half)) s')"
proof -
  have h: "Height C div 2 \<le> Height A" "Height C div 2 \<le> Height B" "Height C div 2 \<le> Height C"
       "Width C = Height C"
    using ops by (simp_all add: herk_operands_def)
  have t: "\<not> int (Height C) < int32 (int32 (2 * int (gridWidth (GetGrid C))) * int Blocksize)"
    using big base_case_test[OF small, of "Height C"] by blast
  show ?thesis
    apply (subst HerkUNUpdate.simps)
    unfolding checks_ok[OF ops] Let_def half
      LockedPartitionDown_le[OF h(1)] LockedPartitionDown_le[OF h(2)]
      PartitionDownDiagonal_le[OF h(3) h(4)]
    using t by simp
qed

lemma HerkUNUpdate_post:
  assumes "0 < Blocksize" "0 < gridWidth (GetGrid C)"
    and "2 * gridWidth (GetGrid C) * Blocksize < 2 ^ 31" and "herk_operands A B C"
  shows "\<exists>s'. HerkUNUpdate release Blocksize alpha A B beta C s = Some (Inr s') \<and>
     update_post alpha A B beta C s s'"
  using assms
proof (induction "Height C" arbitrary: A B C s rule: less_induct)
  case less
  note ops = less.prems(4) and small = less.prems(3)
  show ?case
  proof (cases "Height C < 2 * gridWidth (GetGrid C) * Blocksize")
    case True
    then show ?thesis
      using kernel_post[OF ops, of release alpha beta s]
      by (simp add: HerkUNUpdate_base[OF small])
  next
    case False
    define half where "half = Height C div 2"
    have "1 \<le> gridWidth (GetGrid C) * Blocksize"
      using less.prems(1,2) by (simp add: Suc_le_eq)
    then have "2 \<le> 2 * gridWidth (GetGrid C) * Blocksize" by simp
    then have m2: "2 \<le> Height C" using False by linarith
    have hl: "half \<le> Height C" "half < Height C" "Height C - half < Height C"
      using m2 by (simp_all add: half_def)
    let ?AT = "View A 0 0 half (Width A)" and ?BT = "View B 0 0 half (Width B)"
    let ?AB = "View A half 0 (Height A - half) (Width A)"
    let ?BB = "View B half 0 (Height B - half) (Width B)"
    let ?CTL = "View C 0 0 half half" and ?CTR = "View C 0 half half (Width C - half)"
    let ?CBR = "View C half half (Height C - half) (Width C - half)"
    define s1 where "s1 = Gemm Normal ConjugateTranspose alpha ?AT ?BB beta ?CTR s"
    have o1: "herk_operands ?AT ?BT ?CTL" by (rule operands_TL[OF ops hl(1)])
    have o2: "herk_operands ?AB ?BB ?CBR" by (rule operands_BR[OF ops hl(1)])
    obtain s2 where s2: "HerkUNUpdate release Blocksize alpha ?AT ?BT beta ?CTL s1 = Some (Inr s2)"
      "update_post alpha ?AT ?BT beta ?CTL s1 s2"
      using less.hyps[of ?CTL ?AT ?BT s1] less.prems(1,2,3) o1 hl by auto
    obtain s3 where s3: "HerkUNUpdate release Blocksize alpha ?AB ?BB beta ?CBR s2 = Some (Inr s3)"
      "update_post alpha ?AB ?BB beta ?CBR s2 s3"
      using less.hyps[of ?CBR ?AB ?BB s2] less.prems(1,2,3) o2 hl by auto
    have "HerkUNUpdate release Blocksize alpha A B beta C s = Some (Inr s3)"
      unfolding HerkUNUpdate_rec[OF ops small False half_def] s1_def[symmetric]
      by (simp add: s2(1) s3(1))
    moreover have "update_post alpha A B beta C s s3"
      by (rule update_post_combine[OF ops half_def s1_def s2(2) s3(2)])
    ultimately show ?thesis by blast
  qed
qed

section \<open>The panel loop\<close>


lemma Redistribute_facts:
  assumes "Redistribute B A s = (B', s')"
  shows "B' = B\<lparr> Height := Height A, Width := Width A \<rparr>"
    and "\<And>b. b \<noteq> Buf B \<Longrightarrow> mem s' b = mem s b"
    and "\<And>i j. i < Height A \<Longrightarrow> j < Width A \<Longrightarrow> Get s' B' i j = Get s A i j"
    and "calls s' = calls s @ [Redistribute_call B' A]"
  using assms
  by (auto simp: Redistribute_def Let_def note_call_def Get_def inWindow_def)

lemma AlignWith_fields [simp]:
  "GetGrid (AlignWith X C) = GetGrid X"
  "ColDist (AlignWith X C) = ColDist X"
  "RowDist (AlignWith X C) = RowDist X"
  "Buf (AlignWith X C) = Buf X"
  "Height (AlignWith X C) = Height X"
  "Width (AlignWith X C) = Width X"
  by (simp_all add: AlignWith_def)

lemma AlignWith_ColAlignment:
  "ColDist X = ColDist C \<Longrightarrow> ColAlignment (AlignWith X C) = ColAlignment C"
  "ColDist X \<noteq> ColDist C \<Longrightarrow> ColDist X = RowDist C \<Longrightarrow>
     ColAlignment (AlignWith X C) = RowAlignment C"
  by (simp_all add: AlignWith_def)

lemma HerkUN_loop_done:
  "Width AR = 0 \<Longrightarrow>
   HerkUN_loop release Blocksize alpha C X Y AL AR s = Some (Inr s)"
  by (subst HerkUN_loop.simps) simp

lemma HerkUN_loop_step:
  assumes "0 < Width AR"
    and "w = min Blocksize (Width AR)"
    and "A1 = View AR 0 0 (Height AR) w"
    and "Redistribute (AlignWith X C) A1 s = (X', sa)"
    and "Redistribute (AlignWith Y C) X' sa = (Y', sb)"
  shows "HerkUN_loop release Blocksize alpha C X Y AL AR s =
     Option.bind (HerkUNUpdate release Blocksize alpha X' Y' 1 C sb)
       (\<lambda>r. case r of
          Inl e \<Rightarrow> Some (Inl e)
        | Inr s' \<Rightarrow>
            HerkUN_loop release Blocksize alpha C X' Y'
              (View AL 0 0 (Height AL) (Width AL + w))
              (View AR 0 w (Height AR) (Width AR - w)) s')"
  apply (subst HerkUN_loop.simps)
  using assms
  apply (simp add: LockedRepartitionRight_def SlideLockedPartitionRight_def Let_def)
  done


section \<open>The whole update\<close>

lemma HerkUN_checks_ok:
  "release \<or> (GetGrid A = GetGrid C \<and> Height A = Height C \<and> Height A = Width C) \<Longrightarrow>
   HerkUN_checks release A C = None"
  by (auto simp: HerkUN_checks_def Let_def)

lemma HerkUN_unfold:
  "HerkUN_checks release A C = None \<Longrightarrow>
   HerkUN release Blocksize alpha A beta C s =
     HerkUN_loop release Blocksize alpha C
       (newDistMatrix (GetGrid A) MC Star BufA1_MC_Star)
       (newDistMatrix (GetGrid A) MR Star BufA1_MR_Star)
       (View A 0 0 (Height A) 0) (View A 0 0 (Height A) (Width A)) (Scal beta C s)"
  by (simp add: HerkUN_def Let_def LockedPartitionRight_def)


section \<open>The panel loop against its specification\<close>

lemma mem_spec_add_panel:
  "mem (spec_add_panel alpha A1 gamma C s) b i j =
     (if b = Buf C \<and> inWindow C i j \<and> i - RowOffset C \<le> j - ColOffset C
      then gamma * mem s b i j + alpha * rankK s A1 A1 (i - RowOffset C) (j - ColOffset C)
      else mem s b i j)"
  by (simp add: spec_add_panel_def)

lemma spec_panel_loop_done:
  "Width A \<le> k \<or> Blocksize = 0 \<Longrightarrow> spec_panel_loop Blocksize alpha A C k s = s"
  by (subst spec_panel_loop.simps) simp

lemma spec_panel_loop_step:
  "k < Width A \<Longrightarrow> 0 < Blocksize \<Longrightarrow>
   spec_panel_loop Blocksize alpha A C k s =
     spec_panel_loop Blocksize alpha A C (k + min Blocksize (Width A - k))
       (spec_add_panel alpha (View A 0 k (Height A) (min Blocksize (Width A - k))) 1 C s)"
  by (subst spec_panel_loop.simps) (simp add: Let_def)

lemma spec_panel_loop_frame:
  "\<not> (b = Buf C \<and> inWindow C i j \<and> i - RowOffset C \<le> j - ColOffset C) \<Longrightarrow>
   mem (spec_panel_loop Blocksize alpha A C k s) b i j = mem s b i j"
proof (induction Blocksize alpha A C k s rule: spec_panel_loop.induct)
  case (1 Blocksize alpha A C k s)
  show ?case
  proof (cases "Width A \<le> k \<or> Blocksize = 0")
    case True
    then show ?thesis by (simp add: spec_panel_loop_done)
  next
    case False
    then have k: "k < Width A" "0 < Blocksize" by simp_all
    have "mem (spec_panel_loop Blocksize alpha A C (k + min Blocksize (Width A - k))
            (spec_add_panel alpha (View A 0 k (Height A) (min Blocksize (Width A - k))) 1 C s)) b i j =
          mem (spec_add_panel alpha (View A 0 k (Height A) (min Blocksize (Width A - k))) 1 C s) b i j"
      using 1 False by blast
    also have "\<dots> = mem s b i j"
      using 1(2) by (auto simp: mem_spec_add_panel)
    finally show ?thesis by (simp add: spec_panel_loop_step[OF k])
  qed
qed

lemma HerkUN_loop_accumulates:
  assumes nb: "0 < Blocksize" and gw: "0 < gridWidth (GetGrid C)"
    and small: "2 * gridWidth (GetGrid C) * Blocksize < 2 ^ 31"
    and C: "Width C = Height C" "ColDist C = MC" "RowDist C = MR" "Buf C = BufC"
    and A: "Buf A = BufA \<or> Buf A = BufC" "Height A = Height C"
    and AR: "Buf AR = Buf A" "RowOffset AR = RowOffset A" "ColOffset AR = ColOffset A + k"
      "Height AR = Height A" "Width AR = Width A - k"
    and X: "GetGrid X = GetGrid C" "ColDist X = MC" "Buf X = BufA1_MC_Star"
    and Y: "GetGrid Y = GetGrid C" "ColDist Y = MR" "Buf Y = BufA1_MR_Star"
    and agree: "mem s BufA = mem t BufA" "mem s BufC = mem t BufC"
  shows "\<exists>s'. HerkUN_loop release Blocksize alpha C X Y AL AR s = Some (Inr s') \<and>
     mem s' BufA = mem (spec_panel_loop Blocksize alpha A C k t) BufA \<and>
     mem s' BufC = mem (spec_panel_loop Blocksize alpha A C k t) BufC \<and>
     (\<exists>new. calls s' = calls s @ new \<and> (0 < Width AR \<longrightarrow> new \<noteq> []) \<and>
        (\<forall>c\<in>set new. scale_applied c \<in> {None, Some 1}))"
  using AR X Y agree
proof (induction "Width AR" arbitrary: AL AR X Y s t k rule: less_induct)
  case less
  note AR = less.prems(1-5) and X = less.prems(6-8) and Y = less.prems(9-11)
    and agree = less.prems(12,13)
  have GetA: "Get t A i x = mem s (Buf A) (RowOffset A + i) (ColOffset A + x)" for i x
    using A(1) agree by (auto simp: Get_def)
  show ?case
  proof (cases "Width AR = 0")
    case True
    then have "Width A \<le> k" using AR by simp
    then show ?thesis
      using True agree by (simp add: HerkUN_loop_done spec_panel_loop_done)
  next
    case False
    define w where "w = min Blocksize (Width AR)"
    define A1 where "A1 = View AR 0 0 (Height AR) w"
    define A2 where "A2 = View AR 0 w (Height AR) (Width AR - w)"
    have w: "0 < w" "w \<le> Width AR" "k < Width A" "w = min Blocksize (Width A - k)"
      using False nb AR by (simp_all add: w_def)
    obtain X' sa where r1: "Redistribute (AlignWith X C) A1 s = (X', sa)" by fastforce
    obtain Y' sb where r2: "Redistribute (AlignWith Y C) X' sa = (Y', sb)" by fastforce
    note f1 = Redistribute_facts[OF r1] and f2 = Redistribute_facts[OF r2]
    have X': "GetGrid X' = GetGrid C" "ColDist X' = MC" "Buf X' = BufA1_MC_Star"
      "Height X' = Height C" "Width X' = w" "ColAlignment X' = ColAlignment C"
      using X C AR A by (simp_all add: f1(1) A1_def AlignWith_ColAlignment)
    have Y': "GetGrid Y' = GetGrid C" "ColDist Y' = MR" "Buf Y' = BufA1_MR_Star"
      "Height Y' = Height C" "Width Y' = w" "ColAlignment Y' = RowAlignment C"
      using Y C X' by (simp_all add: f2(1) AlignWith_ColAlignment)
    have ops: "herk_operands X' Y' C"
      using X' Y' C by (simp add: herk_operands_def)
    obtain sc where sc: "HerkUNUpdate release Blocksize alpha X' Y' 1 C sb = Some (Inr sc)"
      and post: "update_post alpha X' Y' 1 C sb sc"
      using HerkUNUpdate_post[OF nb gw small ops, of release alpha 1 sb] by blast
    define t1 where "t1 = spec_add_panel alpha (View A 0 k (Height A) w) 1 C t"
    have memA: "mem sb BufA = mem s BufA"
      using f1(2)[of BufA] f2(2)[of BufA] X Y by simp
    have memC: "mem sb BufC = mem s BufC"
      using f1(2)[of BufC] f2(2)[of BufC] X Y by simp
    note P = post[unfolded update_post_def, simplified]
    have GetX: "Get sb X' i x = Get s AR i x" if "i < Height C" "x < w" for i x
    proof -
      have "Get sb X' i x = Get sa X' i x"
        using f2(2)[of BufA1_MC_Star] Y X' by (simp add: Get_def)
      also have "\<dots> = Get s A1 i x"
        using f1(3)[of i x] that AR A by (simp add: A1_def)
      finally show ?thesis by (simp add: A1_def)
    qed
    have GetY: "Get sb Y' j x = Get s AR j x" if "j < Height C" "x < w" for j x
    proof -
      have "Get sb Y' j x = Get sa X' j x"
        using f2(3)[of j x] that X' by simp
      also have "\<dots> = Get s A1 j x"
        using f1(3)[of j x] that AR A by (simp add: A1_def)
      finally show ?thesis by (simp add: A1_def)
    qed
    have rk1: "rankK sb X' Y' i j = (\<Sum>x<w. Get s AR i x * cnj (Get s AR j x))"
      if "i < Height C" "j < Height C" for i j
      using that by (simp add: rankK_def X' GetX GetY)
    have rkt: "rankK t (View A 0 k (Height A) w) (View A 0 k (Height A) w) i j =
        (\<Sum>x<w. Get s AR i x * cnj (Get s AR j x))" for i j
      by (simp add: rankK_def GetA) (simp add: Get_def AR add.assoc)
    have agA: "mem sc BufA = mem t1 BufA"
      using P memA agree C by (simp add: t1_def spec_add_panel_def)
    have agC: "mem sc BufC = mem t1 BufC"
    proof (intro ext)
      fix i j
      show "mem sc BufC i j = mem t1 BufC i j"
      proof (cases "inWindow C i j \<and> i - RowOffset C \<le> j - ColOffset C")
        case True
        then have b: "i - RowOffset C < Height C" "j - ColOffset C < Height C"
          using C by (auto simp: inWindow_def)
        have "mem sc BufC i j =
            mem sb BufC i j + alpha * rankK sb X' Y' (i - RowOffset C) (j - ColOffset C)"
          using P True by simp
        then show ?thesis
          using True by (simp add: t1_def mem_spec_add_panel C rk1[OF b] rkt memC agree)
      next
        case False
        have "mem sc BufC i j = mem sb BufC i j"
        proof (cases "inWindow C i j")
          case True
          with False have "\<not> i - RowOffset C \<le> j - ColOffset C" by simp
          with True P show ?thesis by blast
        next
          case False
          with P show ?thesis by blast
        qed
        then show ?thesis
          using False by (auto simp: t1_def mem_spec_add_panel C memC agree)
      qed
    qed
    have A2: "Buf A2 = Buf A" "RowOffset A2 = RowOffset A" "ColOffset A2 = ColOffset A + (k + w)"
      "Height A2 = Height A" "Width A2 = Width A - (k + w)" "Width A2 < Width AR"
      using AR w False by (simp_all add: A2_def)
    obtain s' where s': "HerkUN_loop release Blocksize alpha C X' Y'
          (View AL 0 0 (Height AL) (Width AL + w)) A2 sc = Some (Inr s')"
      and eqA: "mem s' BufA = mem (spec_panel_loop Blocksize alpha A C (k + w) t1) BufA"
      and eqC: "mem s' BufC = mem (spec_panel_loop Blocksize alpha A C (k + w) t1) BufC"
      and lp: "\<exists>new. calls s' = calls sc @ new \<and> (0 < Width A2 \<longrightarrow> new \<noteq> []) \<and>
        (\<forall>c\<in>set new. scale_applied c \<in> {None, Some 1})"
      using less.hyps[OF A2(6) A2(1-5) X'(1-3) Y'(1-3) agA agC] by blast
    have spec: "spec_panel_loop Blocksize alpha A C k t =
        spec_panel_loop Blocksize alpha A C (k + w) t1"
      using spec_panel_loop_step[OF w(3) nb, of alpha C t] by (simp add: t1_def w(4))
    have run: "HerkUN_loop release Blocksize alpha C X Y AL AR s = Some (Inr s')"
      using HerkUN_loop_step[OF _ w_def A1_def r1 r2, of release alpha AL] False sc s'
      by (simp add: A2_def)
    obtain n1 where n1: "calls sc = calls sb @ n1"
      "\<forall>c\<in>set n1. scale_applied c \<in> {None, Some 1}"
      using post unfolding update_post_def by auto
    obtain n2 where n2: "calls s' = calls sc @ n2"
      "\<forall>c\<in>set n2. scale_applied c \<in> {None, Some 1}"
      using lp by auto
    have lg: "\<exists>new. calls s' = calls s @ new \<and> (0 < Width AR \<longrightarrow> new \<noteq> []) \<and>
        (\<forall>c\<in>set new. scale_applied c \<in> {None, Some 1})"
    proof (intro exI conjI)
      show "calls s' = calls s @ (Redistribute_call X' A1 # Redistribute_call Y' X' # n1 @ n2)"
        by (simp add: n1 n2 f1(4) f2(4))
      show "0 < Width AR \<longrightarrow> Redistribute_call X' A1 # Redistribute_call Y' X' # n1 @ n2 \<noteq> []"
        by simp
      show "\<forall>c\<in>set (Redistribute_call X' A1 # Redistribute_call Y' X' # n1 @ n2).
          scale_applied c \<in> {None, Some 1}"
        using n1(2) n2(2) by (auto simp: X' Y')
    qed
    show ?thesis
      apply (rule exI[of _ s'])
      apply (intro conjI)
         apply (rule run)
        apply (simp only: spec eqA)
       apply (simp only: spec eqC)
      apply (rule lg)
      done
  qed
qed

lemma HerkUN_accumulates:
  assumes nb: "0 < Blocksize" and gw: "0 < gridWidth (GetGrid C)"
    and small: "2 * gridWidth (GetGrid C) * Blocksize < 2 ^ 31"
    and grid: "GetGrid A = GetGrid C"
    and dims: "Height A = Height C" "Width C = Height C"
    and C: "ColDist C = MC" "RowDist C = MR" "Buf C = BufC"
    and A: "Buf A = BufA \<or> Buf A = BufC"
  shows "\<exists>s'. HerkUN release Blocksize alpha A beta C s = Some (Inr s') \<and>
     mem s' BufA = mem (spec_panel_loop Blocksize alpha A C 0 (Scal beta C s)) BufA \<and>
     mem s' BufC = mem (spec_panel_loop Blocksize alpha A C 0 (Scal beta C s)) BufC \<and>
     (\<exists>rest. calls s' = calls s @ Scal_call beta C # rest \<and>
        (0 < Width A \<longrightarrow> rest \<noteq> []) \<and>
        (\<forall>c\<in>set rest. scale_applied c \<in> {None, Some 1}))"
proof -
  let ?AR = "View A 0 0 (Height A) (Width A)"
  let ?s0 = "Scal beta C s"
  have chk: "HerkUN_checks release A C = None"
    using grid dims by (simp add: HerkUN_checks_ok)
  have AR: "Buf ?AR = Buf A" "RowOffset ?AR = RowOffset A" "ColOffset ?AR = ColOffset A + 0"
    "Height ?AR = Height A" "Width ?AR = Width A - 0"
    by simp_all
  have X: "GetGrid (newDistMatrix (GetGrid A) MC Star BufA1_MC_Star) = GetGrid C"
    "ColDist (newDistMatrix (GetGrid A) MC Star BufA1_MC_Star) = MC"
    "Buf (newDistMatrix (GetGrid A) MC Star BufA1_MC_Star) = BufA1_MC_Star"
    and Y: "GetGrid (newDistMatrix (GetGrid A) MR Star BufA1_MR_Star) = GetGrid C"
    "ColDist (newDistMatrix (GetGrid A) MR Star BufA1_MR_Star) = MR"
    "Buf (newDistMatrix (GetGrid A) MR Star BufA1_MR_Star) = BufA1_MR_Star"
    using grid by (simp_all add: newDistMatrix_def)
  obtain s' where run: "HerkUN_loop release Blocksize alpha C
       (newDistMatrix (GetGrid A) MC Star BufA1_MC_Star)
       (newDistMatrix (GetGrid A) MR Star BufA1_MR_Star)
       (View A 0 0 (Height A) 0) ?AR ?s0 = Some (Inr s')"
    and eqA: "mem s' BufA = mem (spec_panel_loop Blocksize alpha A C 0 ?s0) BufA"
    and eqC: "mem s' BufC = mem (spec_panel_loop Blocksize alpha A C 0 ?s0) BufC"
    and lp: "\<exists>new. calls s' = calls ?s0 @ new \<and> (0 < Width ?AR \<longrightarrow> new \<noteq> []) \<and>
        (\<forall>c\<in>set new. scale_applied c \<in> {None, Some 1})"
    using HerkUN_loop_accumulates[OF nb gw small dims(2) C A dims(1) AR X Y refl refl,
        of release alpha "View A 0 0 (Height A) 0"]
    by blast
  obtain new where new: "calls s' = calls ?s0 @ new" "0 < Width A \<longrightarrow> new \<noteq> []"
    "\<forall>c\<in>set new. scale_applied c \<in> {None, Some 1}"
    using lp by auto
  have lg: "\<exists>rest. calls s' = calls s @ Scal_call beta C # rest \<and>
      (0 < Width A \<longrightarrow> rest \<noteq> []) \<and>
      (\<forall>c\<in>set rest. scale_applied c \<in> {None, Some 1})"
    using new by (intro exI[of _ new]) (simp add: calls_ops)
  have r: "HerkUN release Blocksize alpha A beta C s = Some (Inr s')"
    using run by (simp add: HerkUN_unfold[OF chk])
  show ?thesis
    apply (rule exI[of _ s'])
    apply (intro conjI)
       apply (rule r)
      apply (rule eqA)
     apply (rule eqC)
    apply (rule lg)
    done
qed

section \<open>The build without the entry checks\<close>

lemma HerkUNUpdate_checks_release: "HerkUNUpdate_checks True A B C = None"
  by (simp add: HerkUNUpdate_checks_def Let_def)

lemma kernel_returns:
  "HerkUNUpdate_checks release A B C = None \<Longrightarrow>
   \<exists>s'. HerkUNUpdateKernel release alpha A B beta C s = Inr s'"
  by (auto simp: HerkUNUpdateKernel_def Let_def split: prod.splits)

lemma HerkUNUpdate_release_Inr:
  assumes "HerkUNUpdate release Blocksize alpha A B beta C s = Some y"
  shows "release \<longrightarrow> (\<exists>s'. y = Inr s')"
proof (rule HerkUNUpdate.raw_induct[where P = "\<lambda>release Blocksize alpha A B beta C s y.
     release \<longrightarrow> (\<exists>s'. y = Inr s')", OF _ assms])
  fix f release Blocksize alpha A B beta C s y
  assume IH: "\<And>release Blocksize alpha A B beta C s y.
      f release Blocksize alpha A B beta C s = Some y \<Longrightarrow> release \<longrightarrow> (\<exists>s'. y = Inr s')"
    and eq: "(case HerkUNUpdate_checks release A B C of
      None \<Rightarrow>
        if int (Height C) < int32 (int32 (2 * int (gridWidth (GetGrid C))) * int Blocksize)
        then Some (HerkUNUpdateKernel release alpha A B beta C s)
        else let half = Height C div 2;
                 (AT_MC_Star, AB_MC_Star) = LockedPartitionDown A half;
                 (AT_MR_Star, AB_MR_Star) = LockedPartitionDown B half;
                 (CTL, CTR, CBL, CBR) = PartitionDownDiagonal C half;
                 s = Gemm Normal ConjugateTranspose alpha AT_MC_Star AB_MR_Star beta CTR s
             in Option.bind (f release Blocksize alpha AT_MC_Star AT_MR_Star beta CTL s)
                 (\<lambda>r. case r of Inl e \<Rightarrow> Some (Inl e)
                      | Inr s \<Rightarrow> f release Blocksize alpha AB_MC_Star AB_MR_Star beta CBR s)
      | Some e \<Rightarrow> Some (Inl e)) = Some y"
  show "release \<longrightarrow> (\<exists>s'. y = Inr s')"
  proof
    assume "release"
    then have r: "release = True" by simp
    show "\<exists>s'. y = Inr s'"
    proof (cases "int (Height C) < int32 (int32 (2 * int (gridWidth (GetGrid C))) * int Blocksize)")
      case True
      with eq have "y = HerkUNUpdateKernel True alpha A B beta C s"
        by (simp add: r HerkUNUpdate_checks_release)
      then show ?thesis
        using kernel_returns[OF HerkUNUpdate_checks_release, of alpha A B beta C s] by simp
    next
      case False
      with eq show ?thesis
        using IH
        by (auto simp: r HerkUNUpdate_checks_release Let_def
            split: prod.splits sum.splits Option.bind_splits)
    qed
  qed
qed

lemma HerkUN_loop_release_Inr:
  assumes "HerkUN_loop release Blocksize alpha C X Y AL AR s = Some y"
  shows "release \<longrightarrow> (\<exists>s'. y = Inr s')"
proof (rule HerkUN_loop.raw_induct[where P = "\<lambda>release Blocksize alpha C X Y AL AR s y.
     release \<longrightarrow> (\<exists>s'. y = Inr s')", OF _ assms])
  fix f release Blocksize alpha C X Y AL AR s y
  assume IH: "\<And>release Blocksize alpha C X Y AL AR s y.
      f release Blocksize alpha C X Y AL AR s = Some y \<Longrightarrow> release \<longrightarrow> (\<exists>s'. y = Inr s')"
    and eq: "(if 0 < Width AR
      then let (A0, A1, A2) = LockedRepartitionRight Blocksize AL AR;
               A1_MC_Star = AlignWith X C;
               A1_MR_Star = AlignWith Y C;
               (A1_MC_Star, s) = Redistribute A1_MC_Star A1 s;
               (A1_MR_Star, s) = Redistribute A1_MR_Star A1_MC_Star s
           in Option.bind (HerkUNUpdate release Blocksize alpha A1_MC_Star A1_MR_Star 1 C s)
               (\<lambda>r. case r of Inl e \<Rightarrow> Some (Inl e)
                    | Inr s \<Rightarrow>
                        let (AL, AR) = SlideLockedPartitionRight A0 A1 A2
                        in f release Blocksize alpha C A1_MC_Star A1_MR_Star AL AR s)
      else Some (Inr s)) = Some y"
  show "release \<longrightarrow> (\<exists>s'. y = Inr s')"
  proof (cases "0 < Width AR")
    case False
    with eq show ?thesis by auto
  next
    case True
    with eq show ?thesis
      using IH HerkUNUpdate_release_Inr
      by (auto simp: Let_def split: prod.splits sum.splits Option.bind_splits)
  qed
qed

lemma HerkUN_release_Inr:
  "HerkUN True Blocksize alpha A beta C s \<noteq> Some (Inl e)"
proof
  assume a: "HerkUN True Blocksize alpha A beta C s = Some (Inl e)"
  have "HerkUN_checks True A C = None" by (simp add: HerkUN_checks_ok)
  from a[unfolded HerkUN_unfold[OF this]] HerkUN_loop_release_Inr
  show False by fastforce
qed

section \<open>The threshold that is not positive\<close>

text \<open>When the block size or the grid width is zero, or their doubled product wraps around
  to a value that is not positive, the recursive update never returns normally: no height
  is below the threshold, and every level recurses.\<close>

lemma PartitionDownDiagonal_grid:
  "PartitionDownDiagonal C d = (CTL, CTR, CBL, CBR) \<Longrightarrow> GetGrid CTL = GetGrid C"
  by (auto simp: PartitionDownDiagonal_def Let_def)

lemma HerkUNUpdate_no_base_case:
  assumes "HerkUNUpdate release Blocksize alpha A B beta C s = Some y"
  shows "int32 (int32 (2 * int (gridWidth (GetGrid C))) * int Blocksize) \<le> 0 \<longrightarrow>
     (\<exists>e. y = Inl e)"
proof (rule HerkUNUpdate.raw_induct[where P = "\<lambda>release Blocksize alpha A B beta C s y.
     int32 (int32 (2 * int (gridWidth (GetGrid C))) * int Blocksize) \<le> 0 \<longrightarrow>
     (\<exists>e. y = Inl e)", OF _ assms])
  fix f release Blocksize alpha A B beta C s y
  assume IH: "\<And>release Blocksize alpha A B beta C s y.
      f release Blocksize alpha A B beta C s = Some y \<Longrightarrow>
      int32 (int32 (2 * int (gridWidth (GetGrid C))) * int Blocksize) \<le> 0 \<longrightarrow>
      (\<exists>e. y = Inl e)"
    and eq: "(case HerkUNUpdate_checks release A B C of
      None \<Rightarrow>
        if int (Height C) < int32 (int32 (2 * int (gridWidth (GetGrid C))) * int Blocksize)
        then Some (HerkUNUpdateKernel release alpha A B beta C s)
        else let half = Height C div 2;
                 (AT_MC_Star, AB_MC_Star) = LockedPartitionDown A half;
                 (AT_MR_Star, AB_MR_Star) = LockedPartitionDown B half;
                 (CTL, CTR, CBL, CBR) = PartitionDownDiagonal C half;
                 s = Gemm Normal ConjugateTranspose alpha AT_MC_Star AB_MR_Star beta CTR s
             in Option.bind (f release Blocksize alpha AT_MC_Star AT_MR_Star beta CTL s)
                 (\<lambda>r. case r of Inl e \<Rightarrow> Some (Inl e)
                      | Inr s \<Rightarrow> f release Blocksize alpha AB_MC_Star AB_MR_Star beta CBR s)
      | Some e \<Rightarrow> Some (Inl e)) = Some y"
  show "int32 (int32 (2 * int (gridWidth (GetGrid C))) * int Blocksize) \<le> 0 \<longrightarrow>
     (\<exists>e. y = Inl e)"
  proof
    assume t: "int32 (int32 (2 * int (gridWidth (GetGrid C))) * int Blocksize) \<le> 0"
    then have n: "\<not> int (Height C) <
        int32 (int32 (2 * int (gridWidth (GetGrid C))) * int Blocksize)"
      by linarith
    show "\<exists>e. y = Inl e"
    proof (cases "HerkUNUpdate_checks release A B C")
      case (Some e)
      with eq show ?thesis by auto
    next
      case None
      obtain CTL CTR CBL CBR where
        p: "PartitionDownDiagonal C (Height C div 2) = (CTL, CTR, CBL, CBR)"
        by (metis prod_cases4)
      have g: "GetGrid CTL = GetGrid C" by (rule PartitionDownDiagonal_grid[OF p])
      have ih: "f release Blocksize alpha A' B' beta CTL s' \<noteq> Some (Inr x)" for A' B' s' x
        using IH[of release Blocksize alpha A' B' beta CTL s' "Inr x"] t g by auto
      from eq None n p show ?thesis
        by (auto simp: Let_def ih split: prod.splits sum.splits Option.bind_splits)
    qed
  qed
qed

lemma HerkUNUpdate_does_not_return:
  assumes "int32 (int32 (2 * int (gridWidth (GetGrid C))) * int Blocksize) \<le> 0"
  shows "HerkUNUpdate True Blocksize alpha A B beta C s = None"
proof (cases "HerkUNUpdate True Blocksize alpha A B beta C s")
  case None
  then show ?thesis .
next
  case (Some y)
  from HerkUNUpdate_no_base_case[OF Some] assms obtain e where "y = Inl e" by blast
  moreover from HerkUNUpdate_release_Inr[OF Some] obtain s' where "y = Inr s'" by blast
  ultimately show ?thesis by simp
qed

lemma threshold_wraps: "int32 (int32 (2 * int 1) * int (2 ^ 30)) = - (2 ^ 31)"
  by (simp add: int32_def)

section \<open>The claims about the Hermitian rank-k update\<close>




lemma small_operands: "herk_operands small_A_MC_Star small_A_MR_Star small_C"
  by (simp add: herk_operands_def small_A_MC_Star_def small_A_MR_Star_def small_C_def
      newDistMatrix_def)

text \<open>Claim C2. For every panel in its two layouts, every \<open>alpha\<close>, \<open>beta\<close> and block \<open>C\<close>,
  the recursive update (which splits at \<open>m div 2\<close>, multiplies into the top-right quadrant
  and recurses on the two diagonal quadrants while the height is at least twice the grid
  width times the block size) and the base-case kernel applied to the whole block both
  return, and they leave equal values in the upper triangle of \<open>C\<close>, whatever the block
  size, hence wherever the threshold stops the recursion. The block size and the grid width
  are positive and twice their product is below \<open>2^31\<close>, so that the threshold, which the
  source computes in \<open>int\<close>, does not overflow.\<close>

theorem HerkUNUpdate_recursion_agrees_with_kernel:
  assumes "0 < Blocksize" and "0 < gridWidth (GetGrid C)"
    and "2 * gridWidth (GetGrid C) * Blocksize < 2 ^ 31"
    and "herk_operands A_MC_Star A_MR_Star C"
  shows "\<exists>s1 s2.
     HerkUNUpdate release Blocksize alpha A_MC_Star A_MR_Star beta C s = Some (Inr s1) \<and>
     HerkUNUpdateKernel release alpha A_MC_Star A_MR_Star beta C s = Inr s2 \<and>
     (\<forall>i j. i \<le> j \<and> j < Height C \<longrightarrow> Get s1 C i j = Get s2 C i j)"
proof -
  have C: "Buf C = BufC" "Width C = Height C"
    using assms(4) by (simp_all add: herk_operands_def)
  obtain s1 where s1: "HerkUNUpdate release Blocksize alpha A_MC_Star A_MR_Star beta C s = Some (Inr s1)"
    and p1: "update_post alpha A_MC_Star A_MR_Star beta C s s1"
    using HerkUNUpdate_post[OF assms, of release alpha beta s] by blast
  obtain s2 where s2: "HerkUNUpdateKernel release alpha A_MC_Star A_MR_Star beta C s = Inr s2"
    and p2: "update_post alpha A_MC_Star A_MR_Star beta C s s2"
    using kernel_post[OF assms(4), of release alpha beta s] by blast
  have "Get s1 C i j = Get s2 C i j" if "i \<le> j" "j < Height C" for i j
  proof -
    have w: "inWindow C (RowOffset C + i) (ColOffset C + j)"
      using that C by (simp add: inWindow_def)
    have u: "RowOffset C + i - RowOffset C \<le> ColOffset C + j - ColOffset C"
      using that by simp
    have "mem s1 BufC (RowOffset C + i) (ColOffset C + j) =
          mem s2 BufC (RowOffset C + i) (ColOffset C + j)"
      using p1 p2 w u unfolding update_post_def by metis
    then show ?thesis by (simp add: Get_def C)
  qed
  with s1 s2 show ?thesis by blast
qed

theorem HerkUNUpdate_recursion_agrees_with_kernel_witness:
  "0 < (1::nat) \<and> 0 < gridWidth (GetGrid small_C) \<and>
   2 * gridWidth (GetGrid small_C) * 1 < 2 ^ 31 \<and>
   herk_operands small_A_MC_Star small_A_MR_Star small_C \<and>
   2 * gridWidth (GetGrid small_C) * 1 \<le> Height small_C \<and>
   (\<exists>s1 s2.
     HerkUNUpdate False 1 2 small_A_MC_Star small_A_MR_Star 3 small_C small_mem = Some (Inr s1) \<and>
     HerkUNUpdateKernel False 2 small_A_MC_Star small_A_MR_Star 3 small_C small_mem = Inr s2 \<and>
     Get s1 small_C 0 1 = Get s2 small_C 0 1)"
proof -
  have h: "0 < (1::nat)" "0 < gridWidth (GetGrid small_C)"
    "2 * gridWidth (GetGrid small_C) * 1 < 2 ^ 31"
    by (simp_all add: small_C_def newDistMatrix_def grid1x1_def)
  have b: "2 * gridWidth (GetGrid small_C) * 1 \<le> Height small_C" "(0::nat) \<le> 1 \<and> 1 < Height small_C"
    by (simp_all add: small_C_def newDistMatrix_def grid1x1_def)
  obtain s1 s2 where
    r: "HerkUNUpdate False 1 2 small_A_MC_Star small_A_MR_Star 3 small_C small_mem = Some (Inr s1)"
      "HerkUNUpdateKernel False 2 small_A_MC_Star small_A_MR_Star 3 small_C small_mem = Inr s2"
    and e: "\<forall>i j. i \<le> j \<and> j < Height small_C \<longrightarrow> Get s1 small_C i j = Get s2 small_C i j"
    using HerkUNUpdate_recursion_agrees_with_kernel[OF h small_operands, of False 2 3 small_mem]
    by blast
  have "Get s1 small_C 0 1 = Get s2 small_C 0 1"
    using e b(2) by blast
  with r have x: "\<exists>s1 s2.
     HerkUNUpdate False 1 2 small_A_MC_Star small_A_MR_Star 3 small_C small_mem = Some (Inr s1) \<and>
     HerkUNUpdateKernel False 2 small_A_MC_Star small_A_MR_Star 3 small_C small_mem = Inr s2 \<and>
     Get s1 small_C 0 1 = Get s2 small_C 0 1"
    by blast
  show ?thesis by (intro conjI) (rule h small_operands b(1) x)+
qed

text \<open>Claim C8. After every call of \<open>HerkUN\<close> each entry of \<open>C\<close> strictly below the
  diagonal is exactly \<open>beta\<close> times its old value: the first scaling multiplies both
  triangles, and the masked updates add nothing below the diagonal. This holds whether \<open>A\<close>
  has storage of its own or shares that of \<open>C\<close>. The call returns: the block size and the
  grid width are positive and twice their product is below \<open>2^31\<close>.\<close>

theorem HerkUN_strictly_lower_triangle:
  assumes "0 < Blocksize" and "0 < gridWidth (GetGrid C)"
    and "2 * gridWidth (GetGrid C) * Blocksize < 2 ^ 31"
    and "GetGrid A = GetGrid C"
    and "Height A = Height C" and "Width C = Height C"
    and "ColDist C = MC" and "RowDist C = MR" and "Buf C = BufC"
    and "Buf A = BufA \<or> Buf A = BufC"
  shows "\<exists>s'. HerkUN release Blocksize alpha A beta C s = Some (Inr s') \<and>
     (\<forall>i j. j < i \<and> i < Height C \<longrightarrow> Get s' C i j = beta * Get s C i j)"
proof -
  obtain s' where run: "HerkUN release Blocksize alpha A beta C s = Some (Inr s')"
    and eq: "mem s' BufC =
      mem (spec_panel_loop Blocksize alpha A C 0 (Scal beta C s)) BufC"
    using HerkUN_accumulates[OF assms, of release alpha beta s] by blast
  have "Get s' C i j = beta * Get s C i j" if "j < i" "i < Height C" for i j
  proof -
    have w: "inWindow C (RowOffset C + i) (ColOffset C + j)"
      using that assms(6) by (simp add: inWindow_def)
    have "Get s' C i j =
        mem (spec_panel_loop Blocksize alpha A C 0 (Scal beta C s)) BufC
          (RowOffset C + i) (ColOffset C + j)"
      by (simp add: Get_def assms(9) eq)
    also have "\<dots> = mem (Scal beta C s) BufC (RowOffset C + i) (ColOffset C + j)"
      using that by (intro spec_panel_loop_frame) simp
    also have "\<dots> = beta * Get s C i j"
      using w by (simp add: mem_Scal assms(9) Get_def)
    finally show ?thesis .
  qed
  with run show ?thesis by blast
qed

theorem HerkUN_strictly_lower_triangle_witness:
  "0 < (2::nat) \<and> 0 < gridWidth (GetGrid scenario_C) \<and>
   2 * gridWidth (GetGrid scenario_C) * 2 < 2 ^ 31 \<and>
   GetGrid scenario_A = GetGrid scenario_C \<and>
   Height scenario_A = Height scenario_C \<and> Width scenario_C = Height scenario_C \<and>
   ColDist scenario_C = MC \<and> RowDist scenario_C = MR \<and> Buf scenario_C = BufC \<and>
   Buf scenario_A = BufA \<and>
   (\<exists>s'. HerkUN False 2 1 scenario_A 3 scenario_C scenario_mem = Some (Inr s') \<and>
      Get s' scenario_C 2 1 = 63) \<and>
   (\<exists>s'. HerkUN False 2 1 scenario_C 3 scenario_C scenario_mem = Some (Inr s') \<and>
      Get s' scenario_C 2 1 = 63)"
proof -
  have h: "0 < (2::nat)" "0 < gridWidth (GetGrid scenario_C)"
    "2 * gridWidth (GetGrid scenario_C) * 2 < 2 ^ 31"
    "GetGrid scenario_A = GetGrid scenario_C"
    "Height scenario_A = Height scenario_C" "Width scenario_C = Height scenario_C"
    "ColDist scenario_C = MC" "RowDist scenario_C = MR" "Buf scenario_C = BufC"
    by (simp_all add: scenario_A_def scenario_C_def newDistMatrix_def grid2x2_def)
  have a: "Buf scenario_A = BufA" "Buf scenario_A = BufA \<or> Buf scenario_A = BufC"
    "Buf scenario_C = BufA \<or> Buf scenario_C = BufC"
    by (simp_all add: scenario_A_def scenario_C_def newDistMatrix_def)
  have v: "3 * Get scenario_mem scenario_C 2 1 = 63" "(1::nat) < 2 \<and> 2 < Height scenario_C"
    by (simp_all add: scenario_C_def scenario_mem_def newDistMatrix_def Get_def)
  obtain s' where run: "HerkUN False 2 1 scenario_A 3 scenario_C scenario_mem = Some (Inr s')"
    and ent: "\<forall>i j. j < i \<and> i < Height scenario_C \<longrightarrow>
        Get s' scenario_C i j = 3 * Get scenario_mem scenario_C i j"
    using HerkUN_strictly_lower_triangle[OF h a(2), of False 1 3 scenario_mem] by blast
  have "Get s' scenario_C 2 1 = 3 * Get scenario_mem scenario_C 2 1"
    using ent v(2) by blast
  with run v(1) have r1: "\<exists>s'. HerkUN False 2 1 scenario_A 3 scenario_C scenario_mem = Some (Inr s') \<and>
      Get s' scenario_C 2 1 = 63"
    by simp
  obtain s'' where run': "HerkUN False 2 1 scenario_C 3 scenario_C scenario_mem = Some (Inr s'')"
    and ent': "\<forall>i j. j < i \<and> i < Height scenario_C \<longrightarrow>
        Get s'' scenario_C i j = 3 * Get scenario_mem scenario_C i j"
    using HerkUN_strictly_lower_triangle[OF h(1,2,3) refl refl h(6,7,8,9) a(3),
        of False 1 3 scenario_mem]
    by blast
  have "Get s'' scenario_C 2 1 = 3 * Get scenario_mem scenario_C 2 1"
    using ent' v(2) by blast
  with run' v(1) have r2: "\<exists>s'. HerkUN False 2 1 scenario_C 3 scenario_C scenario_mem = Some (Inr s') \<and>
      Get s' scenario_C 2 1 = 63"
    by simp
  show ?thesis by (intro conjI) (rule h a(1) r1 r2)+
qed






text \<open>Claim C4. In \<open>HerkUN\<close> the matrix \<open>C\<close> is scaled in place by \<open>beta\<close> once, before
  any panel of \<open>A\<close> is processed: the scaling of the whole of \<open>C\<close> is the first call the
  routine makes. Every call after it (and there are such calls when \<open>A\<close> has a column)
  either does not write \<open>C\<close> or applies the inner factor one to the entries of \<open>C\<close> it
  writes, so no panel rescales \<open>C\<close> by the caller's \<open>beta\<close> again. What the call leaves in
  the storage of \<open>C\<close> is what the scaling followed by the accumulation of every panel in
  turn, each with the inner factor one, leaves there. This holds whether \<open>A\<close> has storage
  of its own or shares that of \<open>C\<close>. The call returns: the block size and the grid width
  are positive and twice their product is below \<open>2^31\<close>.\<close>

theorem HerkUN_scales_once:
  assumes "0 < Blocksize" and "0 < gridWidth (GetGrid C)"
    and "2 * gridWidth (GetGrid C) * Blocksize < 2 ^ 31"
    and "GetGrid A = GetGrid C"
    and "Height A = Height C" and "Width C = Height C"
    and "ColDist C = MC" and "RowDist C = MR" and "Buf C = BufC"
    and "Buf A = BufA \<or> Buf A = BufC"
  shows "\<exists>s' rest. HerkUN release Blocksize alpha A beta C s = Some (Inr s') \<and>
     calls s' = calls s @ Scal_call beta C # rest \<and>
     (0 < Width A \<longrightarrow> rest \<noteq> []) \<and>
     (\<forall>c\<in>set rest. scale_applied c = None \<or> scale_applied c = Some 1) \<and>
     mem s' BufC = mem (spec_panel_loop Blocksize alpha A C 0 (Scal beta C s)) BufC"
proof -
  obtain s' where P: "HerkUN release Blocksize alpha A beta C s = Some (Inr s') \<and>
     mem s' BufA = mem (spec_panel_loop Blocksize alpha A C 0 (Scal beta C s)) BufA \<and>
     mem s' BufC = mem (spec_panel_loop Blocksize alpha A C 0 (Scal beta C s)) BufC \<and>
     (\<exists>rest. calls s' = calls s @ Scal_call beta C # rest \<and>
        (0 < Width A \<longrightarrow> rest \<noteq> []) \<and>
        (\<forall>c\<in>set rest. scale_applied c \<in> {None, Some 1}))"
    using HerkUN_accumulates[OF assms, of release alpha beta s]
    by (elim exE) (rule that)
  note run = P[THEN conjunct1] and eq = P[THEN conjunct2, THEN conjunct2, THEN conjunct1]
    and lg = P[THEN conjunct2, THEN conjunct2, THEN conjunct2]
  from lg obtain rest where rest: "calls s' = calls s @ Scal_call beta C # rest"
    "0 < Width A \<longrightarrow> rest \<noteq> []"
    "\<forall>c\<in>set rest. scale_applied c = None \<or> scale_applied c = Some 1"
    by auto
  show ?thesis
    apply (rule exI[of _ s'])
    apply (rule exI[of _ rest])
    apply (intro conjI)
        apply (rule run)
       apply (rule rest(1))
      apply (rule rest(2))
     apply (rule rest(3))
    apply (rule eq)
    done
qed

theorem HerkUN_scales_once_witness:
  "0 < (2::nat) \<and> 0 < gridWidth (GetGrid scenario_C) \<and>
   2 * gridWidth (GetGrid scenario_C) * 2 < 2 ^ 31 \<and>
   GetGrid scenario_A = GetGrid scenario_C \<and>
   Height scenario_A = Height scenario_C \<and> Width scenario_C = Height scenario_C \<and>
   ColDist scenario_C = MC \<and> RowDist scenario_C = MR \<and> Buf scenario_C = BufC \<and>
   Buf scenario_A = BufA \<and> 0 < Width scenario_A \<and>
   (\<exists>s' rest. HerkUN False 2 1 scenario_A 5 scenario_C scenario_mem = Some (Inr s') \<and>
      calls s' = Scal_call 5 scenario_C # rest \<and> rest \<noteq> [] \<and>
      (\<forall>c\<in>set rest. scale_applied c = None \<or> scale_applied c = Some 1) \<and>
      Get s' scenario_C 1 2 = 100 \<and> Get s' scenario_C 2 1 = 105)"
proof -
  have h: "0 < (2::nat)" "0 < gridWidth (GetGrid scenario_C)"
    "2 * gridWidth (GetGrid scenario_C) * 2 < 2 ^ 31"
    "GetGrid scenario_A = GetGrid scenario_C"
    "Height scenario_A = Height scenario_C" "Width scenario_C = Height scenario_C"
    "ColDist scenario_C = MC" "RowDist scenario_C = MR" "Buf scenario_C = BufC"
    by (simp_all add: scenario_A_def scenario_C_def newDistMatrix_def grid2x2_def)
  have a: "Buf scenario_A = BufA" "Buf scenario_A = BufA \<or> Buf scenario_A = BufC"
    by (simp_all add: scenario_A_def newDistMatrix_def)
  have w: "0 < Width scenario_A" "calls scenario_mem = []"
    by (simp_all add: scenario_A_def scenario_mem_def)
  obtain s' rest where r: "HerkUN False 2 1 scenario_A 5 scenario_C scenario_mem = Some (Inr s')"
    "calls s' = calls scenario_mem @ Scal_call 5 scenario_C # rest"
    "0 < Width scenario_A \<longrightarrow> rest \<noteq> []"
    "\<forall>c\<in>set rest. scale_applied c = None \<or> scale_applied c = Some 1"
    "mem s' BufC =
       mem (spec_panel_loop 2 1 scenario_A scenario_C 0 (Scal 5 scenario_C scenario_mem)) BufC"
    using HerkUN_scales_once[OF h a(2), of False 1 5 scenario_mem]
    by (elim exE conjE) (rule that)
  have c: "calls s' = Scal_call 5 scenario_C # rest" "rest \<noteq> []"
    using r(2,3) w by simp_all
  have d: "Width scenario_A = 4" "Height scenario_A = 6"
    by (simp_all add: scenario_A_def)
  have sp: "spec_panel_loop 2 1 scenario_A scenario_C 0 (Scal 5 scenario_C scenario_mem) =
      spec_add_panel 1 (View scenario_A 0 2 6 2) 1 scenario_C
        (spec_add_panel 1 (View scenario_A 0 0 6 2) 1 scenario_C (Scal 5 scenario_C scenario_mem))"
    by (simp add: spec_panel_loop_step spec_panel_loop_done d) (simp add: numeral_2_eq_2)
  have f: "Buf scenario_C = BufC" "Buf scenario_A = BufA" "RowOffset scenario_C = 0"
    "ColOffset scenario_C = 0" "RowOffset scenario_A = 0" "ColOffset scenario_A = 0"
    "Height scenario_C = 6" "Width scenario_C = 6"
    by (simp_all add: scenario_A_def scenario_C_def newDistMatrix_def)
  have s0: "mem (Scal 5 scenario_C scenario_mem) BufA i j = of_nat (i + j)" for i j
    by (simp add: mem_Scal f scenario_mem_def)
  have e1: "Get s' scenario_C 1 2 = 100"
    by (simp add: Get_def f r(5) sp mem_spec_add_panel mem_Scal rankK_def inWindow_def s0
        lessThan_nat_numeral lessThan_Suc)
      (simp add: scenario_mem_def)
  have e2: "Get s' scenario_C 2 1 = 105"
    by (simp add: Get_def f r(5) sp mem_spec_add_panel mem_Scal inWindow_def)
      (simp add: scenario_mem_def)
  have e: "\<exists>s' rest. HerkUN False 2 1 scenario_A 5 scenario_C scenario_mem = Some (Inr s') \<and>
      calls s' = Scal_call 5 scenario_C # rest \<and> rest \<noteq> [] \<and>
      (\<forall>c\<in>set rest. scale_applied c = None \<or> scale_applied c = Some 1) \<and>
      Get s' scenario_C 1 2 = 100 \<and> Get s' scenario_C 2 1 = 105"
    apply (rule exI[of _ s'])
    apply (rule exI[of _ rest])
    apply (intro conjI)
         apply (rule r(1))
        apply (rule c(1))
       apply (rule c(2))
      apply (rule r(4))
     apply (rule e1)
    apply (rule e2)
    done
  show ?thesis
    by (intro conjI) (rule h a(1) w(1) e)+
qed

text \<open>Claim C6, as amended. Built without \<open>RELEASE\<close>, \<open>HerkUN\<close> throws for every call
  whose operands are on different grids, the process of rank zero having written the
  same-grid message; for every call on one grid with nonconformal operands it throws, the
  process of rank zero having written the four offending dimensions; for conformal operands
  on one grid neither error is raised and the call returns, the block size and the grid
  width being positive and twice their product below \<open>2^31\<close>, whether \<open>A\<close> has storage of
  its own or shares that of \<open>C\<close>. Built with \<open>RELEASE\<close> the entry checks are absent and no
  call raises such an error, whatever its operands.\<close>

theorem HerkUN_entry_checks:
  "(\<not> release \<and> GetGrid A \<noteq> GetGrid C \<longrightarrow>
      HerkUN release Blocksize alpha A beta C s =
        Some (Inl (Exception (if VCRank (GetGrid A) = 0 then [SameGridMsg] else [])))) \<and>
   (\<not> release \<and> GetGrid A = GetGrid C \<and> (Height A \<noteq> Height C \<or> Height A \<noteq> Width C) \<longrightarrow>
      HerkUN release Blocksize alpha A beta C s =
        Some (Inl (Exception (if VCRank (GetGrid A) = 0
           then [NonconformalHerkUN (Height A) (Width A) (Height C) (Width C)] else [])))) \<and>
   (GetGrid A = GetGrid C \<and> Height A = Height C \<and> Height A = Width C \<and>
    0 < Blocksize \<and> 0 < gridWidth (GetGrid C) \<and>
    2 * gridWidth (GetGrid C) * Blocksize < 2 ^ 31 \<and>
    ColDist C = MC \<and> RowDist C = MR \<and> Buf C = BufC \<and> (Buf A = BufA \<or> Buf A = BufC) \<longrightarrow>
      (\<exists>s'. HerkUN release Blocksize alpha A beta C s = Some (Inr s'))) \<and>
   (release \<longrightarrow> (\<forall>e. HerkUN release Blocksize alpha A beta C s \<noteq> Some (Inl e)))"
proof (intro conjI impI allI)
  assume "\<not> release \<and> GetGrid A \<noteq> GetGrid C"
  then show "HerkUN release Blocksize alpha A beta C s =
        Some (Inl (Exception (if VCRank (GetGrid A) = 0 then [SameGridMsg] else [])))"
    by (simp add: HerkUN_def HerkUN_checks_def Let_def)
next
  assume "\<not> release \<and> GetGrid A = GetGrid C \<and> (Height A \<noteq> Height C \<or> Height A \<noteq> Width C)"
  then show "HerkUN release Blocksize alpha A beta C s =
        Some (Inl (Exception (if VCRank (GetGrid A) = 0
           then [NonconformalHerkUN (Height A) (Width A) (Height C) (Width C)] else [])))"
    by (simp add: HerkUN_def HerkUN_checks_def Let_def)
next
  assume a: "GetGrid A = GetGrid C \<and> Height A = Height C \<and> Height A = Width C \<and>
    0 < Blocksize \<and> 0 < gridWidth (GetGrid C) \<and>
    2 * gridWidth (GetGrid C) * Blocksize < 2 ^ 31 \<and>
    ColDist C = MC \<and> RowDist C = MR \<and> Buf C = BufC \<and> (Buf A = BufA \<or> Buf A = BufC)"
  then have b: "0 < Blocksize" "0 < gridWidth (GetGrid C)"
    "2 * gridWidth (GetGrid C) * Blocksize < 2 ^ 31" "GetGrid A = GetGrid C"
    "Height A = Height C" "Width C = Height C" "ColDist C = MC" "RowDist C = MR"
    "Buf C = BufC" "Buf A = BufA \<or> Buf A = BufC"
    by simp_all
  obtain s' where P: "HerkUN release Blocksize alpha A beta C s = Some (Inr s') \<and>
     mem s' BufA = mem (spec_panel_loop Blocksize alpha A C 0 (Scal beta C s)) BufA \<and>
     mem s' BufC = mem (spec_panel_loop Blocksize alpha A C 0 (Scal beta C s)) BufC \<and>
     (\<exists>rest. calls s' = calls s @ Scal_call beta C # rest \<and>
        (0 < Width A \<longrightarrow> rest \<noteq> []) \<and>
        (\<forall>c\<in>set rest. scale_applied c \<in> {None, Some 1}))"
    using HerkUN_accumulates[OF b, of release alpha beta s]
    by (elim exE) (rule that)
  show "\<exists>s'. HerkUN release Blocksize alpha A beta C s = Some (Inr s')"
    by (rule exI[of _ s']) (rule P[THEN conjunct1])
next
  fix e
  assume release
  then have "release = True" by simp
  then show "HerkUN release Blocksize alpha A beta C s \<noteq> Some (Inl e)"
    by (simp add: HerkUN_release_Inr)
qed

theorem HerkUN_entry_checks_witness:
  "GetGrid foreign_A \<noteq> GetGrid scenario_C \<and>
   HerkUN False 2 1 foreign_A 1 scenario_C scenario_mem = Some (Inl (Exception [SameGridMsg])) \<and>
   GetGrid thin_A = GetGrid scenario_C \<and> Height thin_A \<noteq> Height scenario_C \<and>
   HerkUN False 2 1 thin_A 1 scenario_C scenario_mem =
     Some (Inl (Exception [NonconformalHerkUN 1 0 6 6])) \<and>
   GetGrid scenario_A = GetGrid scenario_C \<and> Height scenario_A = Height scenario_C \<and>
   Height scenario_A = Width scenario_C \<and> 0 < gridWidth (GetGrid scenario_C) \<and>
   2 * gridWidth (GetGrid scenario_C) * 2 < 2 ^ 31 \<and>
   (\<exists>s'. HerkUN False 2 1 scenario_A 1 scenario_C scenario_mem = Some (Inr s')) \<and>
   HerkUN True 2 1 thin_A 1 scenario_C scenario_mem \<noteq>
     Some (Inl (Exception [NonconformalHerkUN 1 0 6 6]))"
proof -
  have g: "GetGrid foreign_A \<noteq> GetGrid scenario_C" "VCRank (GetGrid foreign_A) = 0"
    "GetGrid thin_A = GetGrid scenario_C" "Height thin_A \<noteq> Height scenario_C"
    "VCRank (GetGrid thin_A) = 0"
    "Height thin_A = 1" "Width thin_A = 0" "Height scenario_C = 6" "Width scenario_C = 6"
    "GetGrid scenario_A = GetGrid scenario_C" "Height scenario_A = Height scenario_C"
    "Height scenario_A = Width scenario_C" "0 < gridWidth (GetGrid scenario_C)"
    "2 * gridWidth (GetGrid scenario_C) * 2 < 2 ^ 31"
    "ColDist scenario_C = MC" "RowDist scenario_C = MR"
    "Buf scenario_C = BufC" "Buf scenario_A = BufA"
    by (simp_all add: foreign_A_def thin_A_def scenario_A_def scenario_C_def newDistMatrix_def
        grid2x2_def other_grid_def)
  note t1 = HerkUN_entry_checks[of False foreign_A scenario_C 2 1 1 scenario_mem]
  note t2 = HerkUN_entry_checks[of False thin_A scenario_C 2 1 1 scenario_mem]
  note t3 = HerkUN_entry_checks[of False scenario_A scenario_C 2 1 1 scenario_mem]
  note t4 = HerkUN_entry_checks[of True thin_A scenario_C 2 1 1 scenario_mem]
  have 1: "HerkUN False 2 1 foreign_A 1 scenario_C scenario_mem =
      Some (Inl (Exception [SameGridMsg]))"
    using t1 g(1,2) by simp
  have 2: "HerkUN False 2 1 thin_A 1 scenario_C scenario_mem =
     Some (Inl (Exception [NonconformalHerkUN 1 0 6 6]))"
    using t2 g(3-9) by simp
  have 3: "\<exists>s'. HerkUN False 2 1 scenario_A 1 scenario_C scenario_mem = Some (Inr s')"
    using t3 g(10-18) by simp
  have 4: "HerkUN True 2 1 thin_A 1 scenario_C scenario_mem \<noteq>
     Some (Inl (Exception [NonconformalHerkUN 1 0 6 6]))"
    using t4 by simp
  show ?thesis by (intro conjI) (rule 1 2 3 4 g(1,3,4,10-14))+
qed

text \<open>The claim as stated fails. Built with \<open>RELEASE\<close>, a call with a one-row \<open>A\<close> and
  a six by six \<open>C\<close> returns normally, having scaled \<open>C\<close>. Built without it, a call whose
  operands are nonconformal and on different grids throws with the same-grid message only:
  the dimensions are not reported.\<close>

theorem HerkUN_release_build_skips_checks:
  "Height thin_A \<noteq> Height scenario_C \<and>
   HerkUN True 2 1 thin_A 1 scenario_C scenario_mem = Some (Inr (Scal 1 scenario_C scenario_mem)) \<and>
   GetGrid foreign_A \<noteq> GetGrid scenario_C \<and> Height foreign_A \<noteq> Height scenario_C \<and>
   HerkUN False 2 1 foreign_A 1 scenario_C scenario_mem = Some (Inl (Exception [SameGridMsg]))"
proof -
  have g: "Height thin_A \<noteq> Height scenario_C" "GetGrid foreign_A \<noteq> GetGrid scenario_C"
    "Height foreign_A \<noteq> Height scenario_C" "VCRank (GetGrid foreign_A) = 0"
    by (simp_all add: foreign_A_def thin_A_def scenario_C_def newDistMatrix_def
        grid2x2_def other_grid_def)
  have w: "Width (View thin_A 0 0 (Height thin_A) (Width thin_A)) = 0"
    by (simp add: thin_A_def)
  have 1: "HerkUN True 2 1 thin_A 1 scenario_C scenario_mem =
      Some (Inr (Scal 1 scenario_C scenario_mem))"
    by (simp add: HerkUN_unfold HerkUN_checks_ok HerkUN_loop_done[OF w])
  have 2: "HerkUN False 2 1 foreign_A 1 scenario_C scenario_mem =
      Some (Inl (Exception [SameGridMsg]))"
    using g by (simp add: HerkUN_def HerkUN_checks_def Let_def)
  show ?thesis by (intro conjI) (rule g(1-3) 1 2)+
qed

section \<open>Properties of the interior-point loop\<close>

lemma IPF_loop_iter:
  "IPF_loop N ctrl n st v =
     (if n \<le> maxIts ctrl
      then (case IPF_iteration N ctrl n st of
              Inl r \<Rightarrow> (r, v @ [(n, st)])
            | Inr st' \<Rightarrow> IPF_loop N ctrl (n + 1) st' (v @ [(n, st)]))
      else (Inr st, v))"
  by (subst IPF_loop.simps) (simp add: IPF_iteration_def Let_def split: option.splits)

lemma IPF_loop_acc:
  "IPF_loop N ctrl n st v = (fst (IPF_loop N ctrl n st []), v @ snd (IPF_loop N ctrl n st []))"
proof (induction "nat (maxIts ctrl + 1 - n)" arbitrary: n st v rule: less_induct)
  case less
  show ?case
  proof (cases "n \<le> maxIts ctrl")
    case False
    then show ?thesis by (simp add: IPF_loop_iter[of N ctrl n])
  next
    case True
    show ?thesis
    proof (cases "IPF_iteration N ctrl n st")
      case (Inl r)
      with True show ?thesis by (simp add: IPF_loop_iter[of N ctrl n])
    next
      case (Inr st')
      have m: "nat (maxIts ctrl + 1 - (n + 1)) < nat (maxIts ctrl + 1 - n)"
        using True by simp
      have a: "IPF_loop N ctrl (n + 1) st' (v @ [(n, st)]) =
          (fst (IPF_loop N ctrl (n + 1) st' []), (v @ [(n, st)]) @ snd (IPF_loop N ctrl (n + 1) st' []))"
        by (rule less.hyps[OF m])
      have b: "IPF_loop N ctrl (n + 1) st' [(n, st)] =
          (fst (IPF_loop N ctrl (n + 1) st' []), [(n, st)] @ snd (IPF_loop N ctrl (n + 1) st' []))"
        by (rule less.hyps[OF m])
      have l: "IPF_loop N ctrl n st v = IPF_loop N ctrl (n + 1) st' (v @ [(n, st)])"
        using True Inr by (simp add: IPF_loop_iter[of N ctrl n])
      have r: "IPF_loop N ctrl n st [] = IPF_loop N ctrl (n + 1) st' [(n, st)]"
        using True Inr by (simp add: IPF_loop_iter[of N ctrl n])
      show ?thesis unfolding l r a b by simp
    qed
  qed
qed

text \<open>The loop started with no iteration entered yet, in three cases.\<close>

lemma IPF_loop_past:
  "\<not> n \<le> maxIts ctrl \<Longrightarrow> IPF_loop N ctrl n st [] = (Inr st, [])"
  by (simp add: IPF_loop_iter[of N ctrl n])

lemma IPF_loop_exit:
  "n \<le> maxIts ctrl \<Longrightarrow> IPF_iteration N ctrl n st = Inl r \<Longrightarrow>
   IPF_loop N ctrl n st [] = (r, [(n, st)])"
  by (simp add: IPF_loop_iter[of N ctrl n])

lemma IPF_loop_next:
  "n \<le> maxIts ctrl \<Longrightarrow> IPF_iteration N ctrl n st = Inr st' \<Longrightarrow>
   IPF_loop N ctrl n st [] =
     (fst (IPF_loop N ctrl (n + 1) st' []), (n, st) # snd (IPF_loop N ctrl (n + 1) st' []))"
  using IPF_loop_acc[of N ctrl "n + 1" st' "[(n, st)]"]
  by (simp add: IPF_loop_iter[of N ctrl n st "[]"])

lemma iteration_maxIts:
  "IPF_iteration N ctrl n st = Inl (Inl (RuntimeError_maxIts (maxIts ctrl) (minTol ctrl))) \<longleftrightarrow>
     n = maxIts ctrl \<and> inCone N st \<and> targetTol ctrl < relErrorAt N st \<and>
     minTol ctrl < relErrorAt N st"
  by (auto simp: IPF_iteration_def inCone_def Let_def split: option.splits)

lemma iteration_converged:
  "inCone N st \<Longrightarrow> relErrorAt N st \<le> targetTol ctrl \<Longrightarrow>
   IPF_iteration N ctrl n st = Inl (Inr st)"
  by (auto simp: IPF_iteration_def inCone_def Let_def)

lemma iteration_continues:
  assumes "IPF_iteration N ctrl n st = Inr st'"
  shows "\<not> (inCone N st \<and> relErrorAt N st \<le> targetTol ctrl)"
    and "\<not> (n = maxIts ctrl \<and> inCone N st \<and> targetTol ctrl < relErrorAt N st \<and>
          minTol ctrl < relErrorAt N st)"
  using assms
  by (auto simp: IPF_iteration_def inCone_def Let_def split: option.splits if_splits)

lemma IPF_loop_counters:
  "map fst (snd (IPF_loop N ctrl n st [])) =
     map (\<lambda>k. n + int k) [0..<length (snd (IPF_loop N ctrl n st []))] \<and>
   int (length (snd (IPF_loop N ctrl n st []))) \<le> max 0 (maxIts ctrl + 1 - n)"
proof (induction "nat (maxIts ctrl + 1 - n)" arbitrary: n st rule: less_induct)
  case less
  show ?case
  proof (cases "n \<le> maxIts ctrl")
    case False
    then show ?thesis by (simp add: IPF_loop_past)
  next
    case True
    show ?thesis
    proof (cases "IPF_iteration N ctrl n st")
      case (Inl r)
      with True show ?thesis by (simp add: IPF_loop_exit)
    next
      case (Inr st')
      have m: "nat (maxIts ctrl + 1 - (n + 1)) < nat (maxIts ctrl + 1 - n)"
        using True by simp
      note IH = less.hyps[OF m, of st']
      let ?T = "snd (IPF_loop N ctrl (n + 1) st' [])"
      have "map (\<lambda>k. n + int k) [0..<Suc (length ?T)] =
          n # map (\<lambda>k. n + 1 + int k) [0..<length ?T]"
        by (simp add: upt_rec[of 0 "Suc (length ?T)"] map_Suc_upt[symmetric] del: upt_Suc) 
      then show ?thesis
        using IH True by (simp add: IPF_loop_next[OF True Inr] del: upt_Suc)
    qed
  qed
qed

lemma IPF_loop_counter_ge:
  assumes "(k, st') \<in> set (snd (IPF_loop N ctrl n st []))"
  shows "n \<le> k"
proof -
  let ?T = "snd (IPF_loop N ctrl n st [])"
  have "k \<in> set (map fst ?T)" using assms by force
  also have "map fst ?T = map (\<lambda>k. n + int k) [0..<length ?T]"
    using IPF_loop_counters[of N ctrl n st] by simp
  finally show ?thesis by auto
qed

lemma IPF_loop_maxIts:
  "fst (IPF_loop N ctrl n st []) = Inl (RuntimeError_maxIts (maxIts ctrl) (minTol ctrl)) \<longleftrightarrow>
     (\<exists>st'. (maxIts ctrl, st') \<in> set (snd (IPF_loop N ctrl n st [])) \<and> inCone N st' \<and>
        targetTol ctrl < relErrorAt N st' \<and> minTol ctrl < relErrorAt N st')"
proof (induction "nat (maxIts ctrl + 1 - n)" arbitrary: n st rule: less_induct)
  case less
  show ?case
  proof (cases "n \<le> maxIts ctrl")
    case False
    then show ?thesis by (simp add: IPF_loop_past)
  next
    case True
    show ?thesis
    proof (cases "IPF_iteration N ctrl n st")
      case (Inl r)
      show ?thesis
        using iteration_maxIts[of N ctrl n st] Inl
        by (auto simp: IPF_loop_exit[OF True Inl])
    next
      case (Inr st1)
      have m: "nat (maxIts ctrl + 1 - (n + 1)) < nat (maxIts ctrl + 1 - n)"
        using True by simp
      note IH = less.hyps[OF m, of st1]
      note c = iteration_continues[OF Inr]
      show ?thesis
        using IH c(2) by (auto simp: IPF_loop_next[OF True Inr] dest: IPF_loop_counter_ge)
    qed
  qed
qed

lemma IPF_loop_converged:
  assumes "(k, st') \<in> set (snd (IPF_loop N ctrl n st []))"
    and "inCone N st'" and "relErrorAt N st' \<le> targetTol ctrl"
  shows "fst (IPF_loop N ctrl n st []) = Inr st' \<and> last (snd (IPF_loop N ctrl n st [])) = (k, st')"
  using assms
proof (induction "nat (maxIts ctrl + 1 - n)" arbitrary: n st rule: less_induct)
  case less
  show ?case
  proof (cases "n \<le> maxIts ctrl")
    case False
    then show ?thesis using less.prems by (simp add: IPF_loop_past)
  next
    case True
    show ?thesis
    proof (cases "IPF_iteration N ctrl n st")
      case (Inl r)
      show ?thesis
        using less.prems iteration_converged[of N st' ctrl n] Inl
        by (auto simp: IPF_loop_exit[OF True Inl])
    next
      case (Inr st1)
      have m: "nat (maxIts ctrl + 1 - (n + 1)) < nat (maxIts ctrl + 1 - n)"
        using True by simp
      note c = iteration_continues[OF Inr]
      have "(k, st') \<noteq> (n, st)" using c(1) less.prems(2,3) by auto
      then have mem: "(k, st') \<in> set (snd (IPF_loop N ctrl (n + 1) st1 []))"
        using less.prems(1) by (auto simp: IPF_loop_next[OF True Inr])
      note IH = less.hyps[OF m mem less.prems(2,3)]
      have "snd (IPF_loop N ctrl (n + 1) st1 []) \<noteq> []" using mem by auto
      then show ?thesis
        using IH by (simp add: IPF_loop_next[OF True Inr])
    qed
  qed
qed

lemma IPF_fst_snd:
  "fst (IPF N ctrl st) = map_sum id (unequilibrate N) (fst (IPF_loop N ctrl 0 st []))"
  "snd (IPF N ctrl st) = snd (IPF_loop N ctrl 0 st [])"
  by (simp_all add: IPF_def split: prod.splits sum.splits)

section \<open>The claim about the interior-point routine\<close>

text \<open>Claim C7, as amended. \<open>IPF\<close> ends with the runtime error of the exceeded iteration
  limit exactly when it enters the iteration whose counter is \<open>ctrl.maxIts\<close> with an iterate
  that passes the cone check and whose relative error is above both \<open>ctrl.targetTol\<close> and
  \<open>ctrl.minTol\<close>. It returns normally from the first iteration whose iterate passes the
  cone check with a relative error of at most \<open>ctrl.targetTol\<close>, and that iteration is the
  last one entered. It does not retry: the counters of the iterations entered are
  0, 1, 2, ... without repetition, at most \<open>ctrl.maxIts + 1\<close> of them.\<close>

theorem IPF_iteration_limit:
  "(fst (IPF N ctrl st0) = Inl (RuntimeError_maxIts (maxIts ctrl) (minTol ctrl)) \<longleftrightarrow>
      (\<exists>st. (maxIts ctrl, st) \<in> set (snd (IPF N ctrl st0)) \<and> inCone N st \<and>
         targetTol ctrl < relErrorAt N st \<and> minTol ctrl < relErrorAt N st)) \<and>
   (\<forall>(k, st) \<in> set (snd (IPF N ctrl st0)).
      inCone N st \<and> relErrorAt N st \<le> targetTol ctrl \<longrightarrow>
        fst (IPF N ctrl st0) = Inr (unequilibrate N st) \<and>
        last (snd (IPF N ctrl st0)) = (k, st)) \<and>
   map fst (snd (IPF N ctrl st0)) = map int [0..<length (snd (IPF N ctrl st0))] \<and>
   int (length (snd (IPF N ctrl st0))) \<le> max 0 (maxIts ctrl + 1)"
proof (intro conjI)
  have "fst (IPF N ctrl st0) = Inl (RuntimeError_maxIts (maxIts ctrl) (minTol ctrl)) \<longleftrightarrow>
      fst (IPF_loop N ctrl 0 st0 []) = Inl (RuntimeError_maxIts (maxIts ctrl) (minTol ctrl))"
    by (cases "fst (IPF_loop N ctrl 0 st0 [])") (simp_all add: IPF_fst_snd)
  then show "fst (IPF N ctrl st0) = Inl (RuntimeError_maxIts (maxIts ctrl) (minTol ctrl)) \<longleftrightarrow>
      (\<exists>st. (maxIts ctrl, st) \<in> set (snd (IPF N ctrl st0)) \<and> inCone N st \<and>
         targetTol ctrl < relErrorAt N st \<and> minTol ctrl < relErrorAt N st)"
    by (simp add: IPF_loop_maxIts IPF_fst_snd(2))
next
  show "\<forall>(k, st) \<in> set (snd (IPF N ctrl st0)).
      inCone N st \<and> relErrorAt N st \<le> targetTol ctrl \<longrightarrow>
        fst (IPF N ctrl st0) = Inr (unequilibrate N st) \<and>
        last (snd (IPF N ctrl st0)) = (k, st)"
    using IPF_loop_converged[of _ _ N ctrl 0 st0]
    by (auto simp: IPF_fst_snd)
next
  show "map fst (snd (IPF N ctrl st0)) = map int [0..<length (snd (IPF N ctrl st0))]"
    using IPF_loop_counters[of N ctrl 0 st0] by (simp add: IPF_fst_snd(2))
next
  show "int (length (snd (IPF N ctrl st0))) \<le> max 0 (maxIts ctrl + 1)"
    using IPF_loop_counters[of N ctrl 0 st0] by (simp add: IPF_fst_snd(2))
qed

lemma halving_fields [simp]:
  "NumNonPositive_s halving st = 0" "NumNonPositive_z halving st = 0"
  "relErrorAt halving st = st" "solveDirection halving st = Some ()"
  "IPFLineSearch halving st d = 1" "takeStep halving alpha d st = st / 2"
  "unequilibrate halving st = st"
  by (simp_all add: halving_def)

lemma strict_trace: "snd (IPF halving strict_ctrl 1) = [(0, 1), (1, 1 / 2), (2, 1 / 4)]"
  by (simp add: IPF_fst_snd IPF_loop.simps strict_ctrl_def Let_def)

lemma easy_trace: "snd (IPF halving easy_ctrl 1) = [(0, 1), (1, 1 / 2)]"
  by (simp add: IPF_fst_snd IPF_loop.simps easy_ctrl_def Let_def)

lemma outOfCone_fields [simp]:
  "NumNonPositive_s outOfCone st = 1" "NumNonPositive_z outOfCone st = 0"
  "relErrorAt outOfCone st = st"
  by (simp_all add: outOfCone_def halving_def)

theorem IPF_iteration_limit_witness:
  "(maxIts strict_ctrl, 1 / 4) \<in> set (snd (IPF halving strict_ctrl 1)) \<and>
   inCone halving (1 / 4) \<and> targetTol strict_ctrl < relErrorAt halving (1 / 4) \<and>
   minTol strict_ctrl < relErrorAt halving (1 / 4) \<and>
   fst (IPF halving strict_ctrl 1) = Inl (RuntimeError_maxIts 2 (1 / 8)) \<and>
   (1, 1 / 2) \<in> set (snd (IPF halving easy_ctrl 1)) \<and>
   inCone halving (1 / 2) \<and> relErrorAt halving (1 / 2) \<le> targetTol easy_ctrl \<and>
   fst (IPF halving easy_ctrl 1) = Inr (1 / 2) \<and>
   last (snd (IPF halving easy_ctrl 1)) = (1, 1 / 2) \<and>
   map fst (snd (IPF halving strict_ctrl 1)) = [0, 1, 2]"
proof -
  note T1 = IPF_iteration_limit[of halving strict_ctrl 1]
  note T2 = IPF_iteration_limit[of halving easy_ctrl 1]
  have m: "maxIts strict_ctrl = 2" by (simp add: strict_ctrl_def)
  have a: "(maxIts strict_ctrl, 1 / 4) \<in> set (snd (IPF halving strict_ctrl 1))"
    "inCone halving (1 / 4)" "targetTol strict_ctrl < relErrorAt halving (1 / 4)"
    "minTol strict_ctrl < relErrorAt halving (1 / 4)"
    unfolding m strict_trace by (simp_all add: inCone_def strict_ctrl_def)
  have b: "(1, 1 / 2) \<in> set (snd (IPF halving easy_ctrl 1))"
    "inCone halving (1 / 2)" "relErrorAt halving (1 / 2) \<le> targetTol easy_ctrl"
    unfolding easy_trace by (simp_all add: inCone_def easy_ctrl_def)
  have 1: "fst (IPF halving strict_ctrl 1) = Inl (RuntimeError_maxIts 2 (1 / 8))"
  proof -
    have "fst (IPF halving strict_ctrl 1) =
        Inl (RuntimeError_maxIts (maxIts strict_ctrl) (minTol strict_ctrl))"
      using T1 a by blast
    then show ?thesis by (simp add: strict_ctrl_def)
  qed
  have 2: "fst (IPF halving easy_ctrl 1) = Inr (1 / 2)"
    "last (snd (IPF halving easy_ctrl 1)) = (1, 1 / 2)"
    using T2 b by fastforce+
  have 3: "map fst (snd (IPF halving strict_ctrl 1)) = [0, 1, 2]"
    by (simp add: strict_trace)
  show ?thesis
    by (intro conjI) (rule a b 1 2 3)+
qed

text \<open>The claim as stated fails. With a target tolerance above the minimum tolerance, the
  iteration whose counter is \<open>ctrl.maxIts\<close> is entered with a relative error above
  \<open>ctrl.minTol\<close> and the routine returns normally; and when the iterate of that iteration
  fails the cone check, the routine ends with the logic error of the cone check instead.\<close>

theorem IPF_limit_reached_without_that_error:
  "(maxIts inverted_ctrl, 1 / 2) \<in> set (snd (IPF halving inverted_ctrl (1 / 2))) \<and>
   minTol inverted_ctrl < relErrorAt halving (1 / 2) \<and>
   fst (IPF halving inverted_ctrl (1 / 2)) = Inr (1 / 2) \<and>
   (maxIts single_ctrl, 1 / 2) \<in> set (snd (IPF outOfCone single_ctrl (1 / 2))) \<and>
   minTol single_ctrl < relErrorAt outOfCone (1 / 2) \<and>
   fst (IPF outOfCone single_ctrl (1 / 2)) = Inl (LogicError_cone 1 0)"
  by (simp add: IPF_fst_snd IPF_loop.simps inverted_ctrl_def single_ctrl_def Let_def)

section \<open>The claims about the C wrappers and the partial column filter\<close>

text \<open>Claim C9, as amended. The wrapper \<open>ElCauchyLike\<close> leaves the matrix \<open>A\<close> as it was
  for every input: it builds the four vectors and never calls \<open>CauchyLike\<close>. It returns
  \<open>EL_SUCCESS\<close> for every input whose four sizes are sizes for which the construction of
  a vector succeeds; for any other input a construction throws and the wrapper returns the
  code the handlers of \<open>EL_CATCH\<close> give for the exception, which for a negative first size
  is a \<open>length_error\<close>. The wrapper \<open>ElCauchyLikeDist\<close> does call \<open>CauchyLike\<close>: when the
  four constructions succeed and \<open>CauchyLike\<close> returns normally, the wrapper returns
  \<open>EL_SUCCESS\<close> with the matrix \<open>CauchyLike\<close> produced.\<close>

theorem ElCauchyLike_leaves_A:
  "snd (ElCauchyLike EL_CATCH capacity A rSize rBuf sSize sBuf xSize xBuf ySize yBuf) = A \<and>
   (constructible capacity rSize \<and> constructible capacity sSize \<and>
    constructible capacity xSize \<and> constructible capacity ySize \<longrightarrow>
      ElCauchyLike EL_CATCH capacity A rSize rBuf sSize sBuf xSize xBuf ySize yBuf =
        (EL_SUCCESS, A)) \<and>
   (\<not> (constructible capacity rSize \<and> constructible capacity sSize \<and>
       constructible capacity xSize \<and> constructible capacity ySize) \<longrightarrow>
      (\<exists>e. ElCauchyLike EL_CATCH capacity A rSize rBuf sSize sBuf xSize xBuf ySize yBuf =
        (EL_CATCH e, A))) \<and>
   (rSize < 0 \<longrightarrow>
      ElCauchyLike EL_CATCH capacity A rSize rBuf sSize sBuf xSize xBuf ySize yBuf =
        (EL_CATCH std_length_error, A)) \<and>
   (constructible capacity rSize \<and> constructible capacity sSize \<and>
    constructible capacity xSize \<and> constructible capacity ySize \<and>
    CauchyLike A (map rBuf [0..<nat rSize]) (map sBuf [0..<nat sSize])
        (map xBuf [0..<nat xSize]) (map yBuf [0..<nat ySize]) = (None, A') \<longrightarrow>
    ElCauchyLikeDist CauchyLike EL_CATCH capacity A rSize rBuf sSize sBuf xSize xBuf ySize yBuf =
      (EL_SUCCESS, A'))"
proof (intro conjI impI)
  show "snd (ElCauchyLike EL_CATCH capacity A rSize rBuf sSize sBuf xSize xBuf ySize yBuf) = A"
    by (simp add: ElCauchyLike_def split: sum.splits)
next
  assume "constructible capacity rSize \<and> constructible capacity sSize \<and>
    constructible capacity xSize \<and> constructible capacity ySize"
  then show "ElCauchyLike EL_CATCH capacity A rSize rBuf sSize sBuf xSize xBuf ySize yBuf =
        (EL_SUCCESS, A)"
    by (simp add: ElCauchyLike_def vectorFrom_def constructible_def)
next
  assume "\<not> (constructible capacity rSize \<and> constructible capacity sSize \<and>
       constructible capacity xSize \<and> constructible capacity ySize)"
  then show "\<exists>e. ElCauchyLike EL_CATCH capacity A rSize rBuf sSize sBuf xSize xBuf ySize yBuf =
        (EL_CATCH e, A)"
    by (auto simp: ElCauchyLike_def vectorFrom_def constructible_def)
next
  assume "rSize < 0"
  then show "ElCauchyLike EL_CATCH capacity A rSize rBuf sSize sBuf xSize xBuf ySize yBuf =
        (EL_CATCH std_length_error, A)"
    by (simp add: ElCauchyLike_def vectorFrom_def)
next
  assume "constructible capacity rSize \<and> constructible capacity sSize \<and>
    constructible capacity xSize \<and> constructible capacity ySize \<and>
    CauchyLike A (map rBuf [0..<nat rSize]) (map sBuf [0..<nat sSize])
        (map xBuf [0..<nat xSize]) (map yBuf [0..<nat ySize]) = (None, A')"
  then show "ElCauchyLikeDist CauchyLike EL_CATCH capacity A rSize rBuf sSize sBuf xSize xBuf
      ySize yBuf = (EL_SUCCESS, A')"
    by (simp add: ElCauchyLikeDist_def vectorFrom_def constructible_def)
qed

theorem ElCauchyLike_leaves_A_witness:
  "constructible 8 1 \<and> constructible 8 2 \<and> \<not> constructible 8 9 \<and>
   ElCauchyLike code_of_class 8 [[0, 0::real]] 1 (\<lambda>k. 2) 2 (\<lambda>k. 3) 1 (\<lambda>k. 5) 2 (\<lambda>k. real k) =
     (EL_SUCCESS, [[0, 0]]) \<and>
   (\<exists>e. ElCauchyLike code_of_class 8 [[0, 0::real]] 1 (\<lambda>k. 2) 9 (\<lambda>k. 3) 1 (\<lambda>k. 5) 2
        (\<lambda>k. real k) = (code_of_class e, [[0, 0]])) \<and>
   ElCauchyLike code_of_class 8 [[0, 0::real]] (- 1) (\<lambda>k. 2) 2 (\<lambda>k. 3) 1 (\<lambda>k. 5) 2
        (\<lambda>k. real k) = (EL_LOGIC_ERROR, [[0, 0]]) \<and>
   fillCauchyLike [[0, 0]] (map (\<lambda>k. 2) [0..<nat 1]) (map (\<lambda>k. 3) [0..<nat 2])
        (map (\<lambda>k. 5) [0..<nat 1]) (map (\<lambda>k. real k) [0..<nat 2]) = (None, [[6 / 5, 6 / 4]]) \<and>
   ElCauchyLikeDist fillCauchyLike code_of_class 8 [[0, 0]] 1 (\<lambda>k. 2) 2 (\<lambda>k. 3) 1 (\<lambda>k. 5) 2
        (\<lambda>k. real k) = (EL_SUCCESS, [[6 / 5, 6 / 4]])"
proof -
  have c: "constructible 8 1" "constructible 8 2" "\<not> constructible 8 9"
    by (simp_all add: constructible_def)
  have f: "fillCauchyLike [[0, 0]] (map (\<lambda>k. 2) [0..<nat 1]) (map (\<lambda>k. 3) [0..<nat 2])
        (map (\<lambda>k. 5) [0..<nat 1]) (map (\<lambda>k. real k) [0..<nat 2]) = (None, [[6 / 5, 6 / 4]])"
    by (simp add: fillCauchyLike_def upt_conv_Cons)
  note T1 = ElCauchyLike_leaves_A[of code_of_class 8 "[[0, 0]]" 1 "\<lambda>k. 2" 2 "\<lambda>k. 3" 1 "\<lambda>k. 5" 2
      "\<lambda>k. real k" fillCauchyLike "[[6 / 5, 6 / 4]]"]
  note T2 = ElCauchyLike_leaves_A[of code_of_class 8 "[[0, 0]]" 1 "\<lambda>k. 2" 9 "\<lambda>k. 3" 1 "\<lambda>k. 5" 2
      "\<lambda>k. real k" fillCauchyLike "[[6 / 5, 6 / 4]]"]
  note T3 = ElCauchyLike_leaves_A[of code_of_class 8 "[[0, 0]]" "- 1" "\<lambda>k. 2" 2 "\<lambda>k. 3" 1
      "\<lambda>k. 5" 2 "\<lambda>k. real k" fillCauchyLike "[[6 / 5, 6 / 4]]"]
  have 1: "ElCauchyLike code_of_class 8 [[0, 0::real]] 1 (\<lambda>k. 2) 2 (\<lambda>k. 3) 1 (\<lambda>k. 5) 2
      (\<lambda>k. real k) = (EL_SUCCESS, [[0, 0]])"
    using T1 c by blast
  have 2: "\<exists>e. ElCauchyLike code_of_class 8 [[0, 0::real]] 1 (\<lambda>k. 2) 9 (\<lambda>k. 3) 1 (\<lambda>k. 5) 2
        (\<lambda>k. real k) = (code_of_class e, [[0, 0]])"
    using T2 c by blast
  have 3: "ElCauchyLike code_of_class 8 [[0, 0::real]] (- 1) (\<lambda>k. 2) 2 (\<lambda>k. 3) 1 (\<lambda>k. 5) 2
        (\<lambda>k. real k) = (EL_LOGIC_ERROR, [[0, 0]])"
    using T3 by simp
  have 4: "ElCauchyLikeDist fillCauchyLike code_of_class 8 [[0, 0]] 1 (\<lambda>k. 2) 2 (\<lambda>k. 3) 1
      (\<lambda>k. 5) 2 (\<lambda>k. real k) = (EL_SUCCESS, [[6 / 5, 6 / 4]])"
    using T1 c f by blast
  show ?thesis by (intro conjI) (rule c 1 2 3 f 4)+
qed

text \<open>The claim as stated fails: with a negative first size the construction of the
  first vector throws, and the wrapper returns the code of the handler, not \<open>EL_SUCCESS\<close>.
  The matrix is untouched all the same.\<close>

theorem ElCauchyLike_negative_size:
  "ElCauchyLike code_of_class 8 [[0, 0::real]] (- 1) real 2 real 1 real 2 real =
     (EL_LOGIC_ERROR, [[0, 0]]) \<and>
   EL_LOGIC_ERROR \<noteq> EL_SUCCESS"
  by (simp add: ElCauchyLike_def vectorFrom_def)

text \<open>Claim C10. The output of \<open>adjoint::PartialColFilter\<close> does not depend on its
  argument \<open>conjugate\<close>: with the flag true and with the flag false it writes the same
  contents into \<open>B\<close>, those of \<open>transpose::PartialColFilter\<close> called with conjugation
  enabled.\<close>

theorem adjoint_PartialColFilter_ignores_conjugate:
  "adjoint_PartialColFilter transpose_PartialColFilter A B True =
     adjoint_PartialColFilter transpose_PartialColFilter A B False \<and>
   adjoint_PartialColFilter transpose_PartialColFilter A B conjugate =
     transpose_PartialColFilter A B True"
  by (simp add: adjoint_PartialColFilter_def)

section \<open>Properties of ownership and redistribution\<close>

lemma set_gridProcesses:
  "set (gridProcesses g) = {(p, q). p < pgHeight g \<and> q < pgWidth g}"
  by (auto simp: gridProcesses_def)

lemma cyclic_owner:
  fixes n i a :: nat
  assumes "0 < n"
  shows "\<exists>k<n. i mod n = (k + a) mod n"
proof -
  define k where "k = (i + (n - a mod n)) mod n"
  have "k < n" using assms by (simp add: k_def)
  moreover have "(k + a) mod n = i mod n"
  proof -
    have le: "a mod n \<le> n" using assms by (simp add: less_imp_le)
    have "(k + a) mod n = (i + (n - a mod n) + a) mod n"
      by (simp add: k_def mod_add_left_eq)
    also have "i + (n - a mod n) + a = i + n * (1 + a div n)"
      using le mult_div_mod_eq[of n a] by (simp only: distrib_left mult_1_right)
    also have "\<dots> mod n = i mod n" by (rule mod_mult_self2)
    finally show ?thesis .
  qed
  ultimately show ?thesis by metis
qed

lemma nth_filter_upt:
  assumes "i < n" "P i"
  shows "length (filter P [0..<i]) < length (filter P [0..<n]) \<and>
         filter P [0..<n] ! length (filter P [0..<i]) = i"
proof -
  have "[0..<n] = [0..<i] @ i # [Suc i..<n]"
    using assms(1) by (metis less_imp_le_nat upt_add_eq_append upt_conv_Cons le_add_diff_inverse zero_le)
  then have "filter P [0..<n] = filter P [0..<i] @ i # filter P [Suc i..<n]"
    using assms(2) by simp
  then show ?thesis by (simp add: nth_append)
qed

lemma owner_GridRow:
  "0 < pgHeight g \<Longrightarrow> \<exists>p<pgHeight g. \<forall>q. ownsIndex g GridRow a (p, q) i"
  using cyclic_owner[of "pgHeight g" i a] by auto

lemma owner_GridCol:
  "0 < pgWidth g \<Longrightarrow> \<exists>q<pgWidth g. \<forall>p. ownsIndex g GridCol a (p, q) i"
  using cyclic_owner[of "pgWidth g" i a] by auto

lemma owner_GridColMajorLinear:
  assumes "0 < pgHeight g" "0 < pgWidth g"
  shows "\<exists>p<pgHeight g. \<exists>q<pgWidth g. ownsIndex g GridColMajorLinear a (p, q) i"
proof -
  obtain k where k: "k < pgHeight g * pgWidth g"
    "i mod (pgHeight g * pgWidth g) = (k + a) mod (pgHeight g * pgWidth g)"
    using cyclic_owner[of "pgHeight g * pgWidth g" i a] assms by auto
  have "k mod pgHeight g < pgHeight g" using assms by simp
  moreover have "k div pgHeight g < pgWidth g"
    using k(1) by (simp add: less_mult_imp_div_less mult.commute)
  moreover have "ownsIndex g GridColMajorLinear a (k mod pgHeight g, k div pgHeight g) i"
    using k(2) by simp
  ultimately show ?thesis by blast
qed

lemma owner_GridRowMajorLinear:
  assumes "0 < pgHeight g" "0 < pgWidth g"
  shows "\<exists>p<pgHeight g. \<exists>q<pgWidth g. ownsIndex g GridRowMajorLinear a (p, q) i"
proof -
  obtain k where k: "k < pgHeight g * pgWidth g"
    "i mod (pgHeight g * pgWidth g) = (k + a) mod (pgHeight g * pgWidth g)"
    using cyclic_owner[of "pgHeight g * pgWidth g" i a] assms by auto
  have "k mod pgWidth g < pgWidth g" using assms by simp
  moreover have "k div pgWidth g < pgHeight g"
    using k(1) by (simp add: less_mult_imp_div_less)
  moreover have "ownsIndex g GridRowMajorLinear a (k div pgWidth g, k mod pgWidth g) i"
    using k(2) by simp
  ultimately show ?thesis by blast
qed

lemma owner_SingleProcess:
  assumes "0 < pgHeight g" "a < pgHeight g * pgWidth g"
  shows "\<exists>p<pgHeight g. \<exists>q<pgWidth g.
     ownsIndex g SingleProcess a (p, q) i \<and> ownsIndex g SingleProcess a (p, q) j"
proof -
  have "a mod pgHeight g < pgHeight g" using assms by simp
  moreover have "a div pgHeight g < pgWidth g"
    using assms(2) by (simp add: less_mult_imp_div_less mult.commute)
  moreover have "ownsIndex g SingleProcess a (a mod pgHeight g, a div pgHeight g) i"
    "ownsIndex g SingleProcess a (a mod pgHeight g, a div pgHeight g) j"
    by simp_all
  ultimately show ?thesis by blast
qed

lemma catalogue_covers:
  assumes r: "0 < pgHeight g" and c: "0 < pgWidth g" and sup: "supported g D"
  shows "\<exists>pr\<in>set (gridProcesses g). ownsEntry g D pr i j"
proof -
  let ?ar = "alignOfRows D" and ?ac = "alignOfCols D"
  have goal: "(\<exists>pr\<in>set (gridProcesses g). ownsEntry g D pr i j) \<longleftrightarrow>
      (\<exists>p<pgHeight g. \<exists>q<pgWidth g.
         ownsIndex g (distOfRows D) ?ar (p, q) i \<and> ownsIndex g (distOfCols D) ?ac (p, q) j)"
    by (auto simp: set_gridProcesses ownsEntry_def)
  obtain p1 where p1: "p1 < pgHeight g" "\<And>q. ownsIndex g GridRow ?ar (p1, q) i"
    using owner_GridRow[OF r, of ?ar i] by blast
  obtain p2 where p2: "p2 < pgHeight g" "\<And>q. ownsIndex g GridRow ?ac (p2, q) j"
    using owner_GridRow[OF r, of ?ac j] by blast
  obtain q1 where q1: "q1 < pgWidth g" "\<And>p. ownsIndex g GridCol ?ar (p, q1) i"
    using owner_GridCol[OF c, of ?ar i] by blast
  obtain q2 where q2: "q2 < pgWidth g" "\<And>p. ownsIndex g GridCol ?ac (p, q2) j"
    using owner_GridCol[OF c, of ?ac j] by blast
  have rep: "\<And>a pr k. ownsIndex g Replicated a pr k"
    by (metis ownsIndex.simps(5) surj_pair)
  from sup consider
      (1) "distOfRows D = GridRow" "distOfCols D = GridCol"
    | (2) "distOfRows D = GridCol" "distOfCols D = GridRow"
    | (3) "distOfRows D = GridRow" "distOfCols D = Replicated"
    | (4) "distOfRows D = Replicated" "distOfCols D = GridRow"
    | (5) "distOfRows D = GridCol" "distOfCols D = Replicated"
    | (6) "distOfRows D = Replicated" "distOfCols D = GridCol"
    | (7) "distOfRows D = GridColMajorLinear" "distOfCols D = Replicated"
    | (8) "distOfRows D = Replicated" "distOfCols D = GridColMajorLinear"
    | (9) "distOfRows D = GridRowMajorLinear" "distOfCols D = Replicated"
    | (10) "distOfRows D = Replicated" "distOfCols D = GridRowMajorLinear"
    | (11) "distOfRows D = Replicated" "distOfCols D = Replicated"
    | (12) "distOfRows D = SingleProcess" "distOfCols D = SingleProcess"
    unfolding supported_def catalogue_def by auto
  then have "\<exists>p<pgHeight g. \<exists>q<pgWidth g.
         ownsIndex g (distOfRows D) ?ar (p, q) i \<and> ownsIndex g (distOfCols D) ?ac (p, q) j"
  proof cases
    case 1 then show ?thesis using p1 q2 by auto
  next
    case 2 then show ?thesis using q1 p2 by auto
  next
    case 3 then show ?thesis using p1 c rep by auto
  next
    case 4 then show ?thesis using p2 c rep by auto
  next
    case 5 then show ?thesis using q1 r rep by auto
  next
    case 6 then show ?thesis using q2 r rep by auto
  next
    case 7 then show ?thesis using owner_GridColMajorLinear[OF r c, of ?ar i] rep by auto
  next
    case 8 then show ?thesis using owner_GridColMajorLinear[OF r c, of ?ac j] rep by auto
  next
    case 9 then show ?thesis using owner_GridRowMajorLinear[OF r c, of ?ar i] rep by auto
  next
    case 10 then show ?thesis using owner_GridRowMajorLinear[OF r c, of ?ac j] rep by auto
  next
    case 11 then show ?thesis using r c rep by auto
  next
    case 12
    then have "?ar = ?ac" "?ar < pgHeight g * pgWidth g"
      using sup by (auto simp: supported_def)
    then show ?thesis using owner_SingleProcess[OF r, of ?ar i j] 12 by auto
  qed
  then show ?thesis by (simp add: goal)
qed

lemma ownerOf_Some:
  assumes "0 < pgHeight g" "0 < pgWidth g" "supported g D"
  shows "\<exists>pr. ownerOf g D i j = Some pr \<and> pr \<in> set (gridProcesses g) \<and> ownsEntry g D pr i j"
proof -
  from catalogue_covers[OF assms, of i j]
  have "find (\<lambda>pr. ownsEntry g D pr i j) (gridProcesses g) \<noteq> None"
    by (auto simp: find_None_iff)
  then obtain pr where f: "find (\<lambda>pr. ownsEntry g D pr i j) (gridProcesses g) = Some pr"
    by blast
  then have "ownsEntry g D pr i j" "pr \<in> set (gridProcesses g)"
    by (auto simp: find_Some_iff)
  with f show ?thesis by (simp add: ownerOf_def)
qed

lemma local_global:
  assumes "i < n" "ownsIndex g d a pr i"
  shows "localIndex g d a pr i < localLength g d a pr n"
    and "globalIndex g d a pr n (localIndex g d a pr i) = i"
  using nth_filter_upt[of i n "ownsIndex g d a pr"] assms
  by (simp_all add: localIndex_def localLength_def globalIndex_def ownedIndices_def)

lemma entry_populate:
  assumes "0 < pgHeight g" "0 < pgWidth g" "supported g D" "i < h" "j < w"
  shows "entry (populate g h w D e) i j = e i j"
proof -
  obtain pr where pr: "ownerOf g D i j = Some pr" "pr \<in> set (gridProcesses g)"
    "ownsEntry g D pr i j"
    using ownerOf_Some[OF assms(1-3), of i j] by blast
  have oi: "ownsIndex g (distOfRows D) (alignOfRows D) pr i"
    and oj: "ownsIndex g (distOfCols D) (alignOfCols D) pr j"
    using pr(3) by (simp_all add: ownsEntry_def)
  note li = local_global[OF assms(4) oi] and lj = local_global[OF assms(5) oj]
  show ?thesis
    using assms(4,5) pr(1,2) li lj
    by (simp add: entry_def populate_def Let_def)
qed

lemma globalIndex_less:
  "k < localLength g d a pr n \<Longrightarrow> globalIndex g d a pr n k < n"
proof -
  assume "k < localLength g d a pr n"
  then have "globalIndex g d a pr n k \<in> set (filter (ownsIndex g d a pr) [0..<n])"
    unfolding globalIndex_def localLength_def ownedIndices_def by (rule nth_mem)
  then show ?thesis by simp
qed

lemma populate_cong:
  assumes "\<And>i j. i < h \<Longrightarrow> j < w \<Longrightarrow> e1 i j = e2 i j"
  shows "populate g h w D e1 = populate g h w D e2"
proof -
  have "(\<lambda>pr (iLoc, jLoc).
         if pr \<in> set (gridProcesses g) \<and>
            iLoc < localLength g (distOfRows D) (alignOfRows D) pr h \<and>
            jLoc < localLength g (distOfCols D) (alignOfCols D) pr w
         then e1 (globalIndex g (distOfRows D) (alignOfRows D) pr h iLoc)
                (globalIndex g (distOfCols D) (alignOfCols D) pr w jLoc)
         else None) =
        (\<lambda>pr (iLoc, jLoc).
         if pr \<in> set (gridProcesses g) \<and>
            iLoc < localLength g (distOfRows D) (alignOfRows D) pr h \<and>
            jLoc < localLength g (distOfCols D) (alignOfCols D) pr w
         then e2 (globalIndex g (distOfRows D) (alignOfRows D) pr h iLoc)
                (globalIndex g (distOfCols D) (alignOfCols D) pr w jLoc)
         else None)"
    by (intro ext) (auto simp: assms globalIndex_less)
  then show ?thesis by (simp add: populate_def)
qed

lemma entry_outside: "\<not> (i < dmHeight M \<and> j < dmWidth M) \<Longrightarrow> entry M i j = None"
  by (auto simp: entry_def Let_def)

lemma Redistribute_to_fields [simp]:
  "dmGrid (Redistribute_to M D) = dmGrid M"
  "dmHeight (Redistribute_to M D) = dmHeight M"
  "dmWidth (Redistribute_to M D) = dmWidth M"
  "dmDescriptor (Redistribute_to M D) = D"
  by (simp_all add: Redistribute_to_def populate_def)

lemma entry_Redistribute_to:
  assumes "0 < pgHeight (dmGrid M)" "0 < pgWidth (dmGrid M)" "supported (dmGrid M) D"
  shows "entry (Redistribute_to M D) i j = entry M i j"
proof (cases "i < dmHeight M \<and> j < dmWidth M")
  case True
  then show ?thesis
    using entry_populate[OF assms, of i "dmHeight M" j "dmWidth M" "entry M"]
    by (simp add: Redistribute_to_def)
next
  case False
  then show ?thesis by (simp add: entry_outside)
qed

section \<open>The claim about redistribution\<close>

text \<open>Claim C5. For every matrix \<open>M\<close> on a grid and every pair of descriptors \<open>D1\<close>, \<open>D2\<close>
  of the supported catalogue, where \<open>D1\<close> is the descriptor of \<open>M\<close>, redistributing \<open>M\<close> to
  \<open>D2\<close> and back to \<open>D1\<close> reproduces every entry of \<open>M\<close>: the global entries are equal
  at every position, and when the local storages of \<open>M\<close> hold exactly the entries their
  processes own, with equal replicas, the round trip returns \<open>M\<close> itself, local storage by
  local storage. The values are of an arbitrary type: they are copied, never computed
  with.\<close>

theorem Redistribute_round_trip:
  assumes "0 < pgHeight (dmGrid M)" and "0 < pgWidth (dmGrid M)"
    and "supported (dmGrid M) D1" and "supported (dmGrid M) D2"
    and "dmDescriptor M = D1"
  shows "(\<forall>i j. entry (Redistribute_to (Redistribute_to M D2) D1) i j = entry M i j) \<and>
     (Redistribute_to M D1 = M \<longrightarrow> Redistribute_to (Redistribute_to M D2) D1 = M)"
proof -
  have e2: "entry (Redistribute_to M D2) i j = entry M i j" for i j
    by (rule entry_Redistribute_to[OF assms(1,2,4)])
  have e1: "entry (Redistribute_to (Redistribute_to M D2) D1) i j =
      entry (Redistribute_to M D2) i j" for i j
    using entry_Redistribute_to[of "Redistribute_to M D2" D1 i j] assms(1,2,3) by simp
  have s: "Redistribute_to (Redistribute_to M D2) D1 = Redistribute_to M D1"
    unfolding Redistribute_to_def[of "Redistribute_to M D2"] Redistribute_to_def[of M D1]
    by (simp add: populate_cong[of _ _ "entry (Redistribute_to M D2)" "entry M"] e2)
  show ?thesis using e1 e2 s by simp
qed

lemma example_supported:
  "0 < pgHeight two_by_two" "0 < pgWidth two_by_two"
  "supported two_by_two MC_MR" "supported two_by_two VC_Star"
  by (simp_all add: two_by_two_def supported_def catalogue_def MC_MR_def VC_Star_def)

lemma example_fields:
  "dmGrid example_matrix = two_by_two" "dmDescriptor example_matrix = MC_MR"
  "dmHeight example_matrix = 3" "dmWidth example_matrix = 3"
  by (simp_all add: example_matrix_def populate_def)

theorem Redistribute_round_trip_witness:
  "0 < pgHeight (dmGrid example_matrix) \<and> 0 < pgWidth (dmGrid example_matrix) \<and>
   supported (dmGrid example_matrix) MC_MR \<and> supported (dmGrid example_matrix) VC_Star \<and>
   dmDescriptor example_matrix = MC_MR \<and>
   entry (Redistribute_to (Redistribute_to example_matrix VC_Star) MC_MR) 1 2 = Some 12 \<and>
   Redistribute_to example_matrix MC_MR = example_matrix \<and>
   Redistribute_to (Redistribute_to example_matrix VC_Star) MC_MR = example_matrix"
proof -
  have h: "0 < pgHeight (dmGrid example_matrix)" "0 < pgWidth (dmGrid example_matrix)"
    "supported (dmGrid example_matrix) MC_MR" "supported (dmGrid example_matrix) VC_Star"
    "dmDescriptor example_matrix = MC_MR"
    by (simp_all add: example_fields example_supported)
  note T = Redistribute_round_trip[OF h]
  have v: "entry example_matrix 1 2 = Some 12"
    unfolding example_matrix_def
    using entry_populate[OF example_supported(1,2,3), of 1 3 2 3 "\<lambda>i j. Some (10 * i + j)"]
    by simp
  have own: "Redistribute_to example_matrix MC_MR = example_matrix"
  proof -
    have "populate two_by_two 3 3 MC_MR (entry example_matrix) =
        populate two_by_two 3 3 MC_MR (\<lambda>i j. Some (10 * i + j))"
      unfolding example_matrix_def
      by (rule populate_cong) (rule entry_populate[OF example_supported(1,2,3)])
    then show ?thesis
      by (simp add: Redistribute_to_def example_fields) (simp add: example_matrix_def)
  qed
  have 1: "entry (Redistribute_to (Redistribute_to example_matrix VC_Star) MC_MR) 1 2 = Some 12"
    using T v by simp
  have 2: "Redistribute_to (Redistribute_to example_matrix VC_Star) MC_MR = example_matrix"
    using T own by simp
  show ?thesis by (intro conjI) (rule h 1 own 2)+
qed

section \<open>The local multiply and its global effect\<close>

lemma ownsIndex_Replicated [simp]: "ownsIndex g Replicated a pr i"
  by (cases pr) simp

lemma Replicated_local:
  "localLength g Replicated a pr n = n"
  "t < n \<Longrightarrow> globalIndex g Replicated a pr n t = t"
  "localIndex g Replicated a pr t = t"
  by (simp_all add: localLength_def globalIndex_def localIndex_def ownedIndices_def)

text \<open>The local multiplies of all processes together have the effect on the global entries
  that the model of the update takes as the meaning of its multiply: for panels aligned
  with \<open>C\<close>, every entry of \<open>C\<close> becomes \<open>beta\<close> times itself plus \<open>alpha\<close> times the entry of
  the product.\<close>

lemma localGemm_NC_global_effect:
  assumes g: "0 < pgHeight g" "0 < pgWidth g"
    and al: "a < pgHeight g" "b < pgWidth g"
    and ij: "i < m" "j < n"
  shows "entry (localGemm_NC alpha
            (populate g m k \<lparr> distOfRows = GridRow, distOfCols = Replicated,
                               alignOfRows = a, alignOfCols = 0 \<rparr> (\<lambda>i t. Some (fA i t)))
            (populate g n k \<lparr> distOfRows = GridCol, distOfCols = Replicated,
                               alignOfRows = b, alignOfCols = 0 \<rparr> (\<lambda>j t. Some (fB j t)))
            beta
            (populate g m n \<lparr> distOfRows = GridRow, distOfCols = GridCol,
                               alignOfRows = a, alignOfCols = b \<rparr> (\<lambda>i j. Some (fC i j)))) i j =
         Some (beta * fC i j + alpha * (\<Sum>t<k. fA i t * cnj (fB j t)))"
proof -
  let ?DA = "\<lparr> distOfRows = GridRow, distOfCols = Replicated, alignOfRows = a, alignOfCols = 0 \<rparr>"
  let ?DB = "\<lparr> distOfRows = GridCol, distOfCols = Replicated, alignOfRows = b, alignOfCols = 0 \<rparr>"
  let ?DC = "\<lparr> distOfRows = GridRow, distOfCols = GridCol, alignOfRows = a, alignOfCols = b \<rparr>"
  have sup: "supported g ?DC"
    using al by (simp add: supported_def catalogue_def)
  obtain pr where pr: "ownerOf g ?DC i j = Some pr" "pr \<in> set (gridProcesses g)"
    "ownsEntry g ?DC pr i j"
    using ownerOf_Some[OF g sup, of i j] by blast
  have oi: "ownsIndex g GridRow a pr i" and oj: "ownsIndex g GridCol b pr j"
    using pr(3) by (simp_all add: ownsEntry_def)
  note li = local_global[OF ij(1) oi] and lj = local_global[OF ij(2) oj]
  let ?li = "localIndex g GridRow a pr i" and ?lj = "localIndex g GridCol b pr j"
  have c: "dmLocal (populate g m n ?DC (\<lambda>i j. Some (fC i j))) pr (?li, ?lj) = Some (fC i j)"
    using pr(2) li lj by (simp add: populate_def)
  have x: "dmLocal (populate g m k ?DA (\<lambda>i t. Some (fA i t))) pr (?li, t) = Some (fA i t)"
    if "t < k" for t
    using pr(2) li that by (simp add: populate_def Replicated_local)
  have y: "dmLocal (populate g n k ?DB (\<lambda>j t. Some (fB j t))) pr (?lj, t) = Some (fB j t)"
    if "t < k" for t
    using pr(2) lj that by (simp add: populate_def Replicated_local)
  have w: "dmWidth (populate g m k ?DA (\<lambda>i t. Some (fA i t))) = k"
    by (simp add: populate_def)
  let ?R = "localGemm_NC alpha (populate g m k ?DA (\<lambda>i t. Some (fA i t)))
      (populate g n k ?DB (\<lambda>j t. Some (fB j t))) beta
      (populate g m n ?DC (\<lambda>i j. Some (fC i j)))"
  have f: "dmGrid ?R = g" "dmHeight ?R = m" "dmWidth ?R = n" "dmDescriptor ?R = ?DC"
    by (simp_all add: localGemm_NC_def populate_def)
  have r: "dmLocal ?R pr (?li, ?lj) = Some (beta * fC i j + alpha * (\<Sum>t<k. fA i t * cnj (fB j t)))"
    apply (simp add: localGemm_NC_def c w)
    apply (rule disjI2)
    apply (rule sum.cong)
     apply (simp_all add: x y)
    done
  show ?thesis
    unfolding entry_def f Let_def using ij pr(1) r by simp
qed

end
